(* ===== verification/Prelude.thy ===== *)
theory Prelude
  imports Main "HOL-Library.State_Monad" "HOL-Library.Word"
begin

text \<open>
  The vocabulary every component shares: the Go types the model uses (byte strings, slices with
  their nil value, instants and durations in nanoseconds, wrapped 64-bit integers), the rules for
  running a state-monad program, and a few facts about lists. \<^verbatim>\<open>run_simps\<close> collects the
  rewrite rules that run a program, \<^verbatim>\<open>model_defs\<close> the definitions a component proof unfolds.
\<close>

named_theorems run_simps
named_theorems model_defs

section \<open>Go types\<close>

text \<open>A Go string or byte slice is its bytes; HOL's characters are exactly the 256 bytes.\<close>

type_synonym bytes = string

text \<open>
  \<^verbatim>\<open>time.Time\<close> is an instant and \<^verbatim>\<open>time.Duration\<close> a length of time, both in nanoseconds.
\<close>

type_synonym time = int
type_synonym duration = int

definition Second :: duration where
  "Second = 1000000000"

definition Minute :: duration where
  "Minute = 60 * Second"

definition Hour :: duration where
  "Hour = 60 * Minute"

lemma duration_pos [simp]: "0 < Second" "0 < Minute" "0 < Hour"
  by (simp_all add: Second_def Minute_def Hour_def)

text \<open>The value an \<^verbatim>\<open>int64\<close> expression has after two's complement wrap-around.\<close>

definition i64 :: "int \<Rightarrow> int" where
  "i64 x = (x + 2 ^ 63) mod 2 ^ 64 - 2 ^ 63"

definition is_i64 :: "int \<Rightarrow> bool" where
  "is_i64 x \<longleftrightarrow> - (2 ^ 63) \<le> x \<and> x < 2 ^ 63"

lemma i64_id [simp]: "is_i64 x \<Longrightarrow> i64 x = x"
  by (simp add: i64_def is_i64_def)

lemma is_i64_i64 [simp]: "is_i64 (i64 x)"
  using pos_mod_bound [of "2 ^ 64 :: int" "x + 2 ^ 63"] pos_mod_sign [of "2 ^ 64 :: int" "x + 2 ^ 63"]
  by (simp add: i64_def is_i64_def)

text \<open>A slice is nil or a sequence; \<^verbatim>\<open>reflect.DeepEqual\<close> tells nil from the empty slice.\<close>

type_synonym 'a slice = "'a list option"

fun elems :: "'a slice \<Rightarrow> 'a list" where
  "elems None = []"
| "elems (Some xs) = xs"

text \<open>\<^verbatim>\<open>append([]T(nil), xs...)\<close>: a copy that is nil when there is nothing to copy.\<close>

definition append_nil :: "'a slice \<Rightarrow> 'a slice" where
  "append_nil s = (if elems s = [] then None else Some (elems s))"

lemma elems_append_nil [simp]: "elems (append_nil s) = elems s"
  by (simp add: append_nil_def)

lemma append_nil_eq_iff: "append_nil s = s \<longleftrightarrow> s \<noteq> Some []"
  by (cases s) (auto simp: append_nil_def)

section \<open>Running a program\<close>

type_synonym ('w, 'e, 'a) io = "('w, 'e + 'a) state"

declare run_state_bind [run_simps] run_state_return [run_simps]

definition gets :: "('w \<Rightarrow> 'a) \<Rightarrow> ('w, 'a) state" where
  "gets f = State (\<lambda>w. (f w, w))"

definition modify :: "('w \<Rightarrow> 'w) \<Rightarrow> ('w, unit) state" where
  "modify f = State (\<lambda>w. ((), f w))"

lemma run_gets [simp, run_simps]: "run_state (gets f) w = (f w, w)"
  by (simp add: gets_def)

lemma run_modify [simp, run_simps]: "run_state (modify f) w = ((), f w)"
  by (simp add: modify_def)

lemma run_bindE:
  assumes "run_state (State_Monad.bind m f) w = (r, w'')"
  obtains a w' where "run_state m w = (a, w')" and "run_state (f a) w' = (r, w'')"
  using assms by (auto split: prod.splits)

lemma run_if [simp, run_simps]:
  "run_state (if b then m else n) w = (if b then run_state m w else run_state n w)"
  by simp

text \<open>
  \<^verbatim>\<open>x, err := m; if err != nil { return h(err) }; k(x)\<close>: most calls in the code are followed by
  an early return, which this combinator writes once.
\<close>

definition tryE :: "('w, 'e, 'a) io \<Rightarrow> ('e \<Rightarrow> 'e) \<Rightarrow> ('a \<Rightarrow> ('w, 'e, 'b) io) \<Rightarrow> ('w, 'e, 'b) io" where
  "tryE m h k = State_Monad.bind m (\<lambda>r. case r of Inl e \<Rightarrow> State_Monad.return (Inl (h e)) | Inr x \<Rightarrow> k x)"

lemma run_tryE [simp, run_simps]:
  "run_state (tryE m h k) w =
    (case run_state m w of (Inl e, w') \<Rightarrow> (Inl (h e), w') | (Inr x, w') \<Rightarrow> run_state (k x) w')"
  by (auto simp: tryE_def split: prod.splits sum.splits)

lemma run_tryE_InrE:
  assumes "run_state (tryE m h k) w = (Inr r, w'')"
  obtains a w' where "run_state m w = (Inr a, w')" and "run_state (k a) w' = (Inr r, w'')"
  using assms by (auto split: prod.splits sum.splits)

lemma run_tryE_InlE:
  assumes "run_state (tryE m h k) w = (Inl e, w'')"
  obtains
    (here) e' where "run_state m w = (Inl e', w'')" and "e = h e'"
  | (later) a w' where "run_state m w = (Inr a, w')" and "run_state (k a) w' = (Inl e, w'')"
  using assms by (auto split: prod.splits sum.splits)

section \<open>Lists\<close>

lemma distinct_map_filter [simp]: "distinct (map f xs) \<Longrightarrow> distinct (map f (filter P xs))"
  by (induction xs) auto

lemma filter_key_single:
  "distinct (map f xs) \<Longrightarrow> x \<in> set xs \<Longrightarrow> filter (\<lambda>y. f y = f x) xs = [x]"
proof (induction xs)
  case (Cons y xs)
  have "f y \<notin> f ` set xs" using Cons.prems(1) by simp
  then have other: "z \<in> set xs \<Longrightarrow> f z \<noteq> f y" for z by (metis imageI)
  show ?case
  proof (cases "y = x")
    case True
    then show ?thesis using other by (simp add: filter_empty_conv)
  next
    case False
    then have "x \<in> set xs" using Cons.prems(2) by simp
    then show ?thesis using Cons.IH Cons.prems(1) other [of x] by simp
  qed
qed simp

lemma distinct_map_eq:
  "distinct (map f xs) \<Longrightarrow> x \<in> set xs \<Longrightarrow> y \<in> set xs \<Longrightarrow> f x = f y \<Longrightarrow> x = y"
  by (auto simp: distinct_map dest: inj_onD)

lemma find_None_filter: "find P xs = None \<longleftrightarrow> filter P xs = []"
  by (induction xs) auto

lemma find_filter: "find P xs = (case filter P xs of [] \<Rightarrow> None | x # _ \<Rightarrow> Some x)"
  by (induction xs) auto

lemma sorted_hd_le: "sorted (map f xs) \<Longrightarrow> x \<in> set xs \<Longrightarrow> f (hd xs) \<le> f x"
  by (cases xs) auto

lemma sort_key_hd_min:
  assumes "x \<in> set xs"
  shows "f (hd (sort_key f xs)) \<le> f x"
  using assms sorted_hd_le [of f "sort_key f xs" x] by simp

lemma hd_sort_key_in: "xs \<noteq> [] \<Longrightarrow> hd (sort_key f xs) \<in> set xs"
  by (metis hd_in_set set_sort length_sort length_0_conv)

lemma sort_key_Nil_iff [simp]: "sort_key f xs = [] \<longleftrightarrow> xs = []"
  by (metis length_sort length_0_conv)

section \<open>What a program leaves alone\<close>

definition preserves :: "('w \<Rightarrow> 'w \<Rightarrow> bool) \<Rightarrow> ('w, 'r) state \<Rightarrow> bool" where
  "preserves P m \<longleftrightarrow> (\<forall>w r w'. run_state m w = (r, w') \<longrightarrow> P w w')"

named_theorems frame

lemma preservesI: "(\<And>w r w'. run_state m w = (r, w') \<Longrightarrow> P w w') \<Longrightarrow> preserves P m"
  by (simp add: preserves_def)

lemma preservesD: "preserves P m \<Longrightarrow> run_state m w = (r, w') \<Longrightarrow> P w w'"
  by (auto simp: preserves_def)

text \<open>Of a relation that is reflexive and transitive, every program made of programs in it is.\<close>

named_theorems relates

lemma relates_return [relates]: "reflp R \<Longrightarrow> preserves R (State_Monad.return x)"
  by (auto simp: preserves_def dest: reflpD)

lemma relates_gets [relates]: "reflp R \<Longrightarrow> preserves R (gets g)"
  by (auto simp: preserves_def dest: reflpD)

lemma relates_bind [relates]:
  "transp R \<Longrightarrow> preserves R m \<Longrightarrow> (\<And>x. preserves R (k x)) \<Longrightarrow> preserves R (State_Monad.bind m k)"
  unfolding preserves_def by (auto split: prod.splits) (meson transpD)

lemma relates_tryE [relates]:
  "reflp R \<Longrightarrow> transp R \<Longrightarrow> preserves R m \<Longrightarrow> (\<And>x. preserves R (k x)) \<Longrightarrow> preserves R (tryE m h k)"
  unfolding tryE_def by (rule relates_bind) (auto split: sum.split intro: relates_return)

lemma relates_if [relates]:
  "preserves R m \<Longrightarrow> preserves R n \<Longrightarrow> preserves R (if b then m else n)"
  by simp

text \<open>The relations of interest say that a part of the state stays the same.\<close>

definition same :: "('w \<Rightarrow> 'c) \<Rightarrow> 'w \<Rightarrow> 'w \<Rightarrow> bool" where
  "same f w w' \<longleftrightarrow> f w' = f w"

lemma sameD: "same f w w' \<Longrightarrow> f w' = f w"
  by (simp add: same_def)

lemma same_preorder [simp]: "reflp (same f)" "transp (same f)"
  by (auto intro!: reflpI transpI simp: same_def)

lemma same_return [frame, simp]: "preserves (same f) (State_Monad.return x)"
  by (rule relates_return) simp

lemma same_gets [frame, simp]: "preserves (same f) (gets g)"
  by (rule relates_gets) simp

lemma same_bind [frame]:
  "preserves (same f) m \<Longrightarrow> (\<And>x. preserves (same f) (k x)) \<Longrightarrow> preserves (same f) (State_Monad.bind m k)"
  by (rule relates_bind) simp_all

lemma same_tryE [frame]:
  "preserves (same f) m \<Longrightarrow> (\<And>x. preserves (same f) (k x)) \<Longrightarrow> preserves (same f) (tryE m h k)"
  by (rule relates_tryE) simp_all

lemma same_if [frame]:
  "preserves (same f) m \<Longrightarrow> preserves (same f) n \<Longrightarrow> preserves (same f) (if b then m else n)"
  by (rule relates_if)

lemma same_modify: "(\<And>w. f (g w) = f w) \<Longrightarrow> preserves (same f) (modify g)"
  by (auto simp: preserves_def same_def)

lemma same_comp: "preserves (same f) m \<Longrightarrow> preserves (same (\<lambda>w. g (f w))) m"
  by (auto simp: preserves_def same_def)

end
