(* ===== verification/Go_Strings.thy ===== *)
theory Go_Strings
  imports Prelude
begin

text \<open>
  What the code uses of Go's \<^verbatim>\<open>strings\<close>, \<^verbatim>\<open>path/filepath\<close>, \<^verbatim>\<open>strconv\<close> and \<^verbatim>\<open>net\<close> packages, on byte
  strings. \<^verbatim>\<open>strings.ToLower\<close> maps ASCII itself; the Unicode table it consults for other
  strings is the argument \<^verbatim>\<open>uni\<close>.
\<close>

section \<open>Prefixes, suffixes, substrings\<close>

definition HasPrefix :: "string \<Rightarrow> string \<Rightarrow> bool" where
  "HasPrefix s p \<longleftrightarrow> take (length p) s = p"

definition HasSuffix :: "string \<Rightarrow> string \<Rightarrow> bool" where
  "HasSuffix s p \<longleftrightarrow> length p \<le> length s \<and> drop (length s - length p) s = p"

definition TrimSuffix :: "string \<Rightarrow> string \<Rightarrow> string" where
  "TrimSuffix s p = (if HasSuffix s p then take (length s - length p) s else s)"

definition TrimPrefix :: "string \<Rightarrow> string \<Rightarrow> string" where
  "TrimPrefix s p = (if HasPrefix s p then drop (length p) s else s)"

fun Contains :: "string \<Rightarrow> string \<Rightarrow> bool" where
  "Contains [] sub = (sub = [])"
| "Contains (c # s) sub = (HasPrefix (c # s) sub \<or> Contains s sub)"

lemma HasPrefix_iff: "HasPrefix s p \<longleftrightarrow> (\<exists>t. s = p @ t)"
proof
  assume "HasPrefix s p"
  then have "s = p @ drop (length p) s"
    by (metis HasPrefix_def append_take_drop_id)
  then show "\<exists>t. s = p @ t" by blast
qed (auto simp: HasPrefix_def)

lemma HasSuffix_iff: "HasSuffix s p \<longleftrightarrow> (\<exists>t. s = t @ p)"
proof
  assume "HasSuffix s p"
  then have "s = take (length s - length p) s @ p"
    by (metis HasSuffix_def append_take_drop_id)
  then show "\<exists>t. s = t @ p" by blast
qed (auto simp: HasSuffix_def)

lemma HasPrefix_Nil [simp]: "HasPrefix s []"
  by (simp add: HasPrefix_def)

lemma HasPrefix_append [simp]: "HasPrefix (p @ t) p"
  by (simp add: HasPrefix_def)

lemma HasSuffix_append [simp]: "HasSuffix (t @ p) p"
  by (auto simp: HasSuffix_iff)

lemma HasPrefix_take: "HasPrefix (take n s) p \<Longrightarrow> HasPrefix s p"
  by (metis HasPrefix_iff append_assoc append_take_drop_id)

lemma Contains_iff: "Contains s sub \<longleftrightarrow> (\<exists>a b. s = a @ sub @ b)"
proof (induction s)
  case Nil
  then show ?case by simp
next
  case (Cons c s)
  have "(\<exists>a b. c # s = a @ sub @ b) \<longleftrightarrow> (\<exists>b. c # s = sub @ b) \<or> (\<exists>a b. s = a @ sub @ b)"
    (is "?l \<longleftrightarrow> ?r")
  proof
    assume ?l
    then obtain a b where "c # s = a @ sub @ b" by blast
    then show ?r by (cases a) auto
  next
    assume ?r
    then show ?l
      by (metis append_Cons append_Nil)
  qed
  with Cons show ?case by (simp add: HasPrefix_iff)
qed

section \<open>Splitting and trimming\<close>

text \<open>\<^verbatim>\<open>strings.Split\<close> on a one-byte separator: never an empty list.\<close>

fun Split :: "string \<Rightarrow> char \<Rightarrow> string list" where
  "Split [] sep = [[]]"
| "Split (c # s) sep =
    (if c = sep then [] # Split s sep
     else (case Split s sep of [] \<Rightarrow> [[c]] | p # ps \<Rightarrow> (c # p) # ps))"

lemma Split_not_Nil [simp]: "Split s sep \<noteq> []"
  by (induction s) (auto split: list.splits)

lemma hd_Split: "hd (Split s sep) = takeWhile (\<lambda>c. c \<noteq> sep) s"
proof (induction s)
  case (Cons c s)
  then show ?case by (cases "Split s sep") auto
qed simp

text \<open>\<^verbatim>\<open>strings.SplitN(s, sep, 2)[0]\<close>: the part before the first separator.\<close>

definition before :: "string \<Rightarrow> char \<Rightarrow> string" where
  "before s sep = takeWhile (\<lambda>c. c \<noteq> sep) s"

text \<open>\<^verbatim>\<open>strings.TrimRight(s, "c")\<close> for a one-byte cut set.\<close>

definition TrimRight :: "string \<Rightarrow> char \<Rightarrow> string" where
  "TrimRight s c = rev (dropWhile (\<lambda>x. x = c) (rev s))"

text \<open>\<^verbatim>\<open>strings.Join\<close>.\<close>

fun Join :: "string list \<Rightarrow> string \<Rightarrow> string" where
  "Join [] sep = []"
| "Join [x] sep = x"
| "Join (x # y # ys) sep = x @ sep @ Join (y # ys) sep"

text \<open>
  \<^verbatim>\<open>strings.TrimSpace\<close> strips the runes of \<^verbatim>\<open>unicode.IsSpace\<close>. In UTF-8 each has one encoding
  and no encoding is the prefix or the suffix of another character's, so stripping runes
  is stripping these byte sequences.
\<close>

definition space_encodings :: "bytes list" where
  "space_encodings =
    [[CHR 0x09], [CHR 0x0A], [CHR 0x0B], [CHR 0x0C], [CHR 0x0D], [CHR 0x20],
     [CHR 0xC2, CHR 0x85], [CHR 0xC2, CHR 0xA0], [CHR 0xE1, CHR 0x9A, CHR 0x80],
     [CHR 0xE2, CHR 0x80, CHR 0x80], [CHR 0xE2, CHR 0x80, CHR 0x81], [CHR 0xE2, CHR 0x80, CHR 0x82],
     [CHR 0xE2, CHR 0x80, CHR 0x83], [CHR 0xE2, CHR 0x80, CHR 0x84], [CHR 0xE2, CHR 0x80, CHR 0x85],
     [CHR 0xE2, CHR 0x80, CHR 0x86], [CHR 0xE2, CHR 0x80, CHR 0x87], [CHR 0xE2, CHR 0x80, CHR 0x88],
     [CHR 0xE2, CHR 0x80, CHR 0x89], [CHR 0xE2, CHR 0x80, CHR 0x8A], [CHR 0xE2, CHR 0x80, CHR 0xA8],
     [CHR 0xE2, CHR 0x80, CHR 0xA9], [CHR 0xE2, CHR 0x80, CHR 0xAF], [CHR 0xE2, CHR 0x81, CHR 0x9F],
     [CHR 0xE3, CHR 0x80, CHR 0x80]]"

lemma space_encodings_not_Nil: "p \<in> set space_encodings \<Longrightarrow> 0 < length p"
  by (auto simp: space_encodings_def)

lemma find_SomeD:
  "find P xs = Some x \<Longrightarrow> P x"
  "find P xs = Some x \<Longrightarrow> x \<in> set xs"
  by (induction xs) (auto split: if_splits)

lemma find_space_not_Nil: "find P space_encodings = Some p \<Longrightarrow> 0 < length p"
  by (rule space_encodings_not_Nil) (rule find_SomeD(2))

lemma find_space_shorter:
  "find (HasPrefix s) space_encodings = Some p \<Longrightarrow> 0 < length p \<and> s \<noteq> []"
  "find (HasSuffix s) space_encodings = Some p \<Longrightarrow> 0 < length p \<and> s \<noteq> []"
  using find_space_not_Nil find_SomeD(1) by (fastforce simp: HasPrefix_def HasSuffix_def)+

function trim_left :: "string \<Rightarrow> string" where
  "trim_left s =
    (case find (HasPrefix s) space_encodings of
      None \<Rightarrow> s
    | Some p \<Rightarrow> trim_left (drop (length p) s))"
  by pat_completeness auto
termination
  by (relation "measure length") (auto dest!: find_space_shorter)

function trim_right :: "string \<Rightarrow> string" where
  "trim_right s =
    (case find (HasSuffix s) space_encodings of
      None \<Rightarrow> s
    | Some p \<Rightarrow> trim_right (take (length s - length p) s))"
  by pat_completeness auto
termination
  by (relation "measure length") (auto dest!: find_space_shorter)

declare trim_left.simps [simp del] trim_right.simps [simp del]

definition TrimSpace :: "string \<Rightarrow> string" where
  "TrimSpace s = trim_right (trim_left s)"

definition space_left :: "string \<Rightarrow> bool" where
  "space_left s \<longleftrightarrow> (\<exists>p \<in> set space_encodings. HasPrefix s p)"

definition space_right :: "string \<Rightarrow> bool" where
  "space_right s \<longleftrightarrow> (\<exists>p \<in> set space_encodings. HasSuffix s p)"

lemma find_space_left: "find (HasPrefix s) space_encodings = None \<longleftrightarrow> \<not> space_left s"
  by (auto simp: find_None_iff space_left_def)

lemma find_space_right: "find (HasSuffix s) space_encodings = None \<longleftrightarrow> \<not> space_right s"
  by (auto simp: find_None_iff space_right_def)

lemma no_space_Nil [simp]: "\<not> space_left []" "\<not> space_right []"
  by (auto simp: space_left_def space_right_def HasPrefix_def HasSuffix_def dest: space_encodings_not_Nil)

lemma trim_left_id: "\<not> space_left s \<Longrightarrow> trim_left s = s"
  by (subst trim_left.simps) (simp add: find_space_left [THEN iffD2])

lemma trim_right_id: "\<not> space_right s \<Longrightarrow> trim_right s = s"
  by (subst trim_right.simps) (simp add: find_space_right [THEN iffD2])

lemma not_space_left_trim_left: "\<not> space_left (trim_left s)"
proof (induction s rule: trim_left.induct)
  case (1 s)
  show ?case
  proof (cases "find (HasPrefix s) space_encodings")
    case None
    then show ?thesis by (simp add: find_space_left trim_left_id)
  next
    case (Some p)
    with 1 show ?thesis by (simp add: trim_left.simps [of s])
  qed
qed

lemma not_space_right_trim_right: "\<not> space_right (trim_right s)"
proof (induction s rule: trim_right.induct)
  case (1 s)
  show ?case
  proof (cases "find (HasSuffix s) space_encodings")
    case None
    then show ?thesis by (simp add: find_space_right trim_right_id)
  next
    case (Some p)
    with 1 show ?thesis by (simp add: trim_right.simps [of s])
  qed
qed

lemma trim_right_prefix: "\<exists>n. trim_right s = take n s"
proof (induction s rule: trim_right.induct)
  case (1 s)
  show ?case
  proof (cases "find (HasSuffix s) space_encodings")
    case None
    then have "trim_right s = take (length s) s" by (simp add: trim_right.simps [of s])
    then show ?thesis by blast
  next
    case (Some p)
    with 1 obtain n where "trim_right s = take n (take (length s - length p) s)"
      by (auto simp: trim_right.simps [of s])
    then show ?thesis by (metis take_take)
  qed
qed

lemma not_space_left_TrimSpace: "\<not> space_left (TrimSpace s)"
proof
  assume "space_left (TrimSpace s)"
  moreover obtain n where "TrimSpace s = take n (trim_left s)"
    using trim_right_prefix unfolding TrimSpace_def by blast
  ultimately have "space_left (trim_left s)"
    unfolding space_left_def by (metis HasPrefix_take)
  then show False by (simp add: not_space_left_trim_left)
qed

lemma not_space_right_TrimSpace: "\<not> space_right (TrimSpace s)"
  by (simp add: TrimSpace_def not_space_right_trim_right)

lemma TrimSpace_id: "\<not> space_left s \<Longrightarrow> \<not> space_right s \<Longrightarrow> TrimSpace s = s"
  by (simp add: TrimSpace_def trim_left_id trim_right_id)

lemma TrimSpace_idem [simp]: "TrimSpace (TrimSpace s) = TrimSpace s"
  by (rule TrimSpace_id) (rule not_space_left_TrimSpace not_space_right_TrimSpace)+

lemma TrimSpace_Nil [simp]: "TrimSpace [] = []"
  by (simp add: TrimSpace_id)

section \<open>Case\<close>

definition ascii_lower :: "char \<Rightarrow> char" where
  "ascii_lower c = (if 65 \<le> (of_char c :: nat) \<and> (of_char c :: nat) \<le> 90
     then char_of ((of_char c :: nat) + 32) else c)"

definition is_ascii :: "string \<Rightarrow> bool" where
  "is_ascii s \<longleftrightarrow> list_all (\<lambda>c. (of_char c :: nat) < 128) s"

definition ToLower :: "(string \<Rightarrow> string) \<Rightarrow> string \<Rightarrow> string" where
  "ToLower uni s = (if is_ascii s then map ascii_lower s else uni s)"

section \<open>\<^verbatim>\<open>filepath.Ext\<close>\<close>

text \<open>The suffix from the last dot of the last path element, with the dot; empty without one.\<close>

definition Ext :: "string \<Rightarrow> string" where
  "Ext path =
    (let after = takeWhile (\<lambda>c. c \<noteq> CHR ''.'' \<and> c \<noteq> CHR ''/'') (rev path)
     in case drop (length after) (rev path) of
          c # _ \<Rightarrow> if c = CHR ''.'' then c # rev after else []
        | [] \<Rightarrow> [])"

lemma Ext_dot:
  assumes "CHR ''.'' \<notin> set e" and "CHR ''/'' \<notin> set e"
  shows "Ext (base @ CHR ''.'' # e) = CHR ''.'' # e"
proof -
  have all: "\<forall>c \<in> set (rev e). c \<noteq> CHR ''.'' \<and> c \<noteq> CHR ''/''"
    using assms by auto
  have "takeWhile (\<lambda>c. c \<noteq> CHR ''.'' \<and> c \<noteq> CHR ''/'') (rev e @ CHR ''.'' # rev base) = rev e"
    using all by (subst takeWhile_append2) auto
  then show ?thesis by (simp add: Ext_def Let_def)
qed

section \<open>Decimal numbers\<close>

definition digit :: "nat \<Rightarrow> char" where
  "digit n = char_of (n + 48)"

fun show_nat :: "nat \<Rightarrow> string" where
  "show_nat n = (if n < 10 then [digit n] else show_nat (n div 10) @ [digit (n mod 10)])"

declare show_nat.simps [simp del]

definition show_int :: "int \<Rightarrow> string" where
  "show_int i = (if i < 0 then CHR ''-'' # show_nat (nat (- i)) else show_nat (nat i))"

text \<open>\<^verbatim>\<open>%0wd\<close> of a non-negative number.\<close>

definition show_padded :: "nat \<Rightarrow> nat \<Rightarrow> string" where
  "show_padded w n = replicate (w - length (show_nat n)) (CHR ''0'') @ show_nat n"

definition digit_value :: "char \<Rightarrow> nat option" where
  "digit_value c = (if 48 \<le> (of_char c :: nat) \<and> (of_char c :: nat) \<le> 57
     then Some (of_char c - 48) else None)"

fun read_digits :: "string \<Rightarrow> nat \<Rightarrow> nat option" where
  "read_digits [] acc = Some acc"
| "read_digits (c # s) acc =
    (case digit_value c of None \<Rightarrow> None | Some d \<Rightarrow> read_digits s (10 * acc + d))"

text \<open>\<^verbatim>\<open>strconv.Atoi\<close>: an optional sign and one or more digits, within \<^verbatim>\<open>int64\<close>.\<close>

definition Atoi :: "string \<Rightarrow> int option" where
  "Atoi s =
    (let neg = HasPrefix s ''-'';
         body = (if neg \<or> HasPrefix s ''+'' then drop 1 s else s)
     in if body = [] then None
        else case read_digits body 0 of
          None \<Rightarrow> None
        | Some n \<Rightarrow> (let v = (if neg then - int n else int n) in if is_i64 v then Some v else None))"

text \<open>\<^verbatim>\<open>strconv.ParseBool\<close>.\<close>

definition ParseBool :: "string \<Rightarrow> bool option" where
  "ParseBool s =
    (if s \<in> set [''1'', ''t'', ''T'', ''TRUE'', ''true'', ''True''] then Some True
     else if s \<in> set [''0'', ''f'', ''F'', ''FALSE'', ''false'', ''False''] then Some False
     else None)"

lemma digit_value_digit: "d < 10 \<Longrightarrow> digit_value (digit d) = Some d"
  by (simp add: digit_value_def digit_def)

lemma read_digits_append:
  "read_digits (s @ t) acc = (case read_digits s acc of None \<Rightarrow> None | Some n \<Rightarrow> read_digits t n)"
  by (induction s arbitrary: acc) (auto split: option.splits)

lemma read_digits_show_nat: "read_digits (show_nat n) 0 = Some n"
proof (induction n rule: show_nat.induct)
  case (1 n)
  show ?case
  proof (cases "n < 10")
    case True
    then show ?thesis by (simp add: show_nat.simps [of n] digit_value_digit)
  next
    case False
    with 1 show ?thesis
      by (simp add: show_nat.simps [of n] read_digits_append digit_value_digit)
  qed
qed

lemma show_nat_not_Nil [simp]: "show_nat n \<noteq> []"
  by (subst show_nat.simps) simp

lemma show_nat_no_sign: "\<not> HasPrefix (show_nat n) ''-''" "\<not> HasPrefix (show_nat n) ''+''"
proof -
  have "hd (show_nat n) \<noteq> CHR ''-'' \<and> hd (show_nat n) \<noteq> CHR ''+''"
  proof (induction n rule: show_nat.induct)
    case (1 n)
    have "digit k \<noteq> CHR ''-'' \<and> digit k \<noteq> CHR ''+''" if "k < 10" for k
      using digit_value_digit [OF that] by (auto simp: digit_value_def)
    with 1 show ?case by (simp add: show_nat.simps [of n])
  qed
  then show "\<not> HasPrefix (show_nat n) ''-''" "\<not> HasPrefix (show_nat n) ''+''"
    by (cases "show_nat n"; auto simp: HasPrefix_def)+
qed

lemma Atoi_show_int: "is_i64 i \<Longrightarrow> Atoi (show_int i) = Some i"
  by (auto simp: Atoi_def show_int_def Let_def show_nat_no_sign read_digits_show_nat HasPrefix_def [of "CHR ''-'' # _"])


lemma length_show_nat: "0 < w \<Longrightarrow> n < 10 ^ w \<Longrightarrow> length (show_nat n) \<le> w"
proof (induction w arbitrary: n)
  case (Suc w)
  show ?case
  proof (cases "n < 10")
    case True
    then show ?thesis by (subst show_nat.simps) simp
  next
    case False
    then have "0 < w" using Suc.prems(2) by (cases w) auto
    moreover have "n div 10 < 10 ^ w" using Suc.prems(2) by (simp add: less_mult_imp_div_less mult.commute)
    ultimately have "length (show_nat (n div 10)) \<le> w" by (rule Suc.IH)
    then show ?thesis using False by (subst show_nat.simps) simp
  qed
qed simp

lemma length_show_padded: "0 < w \<Longrightarrow> n < 10 ^ w \<Longrightarrow> length (show_padded w n) = w"
  using length_show_nat [of w n] by (simp add: show_padded_def)

end
