(* ===== verification/Errors.thy ===== *)
theory Errors
  imports Go_Strings
begin

text \<open>
  Go errors as values. Every sentinel variable of the code is a constructor; \<^verbatim>\<open>PgError\<close> carries the
  SQLSTATE code of a \<^verbatim>\<open>pgconn.PgError\<close>, \<^verbatim>\<open>External\<close> the text of an error made outside the program,
  \<^verbatim>\<open>Errorf\<close> a \<^verbatim>\<open>fmt.Errorf\<close> without \<^verbatim>\<open>%w\<close>, and \<^verbatim>\<open>Wrapf p e s\<close> the error \<^verbatim>\<open>e\<close> wrapped by a format
  that puts \<^verbatim>\<open>p\<close> before and \<^verbatim>\<open>s\<close> after it.
\<close>

datatype error =
    ErrFileNotFound
  | ErrAdminNotFound
  | ErrAdminUsernameTaken
  | ErrAdminSessionNotFound
  | ErrAPIKeyNotFound
  | ErrUploadSettingsNotFound
  | ErrLegalDocumentNotFound
  | ErrInvalidDSN
  | ErrNotFound
  | ErrAlreadyExpired
  | ErrInvalidDeleteToken
  | ErrInvalidCredentials
  | ErrSessionInvalid
  | ErrAPIKeyInvalid
  | ErrInvalidUploadSettings
  | ErrInvalidLegalDocType
  | ErrLegalDocumentContentEmpty
  | ErrNoRows
  | PgError string
  | DeadlineExceeded
  | Canceled
  | ErrEOF
  | ErrUnexpectedEOF
  | ValidationError string
  | External string
  | Errorf string
  | Wrapf string error string

abbreviation Wrap :: "string \<Rightarrow> error \<Rightarrow> error" where
  "Wrap msg e \<equiv> Wrapf (msg @ '': '') e []"

text \<open>\<^verbatim>\<open>errors.Is\<close> walks the chain of wrapped errors.\<close>

fun errors_Is :: "error \<Rightarrow> error \<Rightarrow> bool" where
  "errors_Is (Wrapf p e s) target = (Wrapf p e s = target \<or> errors_Is e target)"
| "errors_Is e target = (e = target)"

text \<open>\<^verbatim>\<open>errors.As\<close> with a \<^verbatim>\<open>*ValidationError\<close> or a \<^verbatim>\<open>*pgconn.PgError\<close> target.\<close>

fun as_ValidationError :: "error \<Rightarrow> string option" where
  "as_ValidationError (ValidationError msg) = Some msg"
| "as_ValidationError (Wrapf p e s) = as_ValidationError e"
| "as_ValidationError _ = None"

fun as_PgError :: "error \<Rightarrow> string option" where
  "as_PgError (PgError code) = Some code"
| "as_PgError (Wrapf p e s) = as_PgError e"
| "as_PgError _ = None"

text \<open>The method \<^verbatim>\<open>Error()\<close>.\<close>

fun Error :: "error \<Rightarrow> string" where
  "Error ErrFileNotFound = ''file record not found''"
| "Error ErrAdminNotFound = ''admin not found''"
| "Error ErrAdminUsernameTaken = ''admin username already taken''"
| "Error ErrAdminSessionNotFound = ''admin session not found''"
| "Error ErrAPIKeyNotFound = ''api key not found''"
| "Error ErrUploadSettingsNotFound = ''upload settings not found''"
| "Error ErrLegalDocumentNotFound = ''legal document not found''"
| "Error ErrInvalidDSN = ''invalid DATABASE_DSN: tempcdn requires Postgres; DATABASE_DSN must start with \"postgres://\" or \"postgresql://\"''"
| "Error ErrNotFound = ''file not found''"
| "Error ErrAlreadyExpired = ''file has already expired''"
| "Error ErrInvalidDeleteToken = ''invalid or missing delete token''"
| "Error ErrInvalidCredentials = ''invalid username or password''"
| "Error ErrSessionInvalid = ''invalid or expired session''"
| "Error ErrAPIKeyInvalid = ''invalid or revoked api key''"
| "Error ErrInvalidUploadSettings = ''invalid upload settings''"
| "Error ErrInvalidLegalDocType = ''invalid legal document type''"
| "Error ErrLegalDocumentContentEmpty = ''legal document content must not be empty''"
| "Error ErrNoRows = ''no rows in result set''"
| "Error (PgError code) = ''ERROR (SQLSTATE '' @ code @ '')''"
| "Error DeadlineExceeded = ''context deadline exceeded''"
| "Error Canceled = ''context canceled''"
| "Error ErrEOF = ''EOF''"
| "Error ErrUnexpectedEOF = ''unexpected EOF''"
| "Error (ValidationError msg) = msg"
| "Error (External msg) = msg"
| "Error (Errorf msg) = msg"
| "Error (Wrapf p e s) = p @ Error e @ s"

text \<open>
  The errors a call outside the program can end with: a context that ran out, or anything else.
  None of them is a sentinel of the code.
\<close>

datatype outside = DeadlineOut | CanceledOut | OtherOut string

fun outside_error :: "outside \<Rightarrow> error" where
  "outside_error DeadlineOut = DeadlineExceeded"
| "outside_error CanceledOut = Canceled"
| "outside_error (OtherOut msg) = External msg"

lemma outside_not_sentinel [simp]:
  "outside_error o' \<noteq> ErrFileNotFound" "outside_error o' \<noteq> ErrNoRows" "outside_error o' \<noteq> PgError c"
  "outside_error o' \<noteq> ErrAdminUsernameTaken" "outside_error o' \<noteq> ErrAdminNotFound" "outside_error o' \<noteq> ErrAdminSessionNotFound"
  "outside_error o' \<noteq> ErrAPIKeyNotFound" "outside_error o' \<noteq> ErrUploadSettingsNotFound"
  "outside_error o' \<noteq> ErrLegalDocumentNotFound"
  by (cases o'; simp)+

lemma errors_Is_outside [simp]:
  "errors_Is (outside_error o') t \<longleftrightarrow> outside_error o' = t"
  by (cases o') auto

lemma as_PgError_outside [simp]: "as_PgError (outside_error o') = None"
  by (cases o') auto

lemma as_ValidationError_outside [simp]: "as_ValidationError (outside_error o') = None"
  by (cases o') auto

lemma errors_Is_refl [simp]: "errors_Is e e"
  by (cases e) auto

end
