(* ===== verification/Model.thy ===== *)
theory Model
  imports Errors
begin

text \<open>
  \<^verbatim>\<open>internal/metadata/model.go\<close> and \<^verbatim>\<open>legal_model.go\<close>: the records of the metadata store, with
  the fields of the Go structs. A field name two structs share carries its struct's name as
  a prefix; \<^verbatim>\<open>*time.Time\<close> and \<^verbatim>\<open>*string\<close> fields are options.
\<close>

record FileRecord =
  file_ID :: string
  OriginalName :: string
  ContentType :: string
  SizeBytes :: int
  ChecksumSHA256 :: string
  ObjectKey :: string
  CDNURL :: string
  UploaderIPHash :: string
  DeleteTokenHash :: string
  file_CreatedAt :: time
  file_ExpiresAt :: time

definition file_IsExpired :: "FileRecord \<Rightarrow> time \<Rightarrow> bool" where
  "file_IsExpired r now \<longleftrightarrow> now > file_ExpiresAt r"

definition NodeStatusOnline :: string where
  "NodeStatusOnline = ''online''"

definition NodeStatusOffline :: string where
  "NodeStatusOffline = ''offline''"

record NodeStatus =
  NodeID :: string
  Hostname :: string
  Status :: string
  StartedAt :: time
  LastHeartbeatAt :: time
  MarkedOfflineAt :: "time option"

record Admin =
  admin_ID :: string
  Username :: string
  PasswordHash :: string
  admin_CreatedAt :: time
  LastLoginAt :: "time option"

record AdminSession =
  session_TokenHash :: string
  AdminID :: string
  session_CreatedAt :: time
  session_ExpiresAt :: time
  session_LastUsedAt :: time

definition session_IsExpired :: "AdminSession \<Rightarrow> time \<Rightarrow> bool" where
  "session_IsExpired s now \<longleftrightarrow> now > session_ExpiresAt s"

record APIKey =
  key_ID :: string
  key_Name :: string
  key_TokenHash :: string
  key_CreatedAt :: time
  key_LastUsedAt :: "time option"
  RevokedAt :: "time option"

definition IsRevoked :: "APIKey \<Rightarrow> bool" where
  "IsRevoked k \<longleftrightarrow> RevokedAt k \<noteq> None"

record UploadSettings =
  MaxUploadSizeMB :: int
  AllowedMimeTypes :: "string slice"
  BlockedExtensions :: "string slice"
  settings_UpdatedAt :: time
  settings_UpdatedBy :: "string option"

definition LegalDocTerms :: string where
  "LegalDocTerms = ''terms''"

definition LegalDocPrivacy :: string where
  "LegalDocPrivacy = ''privacy''"

record LegalDocument =
  DocType :: string
  Content :: string
  legal_UpdatedAt :: time
  legal_UpdatedBy :: "string option"

record Stats =
  ActiveFileCount :: int
  ActiveBytes :: int
  ContentTypeBreakdown :: "string \<rightharpoonup> int"

text \<open>\<^verbatim>\<open>topLevelMimeType\<close> and \<^verbatim>\<open>isPostgresDSN\<close> of \<^verbatim>\<open>repository.go\<close>.\<close>

definition topLevelMimeType :: "string \<Rightarrow> string" where
  "topLevelMimeType contentType =
    (let slashIndex = length (takeWhile (\<lambda>c. c \<noteq> CHR ''/'') contentType)
     in if slashIndex = length contentType \<or> slashIndex = 0 then ''other'' else take slashIndex contentType)"

definition isPostgresDSN :: "string \<Rightarrow> bool" where
  "isPostgresDSN dsn \<longleftrightarrow> HasPrefix dsn ''postgres://'' \<or> HasPrefix dsn ''postgresql://''"

end
