(* ===== verification/Repository.thy ===== *)
theory Repository
  imports Model
begin

text \<open>
  The interface \<^verbatim>\<open>FileRepository\<close> of \<^verbatim>\<open>internal/metadata/repository.go\<close>: a record of operations over
  a world \<open>'w\<close>, as a Go interface value is a table of methods, and the contract its clients
  (upload service, file service, sweeper, stats) rely on, as a locale. \<open>rows\<close> reads the records the
  repository holds; an operation that reports an error may or may not have had its effect. \<open>up\<close>
  describes the worlds in which calls are answered.
\<close>

record 'w FileRepository =
  Insert :: "FileRecord \<Rightarrow> ('w, error, unit) io"
  FindActiveByChecksum :: "string \<Rightarrow> time \<Rightarrow> ('w, error, FileRecord) io"
  FindByID :: "string \<Rightarrow> ('w, error, FileRecord) io"
  DeleteByID :: "string \<Rightarrow> ('w, error, unit) io"
  FindExpired :: "time \<Rightarrow> int \<Rightarrow> ('w, error, FileRecord list) io"
  repo_Stats :: "time \<Rightarrow> ('w, error, Stats) io"

definition delete_rows :: "string \<Rightarrow> FileRecord list \<Rightarrow> FileRecord list" where
  "delete_rows fid rs = filter (\<lambda>r. file_ID r \<noteq> fid) rs"

definition expired_rows :: "time \<Rightarrow> FileRecord list \<Rightarrow> FileRecord list" where
  "expired_rows now rs = filter (\<lambda>r. file_ExpiresAt r \<le> now) rs"

definition active_with_checksum :: "string \<Rightarrow> time \<Rightarrow> FileRecord list \<Rightarrow> FileRecord list" where
  "active_with_checksum checksum now rs =
    filter (\<lambda>r. ChecksumSHA256 r = checksum \<and> file_ExpiresAt r > now) rs"

lemma set_delete_rows [simp]: "set (delete_rows fid rs) = {r \<in> set rs. file_ID r \<noteq> fid}"
  by (simp add: delete_rows_def)

lemma delete_rows_id: "fid \<notin> file_ID ` set rs \<Longrightarrow> delete_rows fid rs = rs"
  unfolding delete_rows_def by (rule filter_True) auto

lemma delete_rows_append [simp]:
  "delete_rows fid (xs @ ys) = delete_rows fid xs @ delete_rows fid ys"
  by (simp add: delete_rows_def)

lemma delete_rows_commute: "delete_rows i (delete_rows j rs) = delete_rows j (delete_rows i rs)"
  by (simp add: delete_rows_def conj_commute)

lemma set_expired_rows [simp]: "set (expired_rows now rs) = {r \<in> set rs. file_ExpiresAt r \<le> now}"
  by (simp add: expired_rows_def)

lemma set_active_with_checksum [simp]:
  "set (active_with_checksum c now rs) = {r \<in> set rs. ChecksumSHA256 r = c \<and> file_ExpiresAt r > now}"
  by (simp add: active_with_checksum_def)

lemma active_after:
  assumes "active_with_checksum c now rs = []" and "now \<le> t"
  shows "active_with_checksum c t rs = []"
  using assms by (auto simp: active_with_checksum_def filter_empty_conv)

lemma length_expired_delete:
  assumes "distinct (map file_ID rs)" and "r \<in> set rs" and "file_ExpiresAt r \<le> now"
  shows "Suc (length (expired_rows now (delete_rows (file_ID r) rs))) = length (expired_rows now rs)"
  using assms
proof (induction rs)
  case (Cons a rs)
  show ?case
  proof (cases "file_ID a = file_ID r")
    case True
    then have "a = r" and "delete_rows (file_ID r) rs = rs"
      using Cons.prems by (auto intro!: delete_rows_id)
    then show ?thesis using Cons.prems(3) by (simp add: delete_rows_def expired_rows_def)
  next
    case False
    then show ?thesis using Cons by (auto simp: delete_rows_def expired_rows_def)
  qed
qed simp

text \<open>The \<open>n\<close> oldest expired records are the same at every later instant, once there are that many.\<close>

definition oldest :: "nat \<Rightarrow> time \<Rightarrow> FileRecord list \<Rightarrow> FileRecord list" where
  "oldest n t rs = take n (sort_key file_ExpiresAt (expired_rows t rs))"

lemma take_filter_sorted:
  assumes "sorted (map f ys)" and "t \<le> t'" and "n \<le> length (filter (\<lambda>y. f y \<le> t) ys)"
  shows "take n (filter (\<lambda>y. f y \<le> t') ys) = take n (filter (\<lambda>y. f y \<le> (t :: int)) ys)"
  using assms
proof (induction ys arbitrary: n)
  case (Cons y ys)
  show ?case
  proof (cases "f y \<le> t")
    case True
    then show ?thesis using Cons by (cases n) auto
  next
    case False
    then have "filter (\<lambda>y. f y \<le> t) (y # ys) = []"
      using Cons.prems(1) by (auto simp: filter_empty_conv)
    then show ?thesis using Cons.prems(3) by simp
  qed
qed simp

lemma oldest_stable:
  assumes "t \<le> t'" and "n \<le> length (expired_rows t rs)"
  shows "oldest n t' rs = oldest n t rs"
proof -
  have "oldest n u rs = take n (filter (\<lambda>r. file_ExpiresAt r \<le> u) (sort_key file_ExpiresAt rs))" for u
    by (simp add: oldest_def expired_rows_def filter_sort)
  moreover have "length (filter (\<lambda>r. file_ExpiresAt r \<le> t) (sort_key file_ExpiresAt rs)) = length (expired_rows t rs)"
    by (simp add: expired_rows_def filter_sort)
  ultimately show ?thesis
    using take_filter_sorted [of file_ExpiresAt "sort_key file_ExpiresAt rs" t t' n] assms by simp
qed

section \<open>The contract\<close>

locale file_repository =
  fixes repo :: "'w FileRepository"
    and rows :: "'w \<Rightarrow> FileRecord list"
    and up :: "'w \<Rightarrow> bool"
  assumes Insert_ok: "run_state (Insert repo r) w = (Inr u, w') \<Longrightarrow>
      file_ID r \<notin> file_ID ` set (rows w) \<and> rows w' = rows w @ [r]"
    and Insert_err: "run_state (Insert repo r) w = (Inl e, w') \<Longrightarrow>
      rows w' = rows w \<or> file_ID r \<notin> file_ID ` set (rows w) \<and> rows w' = rows w @ [r]"
    and FindActive_ok: "run_state (FindActiveByChecksum repo c now) w = (Inr r, w') \<Longrightarrow>
      rows w' = rows w \<and> r \<in> set (active_with_checksum c now (rows w)) \<and>
      (\<forall>r' \<in> set (active_with_checksum c now (rows w)). file_CreatedAt r' \<le> file_CreatedAt r)"
    and FindActive_err: "run_state (FindActiveByChecksum repo c now) w = (Inl e, w') \<Longrightarrow>
      rows w' = rows w \<and> (e = ErrFileNotFound \<longrightarrow> active_with_checksum c now (rows w) = [])"
    and FindByID_ok: "run_state (FindByID repo i) w = (Inr r, w') \<Longrightarrow>
      rows w' = rows w \<and> r \<in> set (rows w) \<and> file_ID r = i"
    and FindByID_err: "run_state (FindByID repo i) w = (Inl e, w') \<Longrightarrow>
      rows w' = rows w \<and> (errors_Is e ErrFileNotFound \<longleftrightarrow> i \<notin> file_ID ` set (rows w) \<and> e = ErrFileNotFound)"
    and DeleteByID_ok: "run_state (DeleteByID repo i) w = (Inr u, w') \<Longrightarrow>
      i \<in> file_ID ` set (rows w) \<and> rows w' = delete_rows i (rows w)"
    and DeleteByID_err: "run_state (DeleteByID repo i) w = (Inl e, w') \<Longrightarrow>
      rows w' = rows w \<or> rows w' = delete_rows i (rows w)"
    and DeleteByID_missing: "run_state (DeleteByID repo i) w = (Inl e, w') \<Longrightarrow>
      errors_Is e ErrFileNotFound \<Longrightarrow> i \<notin> file_ID ` set (rows w)"
    and FindExpired_ok: "run_state (FindExpired repo cutoff limit) w = (Inr rs, w') \<Longrightarrow>
      rows w' = rows w \<and> set rs \<subseteq> set (expired_rows cutoff (rows w)) \<and>
      sorted (map file_ExpiresAt rs) \<and> length rs \<le> nat limit \<and>
      (distinct (map file_ID (rows w)) \<longrightarrow> distinct (map file_ID rs))"
    and FindExpired_err: "run_state (FindExpired repo cutoff limit) w = (Inl e, w') \<Longrightarrow> rows w' = rows w"
    and Stats_rows: "run_state (repo_Stats repo now) w = (res, w') \<Longrightarrow> rows w' = rows w"
    and Insert_up: "up w \<Longrightarrow> file_ID r \<notin> file_ID ` set (rows w) \<Longrightarrow>
      \<exists>w'. run_state (Insert repo r) w = (Inr (), w') \<and> up w'"
    and FindActive_up: "up w \<Longrightarrow> active_with_checksum c now (rows w) = [] \<Longrightarrow>
      \<exists>w'. run_state (FindActiveByChecksum repo c now) w = (Inl ErrFileNotFound, w') \<and> up w'"
    and FindByID_up: "up w \<Longrightarrow> i \<in> file_ID ` set (rows w) \<Longrightarrow>
      \<exists>r w'. run_state (FindByID repo i) w = (Inr r, w') \<and> up w'"
    and DeleteByID_up: "up w \<Longrightarrow> i \<in> file_ID ` set (rows w) \<Longrightarrow>
      \<exists>w'. run_state (DeleteByID repo i) w = (Inr (), w') \<and> up w'"
    and FindExpired_up: "up w \<Longrightarrow> 0 \<le> limit \<Longrightarrow>
      \<exists>rs w'. run_state (FindExpired repo cutoff limit) w = (Inr rs, w') \<and> up w' \<and>
        length rs = min (nat limit) (length (expired_rows cutoff (rows w)))"
begin

text \<open>No operation breaks the primary key.\<close>

lemma Insert_distinct:
  "run_state (Insert repo r) w = (res, w') \<Longrightarrow> distinct (map file_ID (rows w)) \<Longrightarrow>
    distinct (map file_ID (rows w'))"
  by (cases res) (auto dest: Insert_ok Insert_err)

lemma DeleteByID_rows:
  "run_state (DeleteByID repo i) w = (res, w') \<Longrightarrow>
    rows w' = rows w \<or> rows w' = delete_rows i (rows w)"
  by (cases res) (auto dest: DeleteByID_ok DeleteByID_err)

lemma DeleteByID_distinct:
  "run_state (DeleteByID repo i) w = (res, w') \<Longrightarrow> distinct (map file_ID (rows w)) \<Longrightarrow>
    distinct (map file_ID (rows w'))"
  by (auto dest!: DeleteByID_rows simp: delete_rows_def)

lemma FindExpired_rows:
  "run_state (FindExpired repo cutoff limit) w = (res, w') \<Longrightarrow> rows w' = rows w"
  by (cases res) (auto dest: FindExpired_ok FindExpired_err)

lemma FindByID_rows: "run_state (FindByID repo i) w = (res, w') \<Longrightarrow> rows w' = rows w"
  by (cases res) (auto dest: FindByID_ok FindByID_err)

lemma FindActive_rows: "run_state (FindActiveByChecksum repo c now) w = (res, w') \<Longrightarrow> rows w' = rows w"
  by (cases res) (auto dest: FindActive_ok FindActive_err)

lemma DeleteByID_gone:
  assumes del: "run_state (DeleteByID repo i) w = (res, w')"
    and res: "case res of Inl e \<Rightarrow> errors_Is e ErrFileNotFound | Inr _ \<Rightarrow> True"
  shows "i \<notin> file_ID ` set (rows w')"
proof (cases res)
  case (Inl e)
  then have "i \<notin> file_ID ` set (rows w)"
    using del res DeleteByID_missing by auto
  with DeleteByID_rows [OF del] show ?thesis by auto
next
  case (Inr u)
  with del DeleteByID_ok have "rows w' = delete_rows i (rows w)" by blast
  then show ?thesis by auto
qed

end

end
