(* ===== verification/Postgres.thy ===== *)
theory Postgres
  imports Model
begin

text \<open>
  The database behind \<^verbatim>\<open>internal/metadata\<close>: the tables of \<^verbatim>\<open>postgres_migrations\<close> as lists of rows, and
  how a statement runs. A statement is a function of the tables; it either fails with an SQL error
  or returns its result and the new tables. Around it, the connection may fail before the statement
  reached the server, or after the server carried it out and before the answer came back:
  \<^verbatim>\<open>db_faults\<close> says, call by call, which of the three happens, so that a statement about every
  state is a statement about every pattern of failures. A statement the server refuses for a reason
  the model does not look into, as text that is not UTF-8 or holds a NUL, is among the first.
  Instants are stored exactly, in nanoseconds, where the \<^verbatim>\<open>TIMESTAMPTZ\<close> columns keep microseconds: what
  is said of an instant read back holds up to a microsecond, and exactly for whole microseconds.
\<close>

datatype fault = NoFault | FailBefore outside | FailAfter outside

record pg =
  files :: "FileRecord list"
  file_locks :: "string list"
  admins :: "Admin list"
  admin_sessions :: "AdminSession list"
  api_keys :: "APIKey list"
  upload_settings :: "UploadSettings option"
  legal_documents :: "LegalDocument list"
  node_status :: "NodeStatus list"
  schema_migrations :: "string list"
  db_faults :: "fault list"

definition pop_fault :: "('a pg_scheme, fault) state" where
  "pop_fault = State (\<lambda>w. (case db_faults w of [] \<Rightarrow> NoFault | f # _ \<Rightarrow> f, w\<lparr>db_faults := tl (db_faults w)\<rparr>))"

type_synonym ('w, 'r) stmt = "'w \<Rightarrow> error + ('r \<times> 'w)"

fun run_stmt :: "('w, 'r) stmt \<Rightarrow> fault \<Rightarrow> 'w \<Rightarrow> (error + 'r) \<times> 'w" where
  "run_stmt stmt NoFault w = (case stmt w of Inl e \<Rightarrow> (Inl e, w) | Inr (r, w') \<Rightarrow> (Inr r, w'))"
| "run_stmt stmt (FailBefore o') w = (Inl (outside_error o'), w)"
| "run_stmt stmt (FailAfter o') w =
    (case stmt w of Inl e \<Rightarrow> (Inl e, w) | Inr (r, w') \<Rightarrow> (Inl (outside_error o'), w'))"

definition pg_exec :: "('a pg_scheme, 'r) stmt \<Rightarrow> ('a pg_scheme, error, 'r) io" where
  "pg_exec stmt = do { f \<leftarrow> pop_fault; State (run_stmt stmt f) }"

text \<open>A \<^verbatim>\<open>SELECT\<close>, and \<^verbatim>\<open>QueryRow(...).Scan(...)\<close>, which reads the first row or fails.\<close>

definition pg_query :: "('a pg_scheme \<Rightarrow> 'r) \<Rightarrow> ('a pg_scheme, error, 'r) io" where
  "pg_query q = pg_exec (\<lambda>w. Inr (q w, w))"

definition pg_query_row :: "('a pg_scheme \<Rightarrow> 'r list) \<Rightarrow> ('a pg_scheme, error, 'r) io" where
  "pg_query_row q = pg_exec (\<lambda>w. case q w of [] \<Rightarrow> Inl ErrNoRows | r # _ \<Rightarrow> Inr (r, w))"

text \<open>SQLSTATE codes of the constraints the migrations declare.\<close>

definition unique_violation :: error where
  "unique_violation = PgError ''23505''"

definition foreign_key_violation :: error where
  "foreign_key_violation = PgError ''23503''"

definition isUniqueViolation :: "error \<Rightarrow> bool" where
  "isUniqueViolation err \<longleftrightarrow> as_PgError err = Some ''23505''"

section \<open>Running statements\<close>

text \<open>The tables apart from the pending faults.\<close>

definition tables :: "'a pg_scheme \<Rightarrow> 'a pg_scheme" where
  "tables w = w\<lparr>db_faults := []\<rparr>"

lemma tables_faults [simp]: "tables (w\<lparr>db_faults := fs\<rparr>) = tables w"
  by (simp add: tables_def)

lemma run_pg_exec:
  "run_state (pg_exec stmt) w =
    run_stmt stmt (case db_faults w of [] \<Rightarrow> NoFault | f # _ \<Rightarrow> f) (w\<lparr>db_faults := tl (db_faults w)\<rparr>)"
  by (simp add: pg_exec_def pop_fault_def)

text \<open>
  The outcomes of a statement: it succeeded, it failed by itself, it was not carried out, or it was
  carried out and its answer lost.
\<close>

lemma pg_exec_cases:
  assumes "run_state (pg_exec stmt) w = (r, w')"
  obtains
    (ok) x where "r = Inr x" and "stmt (w\<lparr>db_faults := tl (db_faults w)\<rparr>) = Inr (x, w')"
  | (failed) e where "r = Inl e" and "stmt (w\<lparr>db_faults := tl (db_faults w)\<rparr>) = Inl e"
      and "w' = w\<lparr>db_faults := tl (db_faults w)\<rparr>"
  | (lost) o' where "r = Inl (outside_error o')" and "w' = w\<lparr>db_faults := tl (db_faults w)\<rparr>"
  | (unacked) o' x where "r = Inl (outside_error o')"
      and "stmt (w\<lparr>db_faults := tl (db_faults w)\<rparr>) = Inr (x, w')"
proof -
  let ?w = "w\<lparr>db_faults := tl (db_faults w)\<rparr>"
  define f where "f = (case db_faults w of [] \<Rightarrow> NoFault | f # _ \<Rightarrow> f)"
  have run: "run_stmt stmt f ?w = (r, w')"
    using assms by (simp add: run_pg_exec f_def)
  show thesis
  proof (cases f)
    case NoFault
    with run ok failed show thesis by (auto split: sum.splits prod.splits)
  next
    case (FailBefore o')
    with run lost show thesis by auto
  next
    case (FailAfter o')
    with run failed unacked show thesis by (auto split: sum.splits prod.splits)
  qed
qed

text \<open>Without pending faults a statement just runs.\<close>

lemma run_pg_exec_ok:
  assumes "db_faults w = []"
  shows "run_state (pg_exec stmt) w = (case stmt w of Inl e \<Rightarrow> (Inl e, w) | Inr (r, w') \<Rightarrow> (Inr r, w'))"
proof -
  have w: "w\<lparr>db_faults := []\<rparr> = w" using assms by (cases w) simp
  have "run_state (pg_exec stmt) w = run_stmt stmt NoFault (w\<lparr>db_faults := []\<rparr>)"
    using assms by (simp add: run_pg_exec del: run_stmt.simps)
  also have "\<dots> = run_stmt stmt NoFault w"
    by (subst w) (rule refl)
  finally show ?thesis by simp
qed


text \<open>A statement that leaves a part of the world alone does so under every pattern of failures.\<close>

lemma same_pg_exec [frame]:
  assumes "\<And>w x w'. stmt w = Inr (x, w') \<Longrightarrow> f w' = f w"
    and "\<And>w fs. f (w\<lparr>db_faults := fs\<rparr>) = f w"
  shows "preserves (same f) (pg_exec stmt)"
proof (rule preservesI)
  fix w r w'
  assume "run_state (pg_exec stmt) w = (r, w')"
  then show "same f w w'"
    by (rule pg_exec_cases) (auto simp: same_def assms dest: assms(1))
qed

lemma same_pg_query [frame]:
  "(\<And>w fs. f (w\<lparr>db_faults := fs\<rparr>) = f w) \<Longrightarrow> preserves (same f) (pg_query q)"
  unfolding pg_query_def by (rule same_pg_exec) auto

lemma same_pg_query_row [frame]:
  "(\<And>w fs. f (w\<lparr>db_faults := fs\<rparr>) = f w) \<Longrightarrow> preserves (same f) (pg_query_row q)"
  unfolding pg_query_row_def by (rule same_pg_exec) (auto split: list.splits)


section \<open>The shapes of repository methods\<close>

lemma pg_query_row_cases:
  assumes "run_state (pg_query_row q) w = (res, w')"
    and "\<And>fs. q (w\<lparr>db_faults := fs\<rparr>) = q w"
  shows "w' = w\<lparr>db_faults := tl (db_faults w)\<rparr>"
    and "res = (case q w of [] \<Rightarrow> Inl ErrNoRows | r # _ \<Rightarrow> Inr r) \<or> (\<exists>o'. res = Inl (outside_error o'))"
  using assms unfolding pg_query_row_def
  by (auto elim!: pg_exec_cases split: list.splits)

lemma pg_query_world:
  assumes "run_state (pg_query q) w = (res, w')"
  shows "w' = w\<lparr>db_faults := tl (db_faults w)\<rparr>"
  using assms unfolding pg_query_def by (auto elim!: pg_exec_cases)

lemma run_pg_query_up [simp]: "db_faults w = [] \<Longrightarrow> run_state (pg_query q) w = (Inr (q w), w)"
  by (simp add: pg_query_def run_pg_exec_ok)

text \<open>
  Most methods are one of three: a statement that always succeeds on the server, a row looked up
  by a key, a list of rows. The error is wrapped with the method's own message.
\<close>

definition exec_update :: "('a pg_scheme \<Rightarrow> 'a pg_scheme) \<Rightarrow> string \<Rightarrow> ('a pg_scheme, error, unit) io" where
  "exec_update f msg =
    tryE (pg_exec (\<lambda>w. Inr ((), f w))) (Wrap msg) (\<lambda>_. State_Monad.return (Inr ()))"

definition find_row :: "('a pg_scheme \<Rightarrow> 'r list) \<Rightarrow> error \<Rightarrow> string \<Rightarrow> ('a pg_scheme, error, 'r) io" where
  "find_row q notFound msg =
    tryE (pg_query_row q)
      (\<lambda>err. if errors_Is err ErrNoRows then notFound else Wrap msg err)
      (\<lambda>row. State_Monad.return (Inr row))"

definition list_rows :: "('a pg_scheme \<Rightarrow> 'r list) \<Rightarrow> string \<Rightarrow> string \<Rightarrow> ('a pg_scheme, error, 'r list) io" where
  "list_rows q msg iterMsg =
    tryE (pg_query q) (Wrap msg) (\<lambda>rows.
    tryE (pg_query (\<lambda>_. ())) (Wrap iterMsg) (\<lambda>_.
    State_Monad.return (Inr rows)))"

abbreviation popped :: "'a pg_scheme \<Rightarrow> 'a pg_scheme" where
  "popped w \<equiv> w\<lparr>db_faults := tl (db_faults w)\<rparr>"

lemma exec_update_cases:
  assumes "run_state (exec_update f msg) w = (res, w')"
  obtains
    (ok) "res = Inr ()" and "w' = f (popped w)"
  | (lost) o' where "res = Inl (Wrap msg (outside_error o'))" and "w' = popped w \<or> w' = f (popped w)"
  using assms by (auto simp: exec_update_def split: prod.splits sum.splits elim!: pg_exec_cases)

lemma exec_update_up [simp]:
  "db_faults w = [] \<Longrightarrow> run_state (exec_update f msg) w = (Inr (), f w)"
  by (simp add: exec_update_def run_pg_exec_ok)

lemma find_row_cases:
  assumes "run_state (find_row q notFound msg) w = (res, w')"
    and "\<And>fs. q (w\<lparr>db_faults := fs\<rparr>) = q w"
  obtains
    (found) r rs where "q w = r # rs" and "res = Inr r" and "w' = popped w"
  | (missing) "q w = []" and "res = Inl notFound" and "w' = popped w"
  | (lost) o' where "res = Inl (Wrap msg (outside_error o'))" and "w' = popped w"
proof -
  obtain r1 w1 where q: "run_state (pg_query_row q) w = (r1, w1)" by force
  note c = pg_query_row_cases [OF q assms(2)]
  have res: "res = (case r1 of Inl e \<Rightarrow> Inl (if errors_Is e ErrNoRows then notFound else Wrap msg e) | Inr r \<Rightarrow> Inr r)"
    and w': "w' = w1"
    using assms(1) q by (auto simp: find_row_def split: sum.splits)
  from c(2) show thesis
  proof
    assume r1: "r1 = (case q w of [] \<Rightarrow> Inl ErrNoRows | r # _ \<Rightarrow> Inr r)"
    show thesis using found missing r1 res w' c(1) by (cases "q w") auto
  next
    assume "\<exists>o'. r1 = Inl (outside_error o')"
    then show thesis using lost res w' c(1) by auto
  qed
qed

lemma find_row_up:
  "db_faults w = [] \<Longrightarrow> run_state (find_row q notFound msg) w =
    (case q w of [] \<Rightarrow> Inl notFound | r # _ \<Rightarrow> Inr r, w)"
  by (simp add: find_row_def pg_query_row_def run_pg_exec_ok split: list.splits)

lemma list_rows_cases:
  assumes "run_state (list_rows q msg iterMsg) w = (res, w')"
    and "\<And>fs. q (w\<lparr>db_faults := fs\<rparr>) = q w"
  shows "\<exists>fs. w' = w\<lparr>db_faults := fs\<rparr>" and "\<And>rows. res = Inr rows \<Longrightarrow> rows = q w"
    and "\<And>e. res = Inl e \<Longrightarrow> db_faults w \<noteq> []"
proof -
  obtain r1 w1 where q: "run_state (pg_query q) w = (r1, w1)" by force
  obtain r2 w2 where i: "run_state (pg_query (\<lambda>_. ())) w1 = (r2, w2)" by (cases "run_state (pg_query (\<lambda>_. ())) w1")
  have w1: "w1 = popped w" and w2: "w2 = popped w1"
    using pg_query_world [OF q] pg_query_world [OF i] .
  show "\<exists>fs. w' = w\<lparr>db_faults := fs\<rparr>"
    using assms(1) q i w1 w2 by (auto simp: list_rows_def split: sum.splits)
  show "rows = q w" if "res = Inr rows" for rows
    using assms q i that
    by (auto simp: list_rows_def pg_query_def split: sum.splits elim!: pg_exec_cases)
  show "db_faults w \<noteq> []" if "res = Inl e" for e
    using assms(1) that by (auto simp: list_rows_def split: sum.splits)
qed

lemma same_exec_update [frame]:
  "(\<And>w. g (f w) = g w) \<Longrightarrow> (\<And>w fs. g (w\<lparr>db_faults := fs\<rparr>) = g w) \<Longrightarrow> preserves (same g) (exec_update f msg)"
  unfolding exec_update_def by (auto intro!: frame)

lemma same_find_row [frame]:
  "(\<And>w fs. g (w\<lparr>db_faults := fs\<rparr>) = g w) \<Longrightarrow> preserves (same g) (find_row q notFound msg)"
  unfolding find_row_def by (auto intro!: frame)

lemma same_list_rows [frame]:
  "(\<And>w fs. g (w\<lparr>db_faults := fs\<rparr>) = g w) \<Longrightarrow> preserves (same g) (list_rows q msg iterMsg)"
  unfolding list_rows_def by (auto intro!: frame)

end
