(* ===== verification/Repo_Files.thy ===== *)
theory Repo_Files
  imports Repository Postgres
begin

text \<open>
  \<^verbatim>\<open>internal/metadata/postgres_repository_files.go\<close>: the methods of \<^verbatim>\<open>PostgresRepository\<close> on the
  \<^verbatim>\<open>files\<close> table. Every method is its SQL statement as a function of the table, run by
  \<^verbatim>\<open>pg_exec\<close>, followed by the Go code around it. \<^verbatim>\<open>file_locks\<close> are the ids of the rows that
  transactions hold locked. SQL leaves the order of equal sort keys open; the model keeps them in
  insertion order, and the contract does not promise it.
\<close>

definition insert_file_stmt :: "FileRecord \<Rightarrow> ('a pg_scheme, unit) stmt" where
  "insert_file_stmt record w =
    (if file_ID record \<in> file_ID ` set (files w) then Inl unique_violation
     else Inr ((), w\<lparr>files := files w @ [record]\<rparr>))"

definition pg_Insert :: "FileRecord \<Rightarrow> ('a pg_scheme, error, unit) io" where
  "pg_Insert record =
    tryE (pg_exec (insert_file_stmt record)) (Wrap ''insert file record'') (\<lambda>_. State_Monad.return (Inr ()))"

definition pgScanFileRecord :: "('a pg_scheme \<Rightarrow> FileRecord list) \<Rightarrow> ('a pg_scheme, error, FileRecord) io" where
  "pgScanFileRecord q =
    tryE (pg_query_row q)
      (\<lambda>err. if err = ErrNoRows then ErrFileNotFound else Wrap ''scan file record'' err)
      (\<lambda>record. State_Monad.return (Inr record))"

definition pg_FindActiveByChecksum :: "string \<Rightarrow> time \<Rightarrow> ('a pg_scheme, error, FileRecord) io" where
  "pg_FindActiveByChecksum checksum now =
    pgScanFileRecord (\<lambda>w. take 1 (sort_key (\<lambda>r. - file_CreatedAt r)
      (active_with_checksum checksum now (files w))))"

definition pg_FindByID :: "string \<Rightarrow> ('a pg_scheme, error, FileRecord) io" where
  "pg_FindByID fid = pgScanFileRecord (\<lambda>w. filter (\<lambda>r. file_ID r = fid) (files w))"

text \<open>
  \<^verbatim>\<open>SELECT ... FOR UPDATE SKIP LOCKED\<close> skips the rows locked by others and locks the ones it
  returns. The locks last until the commit, or the deferred rollback, of this same method.
\<close>

definition select_expired_stmt :: "time \<Rightarrow> int \<Rightarrow> ('a pg_scheme, FileRecord list) stmt" where
  "select_expired_stmt cutoff limit w =
    (if limit < 0 then Inl (PgError ''2201W'')
     else let rs = take (nat limit) (sort_key file_ExpiresAt
                (filter (\<lambda>r. file_ID r \<notin> set (file_locks w)) (expired_rows cutoff (files w))))
          in Inr (rs, w\<lparr>file_locks := map file_ID rs @ file_locks w\<rparr>))"

definition find_expired_tx :: "time \<Rightarrow> int \<Rightarrow> ('a pg_scheme, error, FileRecord list) io" where
  "find_expired_tx cutoff limit =
    tryE (pg_query (\<lambda>_. ())) (Wrap ''begin find-expired transaction'') (\<lambda>_.
    tryE (pg_exec (select_expired_stmt cutoff limit)) (Wrap ''query expired file records'') (\<lambda>records.
    tryE (pg_query (\<lambda>_. ())) (Wrap ''iterate expired file records'') (\<lambda>_.
    tryE (pg_query (\<lambda>_. ())) (Wrap ''commit find-expired transaction'') (\<lambda>_.
    State_Monad.return (Inr records)))))"

definition pg_FindExpired :: "time \<Rightarrow> int \<Rightarrow> ('a pg_scheme, error, FileRecord list) io" where
  "pg_FindExpired cutoff limit = do {
     held \<leftarrow> gets file_locks;
     r \<leftarrow> find_expired_tx cutoff limit;
     modify (\<lambda>w. w\<lparr>file_locks := held\<rparr>);
     State_Monad.return r
   }"

definition delete_file_stmt :: "string \<Rightarrow> ('a pg_scheme, nat) stmt" where
  "delete_file_stmt fid w =
    Inr (length (filter (\<lambda>r. file_ID r = fid) (files w)), w\<lparr>files := delete_rows fid (files w)\<rparr>)"

definition pg_DeleteByID :: "string \<Rightarrow> ('a pg_scheme, error, unit) io" where
  "pg_DeleteByID fid =
    tryE (pg_exec (delete_file_stmt fid)) (Wrap ''delete file record'') (\<lambda>rowsAffected.
    State_Monad.return (if rowsAffected = 0 then Inl ErrFileNotFound else Inr ()))"

text \<open>
  The two queries of \<^verbatim>\<open>Stats\<close>. \<^verbatim>\<open>SUM\<close> over \<^verbatim>\<open>BIGINT\<close> is a \<^verbatim>\<open>NUMERIC\<close>, which only scans into an
  \<^verbatim>\<open>int64\<close> when it fits; \<^verbatim>\<open>GROUP BY\<close> gives each content type once.
\<close>

definition active_rows :: "time \<Rightarrow> FileRecord list \<Rightarrow> FileRecord list" where
  "active_rows now rs = filter (\<lambda>r. file_ExpiresAt r > now) rs"

definition summary_stmt :: "time \<Rightarrow> ('a pg_scheme, int \<times> int) stmt" where
  "summary_stmt now w =
    (let active = active_rows now (files w); total = sum_list (map SizeBytes active)
     in if is_i64 total then Inr ((int (length active), total), w)
        else Inl (External ''cannot scan numeric into *int64''))"

definition group_by_type :: "FileRecord list \<Rightarrow> (string \<times> int) list" where
  "group_by_type rs =
    map (\<lambda>t. (t, int (length (filter (\<lambda>r. ContentType r = t) rs)))) (remdups (map ContentType rs))"

fun add_breakdown :: "(string \<rightharpoonup> int) \<Rightarrow> (string \<times> int) list \<Rightarrow> (string \<rightharpoonup> int)" where
  "add_breakdown m [] = m"
| "add_breakdown m ((contentType, count) # rest) =
    (let k = topLevelMimeType contentType
     in add_breakdown (m(k \<mapsto> (case m k of None \<Rightarrow> 0 | Some n \<Rightarrow> n) + count)) rest)"

definition pg_Stats :: "time \<Rightarrow> ('a pg_scheme, error, Stats) io" where
  "pg_Stats now =
    tryE (pg_exec (summary_stmt now)) (Wrap ''scan active file summary'') (\<lambda>(count, bytes).
    tryE (pg_query (\<lambda>w. group_by_type (active_rows now (files w)))) (Wrap ''query content type breakdown'') (\<lambda>groups.
    tryE (pg_query (\<lambda>_. ())) (Wrap ''iterate content type breakdown'') (\<lambda>_.
    State_Monad.return (Inr \<lparr>ActiveFileCount = count, ActiveBytes = bytes,
      ContentTypeBreakdown = add_breakdown Map.empty groups\<rparr>))))"

definition PostgresFiles :: "('a pg_scheme) FileRepository" where
  "PostgresFiles = \<lparr>Insert = pg_Insert, FindActiveByChecksum = pg_FindActiveByChecksum,
    FindByID = pg_FindByID, DeleteByID = pg_DeleteByID, FindExpired = pg_FindExpired,
    repo_Stats = pg_Stats\<rparr>"


section \<open>The methods meet the contract\<close>

lemma files_faults [simp]: "files (w\<lparr>db_faults := fs\<rparr>) = files w" 
  by simp

lemma pgScan_cases:
  assumes "run_state (pgScanFileRecord q) w = (res, w')"
    and "\<And>fs. q (w\<lparr>db_faults := fs\<rparr>) = q w"
  obtains
    (found) r rs where "q w = r # rs" and "res = Inr r" and "w' = w\<lparr>db_faults := tl (db_faults w)\<rparr>"
  | (missing) "q w = []" and "res = Inl ErrFileNotFound" and "w' = w\<lparr>db_faults := tl (db_faults w)\<rparr>"
  | (lost) o' where "res = Inl (Wrap ''scan file record'' (outside_error o'))"
      and "w' = w\<lparr>db_faults := tl (db_faults w)\<rparr>"
proof -
  obtain r1 w1 where q: "run_state (pg_query_row q) w = (r1, w1)" by force
  note c = pg_query_row_cases [OF q assms(2)]
  have res: "res = (case r1 of Inl e \<Rightarrow> Inl (if e = ErrNoRows then ErrFileNotFound else Wrap ''scan file record'' e) | Inr r \<Rightarrow> Inr r)"
    and w': "w' = w1"
    using assms(1) q by (auto simp: pgScanFileRecord_def split: sum.splits)
  from c(2) show thesis
  proof
    assume r1: "r1 = (case q w of [] \<Rightarrow> Inl ErrNoRows | r # _ \<Rightarrow> Inr r)"
    show thesis using found missing r1 res w' c(1) by (cases "q w") auto
  next
    assume "\<exists>o'. r1 = Inl (outside_error o')"
    then show thesis using lost res w' c(1) by auto
  qed
qed


lemma pg_Insert_cases:
  assumes "run_state (pg_Insert r) w = (res, w')"
  obtains
    (stored) "file_ID r \<notin> file_ID ` set (files w)" and "files w' = files w @ [r]"
  | (kept) e where "res = Inl e" and "files w' = files w"
proof -
  obtain r1 w1 where x: "run_state (pg_exec (insert_file_stmt r)) w = (r1, w1)" by force
  have res: "w' = w1" "(\<exists>e. res = Inl e) = (\<exists>e. r1 = Inl e)"
    using assms x by (auto simp: pg_Insert_def split: sum.splits)
  from x show thesis
    by (rule pg_exec_cases)
       (use res stored kept in \<open>auto simp: insert_file_stmt_def split: if_splits\<close>)
qed

lemma pg_DeleteByID_cases:
  assumes "run_state (pg_DeleteByID i) w = (res, w')"
  obtains
    (deleted) "i \<in> file_ID ` set (files w)" and "res = Inr ()" and "files w' = delete_rows i (files w)"
  | (missing) "i \<notin> file_ID ` set (files w)" and "res = Inl ErrFileNotFound" and "files w' = files w"
  | (lost) e where "res = Inl e" and "\<not> errors_Is e ErrFileNotFound"
      and "files w' = files w \<or> files w' = delete_rows i (files w)"
proof -
  obtain r1 w1 where x: "run_state (pg_exec (delete_file_stmt i)) w = (r1, w1)" by force
  have res: "w' = w1" "res = (case r1 of Inl e \<Rightarrow> Inl (Wrap ''delete file record'' e)
      | Inr n \<Rightarrow> if n = 0 then Inl ErrFileNotFound else Inr ())"
    using assms x by (auto simp: pg_DeleteByID_def split: sum.splits)
  from x show thesis
  proof (cases rule: pg_exec_cases)
    case (ok n)
    show thesis
    proof (cases "i \<in> file_ID ` set (files w)")
      case True
      then have "n \<noteq> 0" using ok(2) by (auto simp: delete_file_stmt_def filter_empty_conv)
      then show thesis using deleted True ok res by (auto simp: delete_file_stmt_def)
    next
      case False
      then have "n = 0" using ok(2) by (auto simp: delete_file_stmt_def filter_empty_conv)
      then show thesis using missing False ok res by (auto simp: delete_file_stmt_def delete_rows_id)
    qed
  qed (use lost res in \<open>auto simp: delete_file_stmt_def\<close>)
qed

lemma find_expired_tx_files:
  assumes "run_state (find_expired_tx cutoff limit) w = (res, w')"
  shows "files w' = files w"
  using assms
  by (auto simp: find_expired_tx_def select_expired_stmt_def Let_def split: prod.splits sum.splits if_splits
      dest!: pg_query_world elim!: pg_exec_cases)

lemma find_expired_tx_ok:
  assumes "run_state (find_expired_tx cutoff limit) w = (Inr rs, w')"
  shows "rs = take (nat limit) (sort_key file_ExpiresAt
    (filter (\<lambda>r. file_ID r \<notin> set (file_locks w)) (expired_rows cutoff (files w))))"
  using assms
  by (auto simp: find_expired_tx_def select_expired_stmt_def Let_def split: prod.splits sum.splits if_splits
      dest!: pg_query_world elim!: pg_exec_cases)

lemma pg_FindExpired_ok:
  assumes "run_state (pg_FindExpired cutoff limit) w = (Inr rs, w')"
  shows "rs = take (nat limit) (sort_key file_ExpiresAt
    (filter (\<lambda>r. file_ID r \<notin> set (file_locks w)) (expired_rows cutoff (files w))))"
  using assms by (auto simp: pg_FindExpired_def split: prod.splits dest: find_expired_tx_ok)

lemma pg_FindExpired_files:
  assumes "run_state (pg_FindExpired cutoff limit) w = (res, w')"
  shows "files w' = files w"
  using assms by (auto simp: pg_FindExpired_def split: prod.splits dest: find_expired_tx_files)

lemma pg_Stats_files:
  assumes "run_state (pg_Stats now) w = (res, w')"
  shows "files w' = files w"
  using assms
  by (auto simp: pg_Stats_def summary_stmt_def Let_def split: prod.splits sum.splits if_splits
      dest!: pg_query_world elim!: pg_exec_cases)


text \<open>Where the database answers and no transaction holds a row, every method has one outcome.\<close>

definition pg_up :: "'a pg_scheme \<Rightarrow> bool" where
  "pg_up w \<longleftrightarrow> db_faults w = [] \<and> file_locks w = []"

lemma run_pgScan_up:
  "db_faults w = [] \<Longrightarrow> run_state (pgScanFileRecord q) w =
    (case q w of [] \<Rightarrow> Inl ErrFileNotFound | r # _ \<Rightarrow> Inr r, w)"
  by (simp add: pgScanFileRecord_def pg_query_row_def run_pg_exec_ok split: list.splits)

lemma run_pgScan_NoFault:
  assumes "db_faults w = NoFault # fs"
  shows "run_state (pgScanFileRecord q) w =
    (case q (w\<lparr>db_faults := fs\<rparr>) of [] \<Rightarrow> Inl ErrFileNotFound | r # _ \<Rightarrow> Inr r, w\<lparr>db_faults := fs\<rparr>)"
  using assms by (simp add: pgScanFileRecord_def pg_query_row_def run_pg_exec split: list.splits)

text \<open>The row is stored, but the answer that says so is lost.\<close>

lemma run_pg_Insert_FailAfter:
  assumes "db_faults w = FailAfter o' # fs" and "file_ID r \<notin> file_ID ` set (files w)"
  shows "run_state (pg_Insert r) w =
    (Inl (Wrap ''insert file record'' (outside_error o')), w\<lparr>db_faults := fs, files := files w @ [r]\<rparr>)"
  using assms by (simp add: pg_Insert_def run_pg_exec insert_file_stmt_def)

lemma run_pg_Insert_up:
  "db_faults w = [] \<Longrightarrow> run_state (pg_Insert r) w =
    (if file_ID r \<in> file_ID ` set (files w) then (Inl (Wrap ''insert file record'' unique_violation), w)
     else (Inr (), w\<lparr>files := files w @ [r]\<rparr>))"
  by (simp add: pg_Insert_def run_pg_exec_ok insert_file_stmt_def)

lemma run_pg_DeleteByID_up:
  "db_faults w = [] \<Longrightarrow> run_state (pg_DeleteByID i) w =
    (if i \<in> file_ID ` set (files w) then Inr () else Inl ErrFileNotFound,
     w\<lparr>files := delete_rows i (files w)\<rparr>)"
  by (auto simp: pg_DeleteByID_def run_pg_exec_ok delete_file_stmt_def filter_empty_conv)

lemma run_pg_FindExpired_up:
  "db_faults w = [] \<Longrightarrow> 0 \<le> limit \<Longrightarrow> run_state (pg_FindExpired cutoff limit) w =
    (Inr (take (nat limit) (sort_key file_ExpiresAt
      (filter (\<lambda>r. file_ID r \<notin> set (file_locks w)) (expired_rows cutoff (files w))))), w)"
  by (simp add: pg_FindExpired_def find_expired_tx_def select_expired_stmt_def Let_def run_pg_exec_ok)

interpretation pgfiles: file_repository PostgresFiles files pg_up
proof (unfold_locales, goal_cases)
  case (1 r w u w') then show ?case
    by (auto simp: PostgresFiles_def elim: pg_Insert_cases)
next
  case (2 r w e w') then show ?case
    by (auto simp: PostgresFiles_def elim: pg_Insert_cases)
next
  case (3 c now w r w')
  then have *: "run_state (pgScanFileRecord (\<lambda>w. take 1 (sort_key (\<lambda>r. - file_CreatedAt r)
      (active_with_checksum c now (files w))))) w = (Inr r, w')"
    by (simp add: PostgresFiles_def pg_FindActiveByChecksum_def)
  let ?m = "active_with_checksum c now (files w)"
  let ?s = "sort_key (\<lambda>r. - file_CreatedAt r) ?m"
  from * have "\<exists>rs. take 1 ?s = r # rs" and w': "files w' = files w"
    by (auto elim!: pgScan_cases)
  then have r: "r = hd ?s" and ne: "?m \<noteq> []"
    by (cases ?s; auto)+
  from ne have "r \<in> set ?m" unfolding r by (rule hd_sort_key_in)
  moreover have "file_CreatedAt x \<le> file_CreatedAt r" if "x \<in> set ?m" for x
    using sort_key_hd_min [OF that, of "\<lambda>r. - file_CreatedAt r"] unfolding r by simp
  ultimately show ?case using w' by blast
next
  case (4 c now w e w') then show ?case
    by (auto simp: PostgresFiles_def pg_FindActiveByChecksum_def elim!: pgScan_cases)
next
  case (5 i w r w') then show ?case
    by (auto simp: PostgresFiles_def pg_FindByID_def elim!: pgScan_cases dest: filter_eq_ConsD)
next
  case (6 i w e w') then show ?case
    by (auto simp: PostgresFiles_def pg_FindByID_def filter_empty_conv elim!: pgScan_cases)
next
  case (7 i w u w') then show ?case
    by (auto simp: PostgresFiles_def elim: pg_DeleteByID_cases)
next
  case (8 i w e w') then show ?case
    by (auto simp: PostgresFiles_def elim: pg_DeleteByID_cases)
next
  case (9 i w e w') then show ?case
    by (auto simp: PostgresFiles_def elim: pg_DeleteByID_cases)
next
  case (10 cutoff limit w rs w')
  then have run: "run_state (pg_FindExpired cutoff limit) w = (Inr rs, w')"
    by (simp add: PostgresFiles_def)
  let ?m = "filter (\<lambda>r. file_ID r \<notin> set (file_locks w)) (expired_rows cutoff (files w))"
  have rs: "rs = take (nat limit) (sort_key file_ExpiresAt ?m)"
    using pg_FindExpired_ok [OF run] .
  have "set rs \<subseteq> set (sort_key file_ExpiresAt ?m)"
    unfolding rs by (rule set_take_subset)
  then have "set rs \<subseteq> set (expired_rows cutoff (files w))" by auto
  moreover have "sorted (map file_ExpiresAt rs)"
    unfolding rs take_map [symmetric] by (rule sorted_wrt_take) simp
  moreover have "distinct (map file_ID rs)" if "distinct (map file_ID (files w))"
  proof -
    have "distinct (map file_ID ?m)" using that by (simp add: expired_rows_def)
    then have "distinct (map file_ID (sort_key file_ExpiresAt ?m))"
      by (simp add: distinct_map)
    then show ?thesis unfolding rs take_map [symmetric] by (rule distinct_take)
  qed
  ultimately show ?case using pg_FindExpired_files [OF run] by (simp add: rs)
next
  case (11 cutoff limit w e w') then show ?case
    by (simp add: PostgresFiles_def pg_FindExpired_files)
next
  case (12 now w res w') then show ?case
    by (simp add: PostgresFiles_def pg_Stats_files)
next
  case (13 w r) then show ?case
    by (simp add: PostgresFiles_def pg_up_def run_pg_Insert_up)
next
  case (14 w c now) then show ?case
    by (simp add: PostgresFiles_def pg_up_def pg_FindActiveByChecksum_def run_pgScan_up)
next
  case (15 w i) then show ?case
    by (auto simp: PostgresFiles_def pg_up_def pg_FindByID_def run_pgScan_up filter_empty_conv split: list.splits)
next
  case (16 w i) then show ?case
    by (simp add: PostgresFiles_def pg_up_def run_pg_DeleteByID_up)
next
  case (17 w limit cutoff) then show ?case
    by (simp add: PostgresFiles_def pg_up_def run_pg_FindExpired_up min.commute)
qed

end
