(* ===== verification/Storage.thy ===== *)
theory Storage
  imports Repository
begin

text \<open>
  \<^verbatim>\<open>internal/storage\<close>: the interface \<^verbatim>\<open>ObjectStorage\<close> with the contract its clients rely on, and
  the client for Cloudflare R2. The AWS SDK is not part of the repository: its three entry points are
  fields of the record \<open>aws_sdk\<close>, and what its documentation promises of them is the locale
  \<open>s3_service\<close>. \<open>bkt w b\<close> is the content of bucket \<open>b\<close>: a map from keys to the stored bytes and
  their content type.
\<close>

record PutObjectInput =
  Key :: string
  Body :: bytes
  put_ContentType :: string
  put_SizeBytes :: int

record 'w ObjectStorage =
  PutObject :: "PutObjectInput \<Rightarrow> ('w, error, unit) io"
  DeleteObject :: "string \<Rightarrow> ('w, error, unit) io"

type_synonym bucket = "string \<rightharpoonup> bytes \<times> string"

locale object_storage =
  fixes sto :: "'w ObjectStorage"
    and objs :: "'w \<Rightarrow> bucket"
    and sto_up :: "'w \<Rightarrow> bool"
  assumes Put_ok: "run_state (PutObject sto input) w = (Inr u, w') \<Longrightarrow>
      objs w' = (objs w)(Key input \<mapsto> (Body input, put_ContentType input))"
    and Put_err: "run_state (PutObject sto input) w = (Inl e, w') \<Longrightarrow>
      objs w' = objs w \<or> objs w' = (objs w)(Key input \<mapsto> (Body input, put_ContentType input))"
    and Put_err_kind: "run_state (PutObject sto input) w = (Inl e, w') \<Longrightarrow>
      \<not> errors_Is e ErrFileNotFound \<and> as_ValidationError e = None"
    and Delete_ok: "run_state (DeleteObject sto key) w = (Inr u, w') \<Longrightarrow> objs w' = (objs w)(key := None)"
    and Delete_err: "run_state (DeleteObject sto key) w = (Inl e, w') \<Longrightarrow>
      objs w' = objs w \<or> objs w' = (objs w)(key := None)"
    and Put_up: "sto_up w \<Longrightarrow> \<exists>w'. run_state (PutObject sto input) w = (Inr (), w') \<and> sto_up w'"
    and Delete_up: "sto_up w \<Longrightarrow> \<exists>w'. run_state (DeleteObject sto key) w = (Inr (), w') \<and> sto_up w'"
begin

lemma Delete_objs:
  "run_state (DeleteObject sto key) w = (res, w') \<Longrightarrow>
    objs w' = objs w \<or> objs w' = (objs w)(key := None)"
  by (cases res) (auto dest: Delete_ok Delete_err)

lemma Delete_le:
  "run_state (DeleteObject sto key) w = (res, w') \<Longrightarrow> k \<noteq> key \<Longrightarrow> objs w' k = objs w k"
  by (auto dest: Delete_objs)

lemma Put_objs:
  "run_state (PutObject sto input) w = (res, w') \<Longrightarrow>
    objs w' = objs w \<or> objs w' = (objs w)(Key input \<mapsto> (Body input, put_ContentType input))"
  by (cases res) (auto dest: Put_ok Put_err)

end

section \<open>The R2 client\<close>

record R2ClientConfig =
  AccessKeyID :: string
  SecretAccessKey :: string
  BucketName :: string
  Endpoint :: string

text \<open>
  \<open>LoadDefaultConfig region endpoint key secret\<close>; \<open>s3_DeleteObject cfg usePathStyle bucket key\<close>;
  \<open>manager_Upload cfg usePathStyle bucket key body contentType\<close>.
\<close>

record ('cfg, 'w) aws_sdk =
  LoadDefaultConfig :: "string \<Rightarrow> string \<Rightarrow> string \<Rightarrow> string \<Rightarrow> error + 'cfg"
  s3_DeleteObject :: "'cfg \<Rightarrow> bool \<Rightarrow> string \<Rightarrow> string \<Rightarrow> ('w, error, unit) io"
  manager_Upload :: "'cfg \<Rightarrow> bool \<Rightarrow> string \<Rightarrow> string \<Rightarrow> bytes \<Rightarrow> string \<Rightarrow> ('w, error, unit) io"

record 'w R2Client =
  client_DeleteObject :: "string \<Rightarrow> string \<Rightarrow> ('w, error, unit) io"
  uploader_Upload :: "string \<Rightarrow> string \<Rightarrow> bytes \<Rightarrow> string \<Rightarrow> ('w, error, unit) io"
  bucketName :: string

definition NewR2Client :: "('cfg, 'w) aws_sdk \<Rightarrow> R2ClientConfig \<Rightarrow> error + 'w R2Client" where
  "NewR2Client sdk cfg =
    (case LoadDefaultConfig sdk ''auto'' (Endpoint cfg) (AccessKeyID cfg) (SecretAccessKey cfg) of
       Inl err \<Rightarrow> Inl (Wrap ''load aws config for r2'' err)
     | Inr awsCfg \<Rightarrow> Inr \<lparr>client_DeleteObject = s3_DeleteObject sdk awsCfg True,
         uploader_Upload = manager_Upload sdk awsCfg True, bucketName = BucketName cfg\<rparr>)"

definition R2_PutObject :: "'w R2Client \<Rightarrow> PutObjectInput \<Rightarrow> ('w, error, unit) io" where
  "R2_PutObject c input =
    tryE (uploader_Upload c (bucketName c) (Key input) (Body input) (put_ContentType input))
      (Wrap ''put object to r2'') (\<lambda>_. State_Monad.return (Inr ()))"

definition R2_DeleteObject :: "'w R2Client \<Rightarrow> string \<Rightarrow> ('w, error, unit) io" where
  "R2_DeleteObject c key =
    tryE (client_DeleteObject c (bucketName c) key)
      (Wrap ''delete object from r2'') (\<lambda>_. State_Monad.return (Inr ()))"

definition R2Storage :: "'w R2Client \<Rightarrow> 'w ObjectStorage" where
  "R2Storage c = \<lparr>PutObject = R2_PutObject c, DeleteObject = R2_DeleteObject c\<rparr>"

text \<open>
  What the S3 API documents: a successful upload stores the object under its key, replacing what was
  there, a successful delete removes it and also succeeds when there is none; a failed call may or may
  not have reached the service. Its errors are none of this program's.
\<close>

locale s3_service =
  fixes c :: "'w R2Client"
    and bkt :: "'w \<Rightarrow> string \<Rightarrow> bucket"
    and s3_up :: "'w \<Rightarrow> bool"
  assumes Upload_ok: "run_state (uploader_Upload c b k body t) w = (Inr u, w') \<Longrightarrow>
      bkt w' = (bkt w)(b := (bkt w b)(k \<mapsto> (body, t)))"
    and Upload_err: "run_state (uploader_Upload c b k body t) w = (Inl e, w') \<Longrightarrow>
      (bkt w' = bkt w \<or> bkt w' = (bkt w)(b := (bkt w b)(k \<mapsto> (body, t)))) \<and> (\<exists>o'. e = outside_error o')"
    and DeleteObject_ok: "run_state (client_DeleteObject c b k) w = (Inr u, w') \<Longrightarrow>
      bkt w' = (bkt w)(b := (bkt w b)(k := None))"
    and DeleteObject_err: "run_state (client_DeleteObject c b k) w = (Inl e, w') \<Longrightarrow>
      (bkt w' = bkt w \<or> bkt w' = (bkt w)(b := (bkt w b)(k := None))) \<and> (\<exists>o'. e = outside_error o')"
    and Upload_up: "s3_up w \<Longrightarrow> \<exists>w'. run_state (uploader_Upload c b k body t) w = (Inr (), w') \<and> s3_up w'"
    and DeleteObject_up: "s3_up w \<Longrightarrow> \<exists>w'. run_state (client_DeleteObject c b k) w = (Inr (), w') \<and> s3_up w'"

sublocale s3_service \<subseteq> r2: object_storage "R2Storage c" "\<lambda>w. bkt w (bucketName c)" s3_up
proof (unfold_locales, goal_cases)
  case (1 input w u w') then show ?case
    by (auto simp: R2Storage_def R2_PutObject_def split: prod.splits sum.splits dest: Upload_ok)
next
  case (2 input w e w') then show ?case
    by (auto simp: R2Storage_def R2_PutObject_def split: prod.splits sum.splits dest!: Upload_err)
next
  case (3 input w e w') then show ?case
    by (auto simp: R2Storage_def R2_PutObject_def split: prod.splits sum.splits dest!: Upload_err)
next
  case (4 key w u w') then show ?case
    by (auto simp: R2Storage_def R2_DeleteObject_def split: prod.splits sum.splits dest: DeleteObject_ok)
next
  case (5 key w e w') then show ?case
    by (auto simp: R2Storage_def R2_DeleteObject_def split: prod.splits sum.splits dest!: DeleteObject_err)
next
  case (6 w input)
  then obtain w' where "run_state (uploader_Upload c (bucketName c) (Key input) (Body input) (put_ContentType input)) w
      = (Inr (), w')" "s3_up w'"
    using Upload_up by blast
  then show ?case by (simp add: R2Storage_def R2_PutObject_def)
next
  case (7 w key)
  then obtain w' where "run_state (client_DeleteObject c (bucketName c) key) w = (Inr (), w')" "s3_up w'"
    using DeleteObject_up by blast
  then show ?case by (simp add: R2Storage_def R2_DeleteObject_def)
qed

end
