(* ===== verification/Cloudflare.thy ===== *)
theory Cloudflare
  imports Repository
begin

text \<open>
  \<^verbatim>\<open>internal/cloudflare/purger.go\<close>. The HTTP client is a parameter of the model (the field
  \<open>httpClient_Do\<close>), and so are URL parsing (\<open>url_error\<close>) and the decoding of a JSON reply
  (\<open>json_Unmarshal\<close>). The request body is the Go value that \<^verbatim>\<open>json.Marshal\<close> encodes; encoding a struct
  of strings cannot fail.
\<close>

record 'w Purger =
  PurgeURLs :: "string list \<Rightarrow> ('w, error, unit) io"

record purgeRequest =
  req_Method :: string
  req_URL :: string
  req_Header :: "(string \<times> string) list"
  req_Files :: "string list"

record purgeReply =
  StatusCode :: int
  resp_Body :: "error + bytes"

record purgeResponseBody =
  Success :: bool
  Errors :: "(int \<times> string) list"

record 'w cf_Client =
  zoneID :: string
  apiToken :: string
  httpClient_Do :: "purgeRequest \<Rightarrow> ('w, error, purgeReply) io"
  url_error :: "string \<Rightarrow> error option"
  json_Unmarshal :: "bytes \<Rightarrow> error + purgeResponseBody"

definition cf_NewClient ::
  "(purgeRequest \<Rightarrow> ('w, error, purgeReply) io) \<Rightarrow> (string \<Rightarrow> error option) \<Rightarrow> (bytes \<Rightarrow> error + purgeResponseBody)
    \<Rightarrow> string \<Rightarrow> string \<Rightarrow> 'w cf_Client" where
  "cf_NewClient do_request check_url unmarshal zone token = \<lparr>zoneID = zone, apiToken = token,
     httpClient_Do = do_request, url_error = check_url, json_Unmarshal = unmarshal\<rparr>"

definition purge_endpoint :: "string \<Rightarrow> string" where
  "purge_endpoint zone = ''https://api.cloudflare.com/client/v4/zones/'' @ zone @ ''/purge_cache''"

definition maxBodyPreview :: nat where
  "maxBodyPreview = 500"

definition check_purge_reply :: "'w cf_Client \<Rightarrow> purgeReply \<Rightarrow> error + unit" where
  "check_purge_reply c resp =
    (case resp_Body resp of
       Inl err \<Rightarrow> Inl (Wrap ''read purge response'' err)
     | Inr body \<Rightarrow>
         if StatusCode resp < 200 \<or> StatusCode resp \<ge> 300
         then Inl (Errorf (''cloudflare purge failed with HTTP status '' @ show_int (StatusCode resp) @ '': ''
                @ (if length body > maxBodyPreview then take maxBodyPreview body else body)))
         else case json_Unmarshal c body of
             Inl err \<Rightarrow> Inl (Wrap (''decode purge response (HTTP '' @ show_int (StatusCode resp) @ '')'') err)
           | Inr parsed \<Rightarrow>
               if Success parsed then Inr ()
               else case Errors parsed of
                   (_, msg) # _ \<Rightarrow> Inl (Errorf (''cloudflare purge failed: '' @ msg))
                 | [] \<Rightarrow> Inl (Errorf (''cloudflare purge failed with status '' @ show_int (StatusCode resp))))"

definition purge_request :: "'w cf_Client \<Rightarrow> string list \<Rightarrow> purgeRequest" where
  "purge_request c urls = \<lparr>req_Method = ''POST'', req_URL = purge_endpoint (zoneID c),
     req_Header = [(''Content-Type'', ''application/json''), (''Authorization'', ''Bearer '' @ apiToken c)],
     req_Files = urls\<rparr>"

definition cf_PurgeURLs :: "'w cf_Client \<Rightarrow> string list \<Rightarrow> ('w, error, unit) io" where
  "cf_PurgeURLs c urls =
    (if urls = [] then State_Monad.return (Inr ())
     else case url_error c (purge_endpoint (zoneID c)) of
         Some err \<Rightarrow> State_Monad.return (Inl (Wrap ''build purge request'' err))
       | None \<Rightarrow>
           tryE (httpClient_Do c (purge_request c urls)) (Wrap ''purge cache request failed'') (\<lambda>resp.
           State_Monad.return (check_purge_reply c resp)))"

definition CloudflarePurger :: "'w cf_Client \<Rightarrow> 'w Purger" where
  "CloudflarePurger c = \<lparr>PurgeURLs = cf_PurgeURLs c\<rparr>"

text \<open>A purge succeeds only if Cloudflare answered 2xx with a body that says so.\<close>

lemma check_purge_reply_ok:
  "check_purge_reply c resp = Inr u \<longleftrightarrow>
    200 \<le> StatusCode resp \<and> StatusCode resp < 300 \<and>
    (\<exists>body parsed. resp_Body resp = Inr body \<and> json_Unmarshal c body = Inr parsed \<and> Success parsed)"
  by (auto simp: check_purge_reply_def split: sum.splits list.splits if_splits)

lemma cf_PurgeURLs_world:
  assumes "\<And>req w res w'. run_state (httpClient_Do c req) w = (res, w') \<Longrightarrow> P w w'"
    and "\<And>w. P w w"
    and "run_state (cf_PurgeURLs c urls) w = (res, w')"
  shows "P w w'"
  using assms(3)
  by (auto simp: cf_PurgeURLs_def assms(2) split: if_splits option.splits prod.splits sum.splits dest: assms(1))

end
