(* ===== verification/Backend.thy ===== *)
theory Backend
  imports Repo_Files Storage Cloudflare
begin

text \<open>
  The three interfaces the file components use together. \<open>file_backend\<close> joins their contracts and adds
  that each leaves the others' state alone; the lemmas of the upload service, the file service and the
  sweeper are proved in it. \<open>outside_services\<close> is what the program's own implementations (the Postgres
  repository, the R2 client, the Cloudflare client) need of the services outside it, and the sublocale
  below shows that they then form a \<open>file_backend\<close>.
\<close>

locale file_backend =
  file_repository repo rows up + object_storage sto objs sto_up
  for repo :: "'w FileRepository" and rows up
    and sto :: "'w ObjectStorage" and objs sto_up +
  fixes purger :: "'w Purger option"
  assumes repo_keeps:
      "preserves (same objs) (Insert repo r)" "preserves (same objs) (FindActiveByChecksum repo c now)"
      "preserves (same objs) (FindByID repo i)" "preserves (same objs) (DeleteByID repo i)"
      "preserves (same objs) (FindExpired repo cutoff limit)"
    and repo_keeps_up:
      "preserves (same sto_up) (Insert repo r)" "preserves (same sto_up) (FindActiveByChecksum repo c now)"
      "preserves (same sto_up) (FindByID repo i)" "preserves (same sto_up) (DeleteByID repo i)"
      "preserves (same sto_up) (FindExpired repo cutoff limit)"
    and sto_keeps:
      "preserves (same rows) (PutObject sto input)" "preserves (same rows) (DeleteObject sto key)"
      "preserves (same up) (PutObject sto input)" "preserves (same up) (DeleteObject sto key)"
    and purge_keeps: "purger = Some p \<Longrightarrow> preserves (same rows) (PurgeURLs p urls)"
      "purger = Some p \<Longrightarrow> preserves (same objs) (PurgeURLs p urls)"
      "purger = Some p \<Longrightarrow> preserves (same up) (PurgeURLs p urls)"
      "purger = Some p \<Longrightarrow> preserves (same sto_up) (PurgeURLs p urls)"
begin

lemma repo_objs:
  "run_state (Insert repo r) w = (x1, w') \<Longrightarrow> objs w' = objs w"
  "run_state (FindActiveByChecksum repo c now) w = (x2, w') \<Longrightarrow> objs w' = objs w"
  "run_state (FindByID repo i) w = (x3, w') \<Longrightarrow> objs w' = objs w"
  "run_state (DeleteByID repo i) w = (x4, w') \<Longrightarrow> objs w' = objs w"
  "run_state (FindExpired repo cutoff limit) w = (x5, w') \<Longrightarrow> objs w' = objs w"
  by (rule sameD, erule preservesD [rotated], rule repo_keeps)+

lemma repo_sto_up:
  "run_state (Insert repo r) w = (x1, w') \<Longrightarrow> sto_up w' = sto_up w"
  "run_state (FindActiveByChecksum repo c now) w = (x2, w') \<Longrightarrow> sto_up w' = sto_up w"
  "run_state (FindByID repo i) w = (x3, w') \<Longrightarrow> sto_up w' = sto_up w"
  "run_state (DeleteByID repo i) w = (x4, w') \<Longrightarrow> sto_up w' = sto_up w"
  "run_state (FindExpired repo cutoff limit) w = (x5, w') \<Longrightarrow> sto_up w' = sto_up w"
  by (rule sameD, erule preservesD [rotated], rule repo_keeps_up)+

lemma sto_rows:
  "run_state (PutObject sto input) w = (x1, w') \<Longrightarrow> rows w' = rows w"
  "run_state (DeleteObject sto key) w = (x2, w') \<Longrightarrow> rows w' = rows w"
  "run_state (PutObject sto input) w = (x1, w') \<Longrightarrow> up w' = up w"
  "run_state (DeleteObject sto key) w = (x2, w') \<Longrightarrow> up w' = up w"
  by (rule sameD, erule preservesD [rotated], rule sto_keeps)+

lemma purge_same:
  assumes "purger = Some p" and "run_state (PurgeURLs p urls) w = (res, w')"
  shows "rows w' = rows w" "objs w' = objs w" "up w' = up w" "sto_up w' = sto_up w"
  by (rule sameD, rule preservesD [OF _ assms(2)], rule purge_keeps [OF assms(1)])+

end

section \<open>The program's own backend\<close>

lemma more_faults [simp]: "pg.more (w\<lparr>db_faults := fs\<rparr>) = pg.more w" by simp

text \<open>A database method changes nothing but the database.\<close>

lemma pg_methods_more:
  "preserves (same pg.more) (pg_Insert r)"
  "preserves (same pg.more) (pg_FindActiveByChecksum c now)"
  "preserves (same pg.more) (pg_FindByID i)"
  "preserves (same pg.more) (pg_DeleteByID i)"
  "preserves (same pg.more) (pg_FindExpired cutoff limit)"
  unfolding pg_Insert_def pg_FindActiveByChecksum_def pg_FindByID_def pg_DeleteByID_def pg_FindExpired_def
    find_expired_tx_def pgScanFileRecord_def
  by (auto intro!: frame same_modify
      simp: insert_file_stmt_def delete_file_stmt_def select_expired_stmt_def Let_def split: if_splits)

lemma same_truncate:
  assumes "preserves (same pg.truncate) m"
  shows "preserves (same files) m" and "preserves (same pg_up) m"
proof -
  have *: "pg.truncate w' = pg.truncate w" if "run_state m w = (r, w')" for w r w'
    using preservesD [OF assms that] by (simp add: same_def)
  have "files w' = files w \<and> db_faults w' = db_faults w \<and> file_locks w' = file_locks w"
    if "run_state m w = (r, w')" for w r w'
    using * [OF that] by (simp add: pg.truncate_def pg.defs)
  then show "preserves (same files) m" "preserves (same pg_up) m"
    by (auto simp: preserves_def same_def pg_up_def)
qed

text \<open>
  The world of the program: the database, and in the record's extension the rest, of which \<open>bkt\<close> reads
  the buckets. No call to a service outside touches the database; the calls to Cloudflare do not touch
  the buckets.
\<close>

locale outside_services =
  s3_service r2 "\<lambda>w. bkt (pg.more w)" "\<lambda>w. s3_up (pg.more w)"
  for r2 :: "('x pg_scheme) R2Client" and bkt :: "'x \<Rightarrow> string \<Rightarrow> bucket" and s3_up +
  fixes cf :: "('x pg_scheme) cf_Client option"
  assumes s3_keeps: "preserves (same pg.truncate) (uploader_Upload r2 b k body t)"
      "preserves (same pg.truncate) (client_DeleteObject r2 b k)"
    and cf_keeps: "cf = Some c \<Longrightarrow> preserves (same pg.truncate) (httpClient_Do c req)"
      "cf = Some c \<Longrightarrow> preserves (same (\<lambda>w. bkt (pg.more w))) (httpClient_Do c req)"
      "cf = Some c \<Longrightarrow> preserves (same (\<lambda>w. s3_up (pg.more w))) (httpClient_Do c req)"

lemma same_cf:
  "(\<And>req. preserves (same f) (httpClient_Do c req)) \<Longrightarrow> preserves (same f) (cf_PurgeURLs c urls)"
  unfolding cf_PurgeURLs_def by (auto intro!: frame split: option.split)

abbreviation R2Objects :: "'w R2Client \<Rightarrow> ('x \<Rightarrow> string \<Rightarrow> bucket) \<Rightarrow> 'x pg_scheme \<Rightarrow> bucket" where
  "R2Objects r2 bkt w \<equiv> bkt (pg.more w) (bucketName r2)"

sublocale outside_services \<subseteq> own: file_backend PostgresFiles files pg_up "R2Storage r2"
  "R2Objects r2 bkt" "\<lambda>w. s3_up (pg.more w)" "map_option CloudflarePurger cf"
proof unfold_locales
  have R2: "preserves (same pg.truncate) (PutObject (R2Storage r2) input)"
    "preserves (same pg.truncate) (DeleteObject (R2Storage r2) key)" for input key
    by (auto simp: R2Storage_def R2_PutObject_def R2_DeleteObject_def intro!: frame s3_keeps)
  show "preserves (same files) (PutObject (R2Storage r2) input)"
    "preserves (same files) (DeleteObject (R2Storage r2) key)"
    "preserves (same pg_up) (PutObject (R2Storage r2) input)"
    "preserves (same pg_up) (DeleteObject (R2Storage r2) key)" for input key
    by (rule same_truncate, rule R2)+
  fix p urls
  assume "map_option CloudflarePurger cf = Some p"
  then obtain c where c: "cf = Some c" and p: "p = CloudflarePurger c" by auto
  show "preserves (same files) (PurgeURLs p urls)"
    by (auto simp: p CloudflarePurger_def intro!: same_cf same_truncate cf_keeps c)
  show "preserves (same pg_up) (PurgeURLs p urls)"
    by (auto simp: p CloudflarePurger_def intro!: same_cf same_truncate cf_keeps c)
  show "preserves (same (R2Objects r2 bkt)) (PurgeURLs p urls)"
    unfolding p CloudflarePurger_def
    by (auto intro!: same_cf same_comp [where f = "\<lambda>w. bkt (pg.more w)" and g = "\<lambda>b. b (bucketName r2)"] cf_keeps c)
  show "preserves (same (\<lambda>w. s3_up (pg.more w))) (PurgeURLs p urls)"
    by (auto simp: p CloudflarePurger_def intro!: same_cf cf_keeps c)
qed (auto simp: PostgresFiles_def intro!: same_comp [where f = pg.more] pg_methods_more)


context outside_services
begin

text \<open>A call to the storage leaves the database as it is, pending faults included.\<close>

lemma R2_keeps:
  "run_state (PutObject (R2Storage r2) input) w = (x, w') \<Longrightarrow> pg.truncate w' = pg.truncate w"
  "run_state (DeleteObject (R2Storage r2) key) w = (x, w') \<Longrightarrow> pg.truncate w' = pg.truncate w"
proof -
  have "preserves (same pg.truncate) (PutObject (R2Storage r2) input)"
    "preserves (same pg.truncate) (DeleteObject (R2Storage r2) key)"
    by (auto simp: R2Storage_def R2_PutObject_def R2_DeleteObject_def intro!: frame s3_keeps)
  then show
    "run_state (PutObject (R2Storage r2) input) w = (x, w') \<Longrightarrow> pg.truncate w' = pg.truncate w"
    "run_state (DeleteObject (R2Storage r2) key) w = (x, w') \<Longrightarrow> pg.truncate w' = pg.truncate w"
    by (auto dest: preservesD simp: same_def)
qed

lemma backend: "file_backend PostgresFiles files pg_up (R2Storage r2) (R2Objects r2 bkt)
    (\<lambda>w. s3_up (pg.more w)) (map_option CloudflarePurger cf)"
  by (rule own.file_backend_axioms)

end

end
