(* ===== verification/Go_Sniff.thy ===== *)
theory Go_Sniff
  imports Go_Strings
begin

unbundle bit_operations_syntax

text \<open>
  \<^verbatim>\<open>http.DetectContentType\<close>: the signature table of \<^verbatim>\<open>net/http\<close>, in its order, over at most 512
  bytes. The first signature that matches decides; \<^verbatim>\<open>application/octet-stream\<close> is the fallback.
\<close>

datatype sniffSig =
    HtmlSig string
  | MaskedSig bytes bytes bool string
  | ExactSig bytes string
  | Mp4Sig
  | TextSig

definition isWS :: "char \<Rightarrow> bool" where
  "isWS c \<longleftrightarrow> c \<in> set [CHR 0x09, CHR 0x0A, CHR 0x0C, CHR 0x0D, CHR 0x20]"

definition isTT :: "char \<Rightarrow> bool" where
  "isTT c \<longleftrightarrow> c \<in> set [CHR '' '', CHR ''>'']"

definition mask_byte :: "char \<Rightarrow> char \<Rightarrow> char" where
  "mask_byte m c = char_of ((of_char c :: int) AND of_char m)"

text \<open>A letter of the tag is matched in either case: the data byte is masked with \<^verbatim>\<open>0xDF\<close>.\<close>

definition tag_byte :: "char \<Rightarrow> char \<Rightarrow> bool" where
  "tag_byte b d = ((if 65 \<le> (of_char b :: nat) \<and> (of_char b :: nat) \<le> 90
     then mask_byte (CHR 0xDF) d else d) = b)"

definition html_match :: "string \<Rightarrow> bytes \<Rightarrow> bool" where
  "html_match h data \<longleftrightarrow> length h + 1 \<le> length data
     \<and> list_all2 tag_byte h (take (length h) data) \<and> isTT (data ! length h)"

definition masked_match :: "bytes \<Rightarrow> bytes \<Rightarrow> bytes \<Rightarrow> bool" where
  "masked_match msk pat data \<longleftrightarrow> length pat = length msk \<and> length pat \<le> length data
     \<and> map2 mask_byte msk (take (length pat) data) = pat"

text \<open>The brands of an \<^verbatim>\<open>ftyp\<close> box are read four bytes apart, the version number skipped.\<close>

definition box_size :: "bytes \<Rightarrow> nat" where
  "box_size data = ((of_char (data ! 0) * 256 + of_char (data ! 1)) * 256 + of_char (data ! 2)) * 256 + of_char (data ! 3)"

fun mp4_brand :: "nat \<Rightarrow> nat \<Rightarrow> bytes \<Rightarrow> bool" where
  "mp4_brand st boxSize (a # b # c # d # rest) =
    (st < boxSize \<and> ((st \<noteq> 12 \<and> [a, b, c] = ''mp4'') \<or> mp4_brand (st + 4) boxSize rest))"
| "mp4_brand st boxSize _ = False"

definition mp4_match :: "bytes \<Rightarrow> bool" where
  "mp4_match data \<longleftrightarrow> 12 \<le> length data \<and> box_size data \<le> length data \<and> box_size data mod 4 = 0
     \<and> take 4 (drop 4 data) = ''ftyp'' \<and> mp4_brand 8 (box_size data) (drop 8 data)"

definition text_byte :: "char \<Rightarrow> bool" where
  "text_byte c = (let b = (of_char c :: nat)
     in \<not> (b \<le> 0x08 \<or> b = 0x0B \<or> (0x0E \<le> b \<and> b \<le> 0x1A) \<or> (0x1C \<le> b \<and> b \<le> 0x1F)))"

fun sig_match :: "sniffSig \<Rightarrow> bytes \<Rightarrow> nat \<Rightarrow> string option" where
  "sig_match (HtmlSig h) data ws =
    (if html_match h (drop ws data) then Some ''text/html; charset=utf-8'' else None)"
| "sig_match (MaskedSig msk pat skipWS ct) data ws =
    (if masked_match msk pat (if skipWS then drop ws data else data) then Some ct else None)"
| "sig_match (ExactSig sig ct) data ws = (if HasPrefix data sig then Some ct else None)"
| "sig_match Mp4Sig data ws = (if mp4_match data then Some ''video/mp4'' else None)"
| "sig_match TextSig data ws =
    (if list_all text_byte (drop ws data) then Some ''text/plain; charset=utf-8'' else None)"

definition html_tags :: "string list" where
  "html_tags =
    [''<!DOCTYPE HTML'', ''<HTML'', ''<HEAD'', ''<SCRIPT'', ''<IFRAME'', ''<H1'', ''<DIV'', ''<FONT'',
     ''<TABLE'', ''<A'', ''<STYLE'', ''<TITLE'', ''<B'', ''<BODY'', ''<BR'', ''<P'', ''<!--'']"

definition ff :: "nat \<Rightarrow> bytes" where
  "ff n = replicate n (CHR 0xFF)"

definition zz :: "nat \<Rightarrow> bytes" where
  "zz n = replicate n (CHR 0x00)"

definition binary_sigs :: "sniffSig list" where
  "binary_sigs =
    [MaskedSig (ff 5) ''<?xml'' True ''text/xml; charset=utf-8'',
     ExactSig ''%PDF-'' ''application/pdf'',
     ExactSig ''%!PS-Adobe-'' ''application/postscript'',
     MaskedSig (ff 2 @ zz 2) ([CHR 0xFE, CHR 0xFF] @ zz 2) False ''text/plain; charset=utf-16be'',
     MaskedSig (ff 2 @ zz 2) ([CHR 0xFF, CHR 0xFE] @ zz 2) False ''text/plain; charset=utf-16le'',
     MaskedSig (ff 3 @ zz 1) ([CHR 0xEF, CHR 0xBB, CHR 0xBF] @ zz 1) False ''text/plain; charset=utf-8'',
     ExactSig (zz 2 @ [CHR 0x01] @ zz 1) ''image/x-icon'',
     ExactSig (zz 2 @ [CHR 0x02] @ zz 1) ''image/x-icon'',
     ExactSig ''BM'' ''image/bmp'',
     ExactSig ''GIF87a'' ''image/gif'',
     ExactSig ''GIF89a'' ''image/gif'',
     MaskedSig (ff 4 @ zz 4 @ ff 6) (''RIFF'' @ zz 4 @ ''WEBPVP'') False ''image/webp'',
     ExactSig ([CHR 0x89] @ ''PNG'' @ [CHR 0x0D, CHR 0x0A, CHR 0x1A, CHR 0x0A]) ''image/png'',
     ExactSig [CHR 0xFF, CHR 0xD8, CHR 0xFF] ''image/jpeg'',
     MaskedSig (ff 4 @ zz 4 @ ff 4) (''FORM'' @ zz 4 @ ''AIFF'') False ''audio/aiff'',
     MaskedSig (ff 3) ''ID3'' False ''audio/mpeg'',
     MaskedSig (ff 5) (''OggS'' @ zz 1) False ''application/ogg'',
     MaskedSig (ff 8) (''MThd'' @ zz 3 @ [CHR 0x06]) False ''audio/midi'',
     MaskedSig (ff 4 @ zz 4 @ ff 4) (''RIFF'' @ zz 4 @ ''AVI '') False ''video/avi'',
     MaskedSig (ff 4 @ zz 4 @ ff 4) (''RIFF'' @ zz 4 @ ''WAVE'') False ''audio/wave'',
     Mp4Sig,
     ExactSig [CHR 0x1A, CHR 0x45, CHR 0xDF, CHR 0xA3] ''video/webm'',
     MaskedSig (zz 34 @ ff 2) (zz 34 @ ''LP'') False ''application/vnd.ms-fontobject'',
     ExactSig (zz 1 @ [CHR 0x01] @ zz 2) ''font/ttf'',
     ExactSig ''OTTO'' ''font/otf'',
     ExactSig ''ttcf'' ''font/collection'',
     ExactSig ''wOFF'' ''font/woff'',
     ExactSig ''wOF2'' ''font/woff2'',
     ExactSig [CHR 0x1F, CHR 0x8B, CHR 0x08] ''application/x-gzip'',
     ExactSig (''PK'' @ [CHR 0x03, CHR 0x04]) ''application/zip'',
     ExactSig (''Rar!'' @ [CHR 0x1A, CHR 0x07, CHR 0x00]) ''application/x-rar-compressed'',
     ExactSig (''Rar!'' @ [CHR 0x1A, CHR 0x07, CHR 0x01, CHR 0x00]) ''application/x-rar-compressed'',
     ExactSig (zz 1 @ ''asm'') ''application/wasm'']"

definition sniffSignatures :: "sniffSig list" where
  "sniffSignatures = map HtmlSig html_tags @ binary_sigs @ [TextSig]"

fun first_match :: "sniffSig list \<Rightarrow> bytes \<Rightarrow> nat \<Rightarrow> string" where
  "first_match [] data ws = ''application/octet-stream''"
| "first_match (s # sigs) data ws =
    (case sig_match s data ws of None \<Rightarrow> first_match sigs data ws | Some ct \<Rightarrow> ct)"

definition sniffLen :: nat where
  "sniffLen = 512"

definition DetectContentType :: "bytes \<Rightarrow> string" where
  "DetectContentType bs =
    (let data = take sniffLen bs in first_match sniffSignatures data (length (takeWhile isWS data)))"

section \<open>Facts\<close>

text \<open>Only the first 512 bytes count.\<close>

lemma DetectContentType_take: "DetectContentType (take sniffLen bs) = DetectContentType bs"
  by (simp add: DetectContentType_def)

lemma first_match_append:
  "\<forall>s \<in> set sigs. sig_match s data ws = None \<Longrightarrow> first_match (sigs @ sigs') data ws = first_match sigs' data ws"
  by (induction sigs) auto

text \<open>The HTML signatures come first: an opening HTML tag decides whatever follows it.\<close>

definition looks_like_html :: "bytes \<Rightarrow> bool" where
  "looks_like_html bs \<longleftrightarrow> list_ex (\<lambda>h. html_match h (dropWhile isWS (take sniffLen bs))) html_tags"

lemma first_match_html:
  "list_ex (\<lambda>h. html_match h (drop ws data)) hs \<Longrightarrow>
    first_match (map HtmlSig hs @ sigs) data ws = ''text/html; charset=utf-8''"
  by (induction hs) auto

lemma DetectContentType_html:
  "looks_like_html bs \<Longrightarrow> DetectContentType bs = ''text/html; charset=utf-8''"
  unfolding DetectContentType_def looks_like_html_def sniffSignatures_def Let_def
  by (rule first_match_html) (simp add: dropWhile_eq_drop)

text \<open>The only types sniffing can report.\<close>

fun sig_type :: "sniffSig \<Rightarrow> string" where
  "sig_type (HtmlSig h) = ''text/html; charset=utf-8''"
| "sig_type (MaskedSig msk pat skipWS ct) = ct"
| "sig_type (ExactSig sig ct) = ct"
| "sig_type Mp4Sig = ''video/mp4''"
| "sig_type TextSig = ''text/plain; charset=utf-8''"

lemma sig_match_type: "sig_match s data ws = Some ct \<Longrightarrow> ct = sig_type s"
  by (cases s) (auto split: if_splits)

lemma first_match_types: "first_match sigs data ws \<in> insert ''application/octet-stream'' (sig_type ` set sigs)"
  by (induction sigs) (auto split: option.splits dest: sig_match_type)

definition sniffed_types :: "string set" where
  "sniffed_types = insert ''application/octet-stream'' (sig_type ` set sniffSignatures)"

lemma DetectContentType_types: "DetectContentType bs \<in> sniffed_types"
  using first_match_types unfolding DetectContentType_def sniffed_types_def Let_def by blast

end
