(* ===== verification/Validator.thy ===== *)
theory Validator
  imports Go_Sniff Errors Model
begin

text \<open>
  \<^verbatim>\<open>internal/upload/validator.go\<close>. The validator is one atomic pointer to its rules, so its state is the
  rules; \<open>uni\<close> is the part of \<^verbatim>\<open>strings.ToLower\<close> that needs the Unicode tables.
\<close>

record validatorRules =
  maxSizeBytes :: int
  allowedMimeTypes :: "string slice"
  blockedExtensions :: "string slice"

definition Validator_Update :: "int \<Rightarrow> string slice \<Rightarrow> string slice \<Rightarrow> validatorRules \<Rightarrow> validatorRules" where
  "Validator_Update maxSize allowed blocked rules =
    \<lparr>maxSizeBytes = maxSize, allowedMimeTypes = append_nil allowed, blockedExtensions = append_nil blocked\<rparr>"

definition NewValidator :: "int \<Rightarrow> string slice \<Rightarrow> string slice \<Rightarrow> validatorRules" where
  "NewValidator maxSize allowed blocked = Validator_Update maxSize allowed blocked
     \<lparr>maxSizeBytes = 0, allowedMimeTypes = None, blockedExtensions = None\<rparr>"

definition Snapshot :: "validatorRules \<Rightarrow> int \<times> string slice \<times> string slice" where
  "Snapshot r = (maxSizeBytes r, allowedMimeTypes r, blockedExtensions r)"

definition ValidateSize :: "validatorRules \<Rightarrow> int \<Rightarrow> error option" where
  "ValidateSize r sizeBytes =
    (if sizeBytes \<le> 0 then Some (ValidationError ''file is empty'')
     else if sizeBytes > maxSizeBytes r
       then Some (ValidationError (''file exceeds maximum allowed size of '' @ show_int (maxSizeBytes r) @ '' bytes''))
     else None)"

fun check_blocked :: "(string \<Rightarrow> string) \<Rightarrow> string \<Rightarrow> string \<Rightarrow> string list \<Rightarrow> error option" where
  "check_blocked uni lowerName extension [] = None"
| "check_blocked uni lowerName extension (blocked # rest) =
    (let blockedLower = ToLower uni blocked
     in if blockedLower = extension
          then Some (ValidationError (''file extension '' @ extension @ '' is not allowed''))
        else if Contains lowerName (blockedLower @ ''.'')
          then Some (ValidationError (''filename contains disallowed extension '' @ blockedLower))
        else check_blocked uni lowerName extension rest)"

definition ValidateExtension :: "(string \<Rightarrow> string) \<Rightarrow> validatorRules \<Rightarrow> string \<Rightarrow> error option" where
  "ValidateExtension uni r originalName =
    check_blocked uni (ToLower uni originalName) (ToLower uni (Ext originalName)) (elems (blockedExtensions r))"

definition matchesMimePattern :: "string \<Rightarrow> string \<Rightarrow> bool" where
  "matchesMimePattern pattern mimeType =
    (if pattern = mimeType then True
     else if HasSuffix pattern ''/*'' then HasPrefix mimeType (TrimSuffix pattern ''*'')
     else False)"

fun any_pattern :: "string list \<Rightarrow> string \<Rightarrow> bool" where
  "any_pattern [] mimeType = False"
| "any_pattern (pattern # rest) mimeType =
    (if matchesMimePattern pattern mimeType then True else any_pattern rest mimeType)"

definition isMimeTypeAllowed :: "validatorRules \<Rightarrow> string \<Rightarrow> bool" where
  "isMimeTypeAllowed r mimeType = any_pattern (elems (allowedMimeTypes r)) mimeType"

definition normalized_type :: "bytes \<Rightarrow> string" where
  "normalized_type sniffBuffer = TrimSpace (before (DetectContentType sniffBuffer) (CHR '';''))"

definition DetectAndValidateContentType :: "validatorRules \<Rightarrow> bytes \<Rightarrow> error + string" where
  "DetectAndValidateContentType r sniffBuffer =
    (let normalizedType = normalized_type sniffBuffer
     in if isMimeTypeAllowed r normalizedType then Inr normalizedType
        else Inl (ValidationError (''content type '' @ normalizedType @ '' is not allowed'')))"

section \<open>What the rules decide\<close>

lemma ValidateSize_None: "ValidateSize r n = None \<longleftrightarrow> 0 < n \<and> n \<le> maxSizeBytes r"
  by (auto simp: ValidateSize_def)

lemma ValidateSize_Some: "ValidateSize r n = Some e \<Longrightarrow> \<exists>msg. e = ValidationError msg"
  by (auto simp: ValidateSize_def split: if_splits)

lemma check_blocked_None:
  "check_blocked uni n x bs = None \<longleftrightarrow>
    (\<forall>b \<in> set bs. ToLower uni b \<noteq> x \<and> \<not> Contains n (ToLower uni b @ ''.''))"
  by (induction bs) (auto simp: Let_def)

lemma check_blocked_Some: "check_blocked uni n x bs = Some e \<Longrightarrow> \<exists>msg. e = ValidationError msg"
  by (induction bs) (auto simp: Let_def split: if_splits)

lemma ValidateExtension_Some: "ValidateExtension uni r n = Some e \<Longrightarrow> \<exists>msg. e = ValidationError msg"
  unfolding ValidateExtension_def by (rule check_blocked_Some)

lemma any_pattern_iff: "any_pattern ps t \<longleftrightarrow> (\<exists>p \<in> set ps. matchesMimePattern p t)"
  by (induction ps) auto

lemma matchesMimePattern_iff:
  "matchesMimePattern p t \<longleftrightarrow> p = t \<or> (\<exists>major rest. p = major @ ''/*'' \<and> t = major @ ''/'' @ rest)"
proof (cases "HasSuffix p ''/*''")
  case True
  then obtain major where p: "p = major @ ''/*''" by (auto simp: HasSuffix_iff)
  have "HasSuffix p ''*''" unfolding p by (auto simp: HasSuffix_iff)
  then have "TrimSuffix p ''*'' = major @ ''/''" by (simp add: TrimSuffix_def p)
  then show ?thesis using True p by (auto simp: matchesMimePattern_def HasPrefix_iff)
next
  case False
  then show ?thesis by (auto simp: matchesMimePattern_def HasSuffix_iff)
qed

lemma isMimeTypeAllowed_iff:
  "isMimeTypeAllowed r t \<longleftrightarrow> (\<exists>p \<in> set (elems (allowedMimeTypes r)).
     p = t \<or> (\<exists>major rest. p = major @ ''/*'' \<and> t = major @ ''/'' @ rest))"
  by (simp add: isMimeTypeAllowed_def any_pattern_iff matchesMimePattern_iff)

lemma DetectAndValidate_Inr:
  "DetectAndValidateContentType r b = Inr t \<longleftrightarrow> t = normalized_type b \<and> isMimeTypeAllowed r t"
  by (auto simp: DetectAndValidateContentType_def Let_def)

lemma DetectAndValidate_Inl:
  "DetectAndValidateContentType r b = Inl e \<Longrightarrow> \<exists>msg. e = ValidationError msg"
  by (auto simp: DetectAndValidateContentType_def Let_def split: if_splits)

lemma normalized_html: "looks_like_html b \<Longrightarrow> normalized_type b = ''text/html''"
  unfolding normalized_type_def by (simp only: DetectContentType_html) code_simp

lemma normalized_type_take: "512 \<le> n \<Longrightarrow> normalized_type (take n b) = normalized_type b"
  unfolding normalized_type_def
  by (metis DetectContentType_take sniffLen_def take_take min.absorb1)

lemma Validator_Update_elems [simp]:
  "elems (allowedMimeTypes (Validator_Update n a b r)) = elems a"
  "elems (blockedExtensions (Validator_Update n a b r)) = elems b"
  "maxSizeBytes (Validator_Update n a b r) = n"
  by (simp_all add: Validator_Update_def)

end
