(* ===== verification/Go_IO.thy ===== *)
theory Go_IO
  imports Errors
begin

text \<open>
  \<^verbatim>\<open>io.Reader\<close> and the functions of package \<^verbatim>\<open>io\<close> the upload uses. A reader is the list of chunks
  it has still to hand out, in the sizes the network happens to deliver, and the error it ends with
  (\<^verbatim>\<open>io.EOF\<close>, or why the body broke off). One \<^verbatim>\<open>Read\<close> gives at most one chunk.
\<close>

record reader =
  pending :: "bytes list"
  at_end :: error

definition Read :: "nat \<Rightarrow> reader \<Rightarrow> bytes \<times> error option \<times> reader" where
  "Read n r = (case pending r of
     [] \<Rightarrow> ([], Some (at_end r), r)
   | c # cs \<Rightarrow> (take n c, None, r\<lparr>pending := (if length c \<le> n then cs else drop n c # cs)\<rparr>))"

definition content :: "reader \<Rightarrow> bytes" where
  "content r = concat (pending r)"

text \<open>What is left to read, for termination: every chunk counts once more than its bytes.\<close>

definition left :: "reader \<Rightarrow> nat" where
  "left r = sum_list (map (\<lambda>c. Suc (length c)) (pending r))"

lemma Read_left: "Read n r = (bs, None, r') \<Longrightarrow> 0 < n \<Longrightarrow> left r' < left r"
  by (auto simp: Read_def left_def split: list.splits if_splits)

lemma Read_content: "Read n r = (bs, err, r') \<Longrightarrow> bs @ content r' = content r"
  by (auto simp: Read_def content_def split: list.splits if_splits)

lemma Read_at_end: "Read n r = (bs, err, r') \<Longrightarrow> at_end r' = at_end r"
  by (auto simp: Read_def split: list.splits)

lemma Read_Some: "Read n r = (bs, Some e, r') \<Longrightarrow> bs = [] \<and> e = at_end r \<and> r' = r \<and> content r = []"
  by (auto simp: Read_def content_def split: list.splits)

text \<open>\<^verbatim>\<open>io.ReadFull\<close> is \<^verbatim>\<open>ReadAtLeast\<close> with the whole buffer.\<close>

function read_loop :: "nat \<Rightarrow> bytes \<Rightarrow> reader \<Rightarrow> bytes \<times> error option \<times> reader" where
  "read_loop n acc r =
    (if n \<le> length acc then (acc, None, r)
     else case Read (n - length acc) r of
         (bs, None, r') \<Rightarrow> read_loop n (acc @ bs) r'
       | (bs, Some e, r') \<Rightarrow> (acc @ bs, Some e, r'))"
  by auto
termination
  by (relation "measure (\<lambda>(n, acc, r). left r)") (auto dest!: Read_left [OF sym])

declare read_loop.simps [simp del]

definition ReadFull :: "nat \<Rightarrow> reader \<Rightarrow> bytes \<times> error option \<times> reader" where
  "ReadFull n r =
    (let (buf, err, r') = read_loop n [] r
     in (buf, if n \<le> length buf then None
              else if buf \<noteq> [] \<and> err = Some ErrEOF then Some ErrUnexpectedEOF else err, r'))"

text \<open>\<^verbatim>\<open>io.MultiReader(bytes.NewReader(head), r)\<close>.\<close>

definition MultiReader :: "bytes \<Rightarrow> reader \<Rightarrow> reader" where
  "MultiReader head r = r\<lparr>pending := (if head = [] then pending r else head # pending r)\<rparr>"

lemma content_MultiReader [simp]: "content (MultiReader head r) = head @ content r"
  by (simp add: content_def MultiReader_def)

lemma at_end_MultiReader [simp]: "at_end (MultiReader head r) = at_end r"
  by (simp add: MultiReader_def)

lemma read_loop_spec:
  assumes "read_loop n acc r = (buf, err, r')" and "length acc \<le> n"
  shows "buf @ content r' = acc @ content r \<and> at_end r' = at_end r \<and> length buf \<le> n \<and>
    (err = None \<longrightarrow> length buf = n) \<and> (err \<noteq> None \<longrightarrow> err = Some (at_end r) \<and> content r' = [] \<and> length buf < n)"
  using assms
proof (induction n acc r arbitrary: buf err r' rule: read_loop.induct)
  case (1 n acc r)
  show ?case
  proof (cases "n \<le> length acc")
    case True
    then show ?thesis using "1.prems" by (simp add: read_loop.simps)
  next
    case False
    obtain bs e r1 where rd: "Read (n - length acc) r = (bs, e, r1)" by (cases "Read (n - length acc) r") auto
    have len: "length bs \<le> n - length acc"
      using rd by (auto simp: Read_def split: list.splits)
    show ?thesis
    proof (cases e)
      case None
      have "read_loop n (acc @ bs) r1 = (buf, err, r')"
        using "1.prems"(1) False rd None by (simp add: read_loop.simps [of n acc r])
      then have "buf @ content r' = (acc @ bs) @ content r1 \<and> at_end r' = at_end r1 \<and> length buf \<le> n \<and>
        (err = None \<longrightarrow> length buf = n) \<and> (err \<noteq> None \<longrightarrow> err = Some (at_end r1) \<and> content r' = [] \<and> length buf < n)"
        using False len rd None by (intro "1.IH" [OF False rd [symmetric] refl]) auto
      then show ?thesis using Read_content [OF rd] Read_at_end [OF rd] by auto
    next
      case (Some x)
      note end_read = Read_Some [OF rd [unfolded Some]]
      show ?thesis using Some "1.prems" False rd end_read
        by (auto simp: read_loop.simps [of n acc r])
    qed
  qed
qed

text \<open>\<^verbatim>\<open>ReadFull\<close> gives the first \<open>n\<close> bytes however the reader cuts its chunks.\<close>

lemma ReadFull_spec:
  assumes "ReadFull n r = (buf, err, r')"
  shows "buf = take n (content r)" and "content r' = drop n (content r)" and "at_end r' = at_end r"
    and "err = (if n \<le> length (content r) then None
      else if content r \<noteq> [] \<and> at_end r = ErrEOF then Some ErrUnexpectedEOF else Some (at_end r))"
proof -
  obtain b e r1 where rl: "read_loop n [] r = (b, e, r1)" by (cases "read_loop n [] r") auto
  have spec: "b @ content r1 = content r" "at_end r1 = at_end r"
    "e = None \<longrightarrow> length b = n" "e \<noteq> None \<longrightarrow> e = Some (at_end r) \<and> content r1 = [] \<and> length b < n"
    using read_loop_spec [OF rl] by auto
  have eqs: "buf = b" "r' = r1" "err = (if n \<le> length b then None
      else if b \<noteq> [] \<and> e = Some ErrEOF then Some ErrUnexpectedEOF else e)"
    using assms rl by (auto simp: ReadFull_def)
  note c = spec(1) [symmetric]
  show "buf = take n (content r)" "content r' = drop n (content r)" "at_end r' = at_end r"
    unfolding c eqs using spec(2-4) by (cases e; simp)+
  show "err = (if n \<le> length (content r) then None
      else if content r \<noteq> [] \<and> at_end r = ErrEOF then Some ErrUnexpectedEOF else Some (at_end r))"
    unfolding c eqs using spec(2-4) by (cases e) auto
qed

end
