(* ===== verification/Go_Crypto.thy ===== *)
theory Go_Crypto
  imports Go_Strings
begin

unbundle bit_operations_syntax

text \<open>
  \<^verbatim>\<open>encoding/hex\<close> and \<^verbatim>\<open>crypto/sha256\<close>. SHA-256 is written out on 32-bit words, so the digests
  the code stores are the real ones and no property of hashing is assumed.
\<close>

section \<open>Hexadecimal\<close>

definition hex_digit :: "nat \<Rightarrow> char" where
  "hex_digit n = (''0123456789abcdef'' ! n)"

definition hex_byte :: "char \<Rightarrow> string" where
  "hex_byte c = [hex_digit (of_char c div 16), hex_digit (of_char c mod 16)]"

definition EncodeToString :: "bytes \<Rightarrow> string" where
  "EncodeToString bs = concat (map hex_byte bs)"

lemma length_EncodeToString [simp]: "length (EncodeToString bs) = 2 * length bs"
  by (induction bs) (simp_all add: EncodeToString_def hex_byte_def)

lemma EncodeToString_eq_Nil [simp]: "EncodeToString bs = [] \<longleftrightarrow> bs = []"
  by (cases bs) (simp_all add: EncodeToString_def hex_byte_def)

lemma hex_digit_inj: "m < 16 \<Longrightarrow> n < 16 \<Longrightarrow> hex_digit m = hex_digit n \<longleftrightarrow> m = n"
  unfolding hex_digit_def by (rule nth_eq_iff_index_eq) simp_all

lemma hex_byte_inj [simp]: "hex_byte c = hex_byte d \<longleftrightarrow> c = d"
proof
  assume eq: "hex_byte c = hex_byte d"
  have lt: "(of_char x :: nat) div 16 < 16" for x
    by (rule less_mult_imp_div_less) simp
  have "(of_char c :: nat) div 16 = of_char d div 16"
    using eq lt by (simp add: hex_byte_def hex_digit_inj)
  moreover have "(of_char c :: nat) mod 16 = of_char d mod 16"
    using eq by (simp add: hex_byte_def hex_digit_inj)
  ultimately have "(of_char c :: nat) = of_char d"
    by (metis div_mult_mod_eq)
  then show "c = d" by simp
qed simp

lemma EncodeToString_simps [simp]:
  "EncodeToString [] = []"
  "EncodeToString (b # bs) = hex_byte b @ EncodeToString bs"
  by (simp_all add: EncodeToString_def)

lemma length_hex_byte [simp]: "length (hex_byte b) = 2"
  by (simp add: hex_byte_def)

lemma EncodeToString_inj [simp]: "EncodeToString as = EncodeToString bs \<longleftrightarrow> as = bs"
proof (induction as bs rule: list_induct2')
  case (4 a as b bs)
  have "EncodeToString (a # as) = EncodeToString (b # bs)
      \<longleftrightarrow> hex_byte a = hex_byte b \<and> EncodeToString as = EncodeToString bs"
    unfolding EncodeToString_simps by (rule append_eq_append_conv) simp
  with 4 show ?case by simp
qed (simp_all add: hex_byte_def)

section \<open>SHA-256\<close>

type_synonym u32 = "32 word"

definition Ch :: "u32 \<Rightarrow> u32 \<Rightarrow> u32 \<Rightarrow> u32" where
  "Ch x y z = (x AND y) XOR (NOT x AND z)"

definition Maj :: "u32 \<Rightarrow> u32 \<Rightarrow> u32 \<Rightarrow> u32" where
  "Maj x y z = (x AND y) XOR (x AND z) XOR (y AND z)"

definition rotr :: "nat \<Rightarrow> u32 \<Rightarrow> u32" where
  "rotr n x = drop_bit n x OR push_bit (32 - n) x"

definition Sigma0 :: "u32 \<Rightarrow> u32" where
  "Sigma0 x = rotr 2 x XOR rotr 13 x XOR rotr 22 x"

definition Sigma1 :: "u32 \<Rightarrow> u32" where
  "Sigma1 x = rotr 6 x XOR rotr 11 x XOR rotr 25 x"

definition sigma0 :: "u32 \<Rightarrow> u32" where
  "sigma0 x = rotr 7 x XOR rotr 18 x XOR drop_bit 3 x"

definition sigma1 :: "u32 \<Rightarrow> u32" where
  "sigma1 x = rotr 17 x XOR rotr 19 x XOR drop_bit 10 x"

definition round_constants :: "u32 list" where
  "round_constants =
    [1116352408, 1899447441, 3049323471, 3921009573, 961987163, 1508970993, 2453635748, 2870763221,
     3624381080, 310598401, 607225278, 1426881987, 1925078388, 2162078206, 2614888103, 3248222580,
     3835390401, 4022224774, 264347078, 604807628, 770255983, 1249150122, 1555081692, 1996064986,
     2554220882, 2821834349, 2952996808, 3210313671, 3336571891, 3584528711, 113926993, 338241895,
     666307205, 773529912, 1294757372, 1396182291, 1695183700, 1986661051, 2177026350, 2456956037,
     2730485921, 2820302411, 3259730800, 3345764771, 3516065817, 3600352804, 4094571909, 275423344,
     430227734, 506948616, 659060556, 883997877, 958139571, 1322822218, 1537002063, 1747873779,
     1955562222, 2024104815, 2227730452, 2361852424, 2428436474, 2756734187, 3204031479, 3329325298]"

type_synonym digest_state = "u32 \<times> u32 \<times> u32 \<times> u32 \<times> u32 \<times> u32 \<times> u32 \<times> u32"

definition initial_state :: digest_state where
  "initial_state = (0x6a09e667, 0xbb67ae85, 0x3c6ef372, 0xa54ff53a, 0x510e527f, 0x9b05688c, 0x1f83d9ab, 0x5be0cd19)"

text \<open>The message schedule keeps the last sixteen words, newest last, and makes the next one.\<close>

definition next_word :: "u32 list \<Rightarrow> u32" where
  "next_word w = sigma1 (w ! 14) + w ! 9 + sigma0 (w ! 1) + w ! 0"

fun rounds :: "u32 list \<Rightarrow> u32 list \<Rightarrow> digest_state \<Rightarrow> digest_state" where
  "rounds [] w st = st"
| "rounds (k # ks) w (a, b, c, d, e, f, g, h) =
    (let t1 = h + Sigma1 e + Ch e f g + k + w ! 0;
         t2 = Sigma0 a + Maj a b c
     in rounds ks (tl w @ [next_word w]) (t1 + t2, a, b, c, d + t1, e, f, g))"

fun add_state :: "digest_state \<Rightarrow> digest_state \<Rightarrow> digest_state" where
  "add_state (a, b, c, d, e, f, g, h) (a', b', c', d', e', f', g', h') =
    (a + a', b + b', c + c', d + d', e + e', f + f', g + g', h + h')"

text \<open>Big-endian words of a block, and bytes of a word.\<close>

definition word_of_bytes :: "char \<Rightarrow> char \<Rightarrow> char \<Rightarrow> char \<Rightarrow> u32" where
  "word_of_bytes a b c d = word_of_int (((of_char a * 256 + of_char b) * 256 + of_char c) * 256 + of_char d)"

fun words_of :: "bytes \<Rightarrow> u32 list" where
  "words_of (a # b # c # d # bs) = word_of_bytes a b c d # words_of bs"
| "words_of _ = []"

definition bytes_of_word :: "u32 \<Rightarrow> bytes" where
  "bytes_of_word w = map (\<lambda>k. char_of (uint (drop_bit k w))) [24, 16, 8, 0]"

fun bytes_of_state :: "digest_state \<Rightarrow> bytes" where
  "bytes_of_state (a, b, c, d, e, f, g, h) = concat (map bytes_of_word [a, b, c, d, e, f, g, h])"

function blocks :: "bytes \<Rightarrow> digest_state \<Rightarrow> digest_state" where
  "blocks bs st =
    (if length bs < 64 then st
     else blocks (drop 64 bs) (add_state st (rounds round_constants (words_of (take 64 bs)) st)))"
  by pat_completeness auto
termination
  by (relation "measure (\<lambda>(bs, st). length bs)") auto

declare blocks.simps [simp del]

definition bytes_of_length :: "int \<Rightarrow> bytes" where
  "bytes_of_length n = map (\<lambda>k. char_of (drop_bit k n)) [56, 48, 40, 32, 24, 16, 8, 0]"

definition pad :: "bytes \<Rightarrow> bytes" where
  "pad bs = bs @ CHR 0x80 # replicate ((119 - length bs mod 64) mod 64) (CHR 0x00)
     @ bytes_of_length (8 * int (length bs) mod 2 ^ 64)"

definition sha256 :: "bytes \<Rightarrow> bytes" where
  "sha256 bs = bytes_of_state (blocks (pad bs) initial_state)"

lemma prod_cases8:
  obtains a b c d e f g h where "(x :: digest_state) = (a, b, c, d, e, f, g, h)"
  by (cases x) auto

lemma length_sha256 [simp]: "length (sha256 bs) = 32"
  by (cases "blocks (pad bs) initial_state" rule: prod_cases8) (simp add: sha256_def bytes_of_word_def)

lemma sha256_not_Nil [simp]: "sha256 bs \<noteq> []"
  using length_sha256 [of bs] by (cases "sha256 bs") simp_all

lemma length_pad: "length (pad bs) mod 64 = 0"
proof -
  define r where "r = length bs mod 64"
  have r: "r < 64" by (simp add: r_def)
  have "length (pad bs) = length bs + (9 + (119 - r) mod 64)"
    by (simp add: pad_def bytes_of_length_def r_def)
  then have "length (pad bs) mod 64 = (r + (9 + (119 - r) mod 64)) mod 64"
    by (simp only: r_def mod_add_left_eq)
  also have "\<dots> = 0"
  proof (cases "r < 56")
    case True
    then have "(119 - r) mod 64 = 55 - r" by (simp add: mod_if)
    with True show ?thesis by simp
  next
    case False
    with r show ?thesis by simp
  qed
  finally show ?thesis .
qed

text \<open>A \<^verbatim>\<open>hash.Hash\<close> is what has been written to it; \<^verbatim>\<open>Sum(nil)\<close> digests that.\<close>

type_synonym hasher = bytes

definition sha256_New :: hasher where
  "sha256_New = []"

definition hash_Write :: "bytes \<Rightarrow> hasher \<Rightarrow> hasher" where
  "hash_Write bs h = h @ bs"

definition hash_Sum :: "hasher \<Rightarrow> bytes" where
  "hash_Sum h = sha256 h"

text \<open>The hexadecimal SHA-256 the code stores everywhere.\<close>

definition sha256_hex :: "bytes \<Rightarrow> string" where
  "sha256_hex bs = EncodeToString (sha256 bs)"

lemma length_sha256_hex [simp]: "length (sha256_hex bs) = 64"
  by (simp add: sha256_hex_def)

lemma sha256_hex_not_Nil [simp]: "sha256_hex bs \<noteq> []" "[] \<noteq> sha256_hex bs"
  by (auto simp: sha256_hex_def dest: sym)

text \<open>The form of a digest: 64 hexadecimal digits.\<close>

definition is_digest :: "string \<Rightarrow> bool" where
  "is_digest s \<longleftrightarrow> length s = 64 \<and> set s \<subseteq> set ''0123456789abcdef''"

lemma hex_digit_in: "n < 16 \<Longrightarrow> hex_digit n \<in> set ''0123456789abcdef''"
  unfolding hex_digit_def by (rule nth_mem) simp

lemma set_hex_byte: "set (hex_byte b) \<subseteq> set ''0123456789abcdef''"
proof -
  have "(of_char b :: nat) div 16 < 16" "(of_char b :: nat) mod 16 < 16"
    by (rule less_mult_imp_div_less) simp_all
  from this [THEN hex_digit_in] show ?thesis unfolding hex_byte_def by auto
qed

lemma set_EncodeToString: "set (EncodeToString bs) \<subseteq> set ''0123456789abcdef''"
  by (induction bs) (use set_hex_byte in \<open>auto simp del: list.set(2)\<close>)

lemma is_digest_sha256 [simp]: "is_digest (sha256_hex bs)"
  using set_EncodeToString [of "sha256 bs"] by (simp add: is_digest_def) (simp add: sha256_hex_def)

end
