(* ===== verification/Checksum.thy ===== *)
theory Checksum
  imports Go_IO Go_Crypto
begin

text \<open>
  \<^verbatim>\<open>internal/upload/checksum.go\<close>: a tee that hashes what passes through it, and the copy of the upload
  through it into the temporary file. The file takes \<open>disk\<close> bytes before writing fails.
\<close>

record ChecksummingReader =
  tee_source :: reader
  tee_hasher :: hasher

definition NewChecksummingReader :: "reader \<Rightarrow> ChecksummingReader" where
  "NewChecksummingReader source = \<lparr>tee_source = source, tee_hasher = sha256_New\<rparr>"

definition ChecksummingReader_Read :: "nat \<Rightarrow> ChecksummingReader \<Rightarrow> bytes \<times> error option \<times> ChecksummingReader" where
  "ChecksummingReader_Read n c =
    (let (bs, err, src) = Read n (tee_source c)
     in (bs, err, \<lparr>tee_source = src, tee_hasher = hash_Write bs (tee_hasher c)\<rparr>))"

definition SumHex :: "ChecksummingReader \<Rightarrow> string" where
  "SumHex c = EncodeToString (hash_Sum (tee_hasher c))"

definition copy_buffer :: nat where
  "copy_buffer = 32 * 1024"

definition write_file :: "(nat \<times> error) option \<Rightarrow> bytes \<Rightarrow> bytes \<Rightarrow> bytes \<times> error option" where
  "write_file disk dst bs = (case disk of
     None \<Rightarrow> (dst @ bs, None)
   | Some (space, e) \<Rightarrow>
       if length dst + length bs \<le> space then (dst @ bs, None)
       else (dst @ take (space - length dst) bs, Some e))"

text \<open>\<^verbatim>\<open>io.Copy(spooledFile, checksumReader)\<close>; the number of bytes written is the length of the file.\<close>

function io_Copy :: "(nat \<times> error) option \<Rightarrow> bytes \<Rightarrow> ChecksummingReader \<Rightarrow> bytes \<times> error option \<times> ChecksummingReader" where
  "io_Copy disk dst c =
    (case ChecksummingReader_Read copy_buffer c of
       (bs, rerr, c') \<Rightarrow>
         (case (if bs = [] then (dst, None) else write_file disk dst bs) of
            (dst', Some werr) \<Rightarrow> (dst', Some werr, c')
          | (dst', None) \<Rightarrow>
              (case rerr of
                 None \<Rightarrow> io_Copy disk dst' c'
               | Some e \<Rightarrow> (dst', if e = ErrEOF then None else Some e, c'))))"
  by auto
termination
  by (relation "measure (\<lambda>(disk, dst, c). left (tee_source c))")
     (auto simp: ChecksummingReader_Read_def copy_buffer_def split: prod.splits dest!: Read_left)

declare io_Copy.simps [simp del]

text \<open>
  When the copy succeeds, the whole content reached the file, the reader ended with \<^verbatim>\<open>EOF\<close>, and the
  hash is that of the content, whatever the chunks were.
\<close>

lemma io_Copy_ok:
  assumes "io_Copy disk dst c = (dst', None, c')"
  shows "dst' = dst @ content (tee_source c) \<and> tee_hasher c' = tee_hasher c @ content (tee_source c)
    \<and> at_end (tee_source c) = ErrEOF"
  using assms
proof (induction disk dst c rule: io_Copy.induct)
  case (1 disk dst c)
  obtain bs e c1 where rd: "ChecksummingReader_Read copy_buffer c = (bs, e, c1)"
    by (cases "ChecksummingReader_Read copy_buffer c") auto
  then have src: "Read copy_buffer (tee_source c) = (bs, e, tee_source c1)"
    and hs: "tee_hasher c1 = tee_hasher c @ bs"
    by (auto simp: ChecksummingReader_Read_def hash_Write_def split: prod.splits)
  obtain f w where wr: "(if bs = [] then (dst, None) else write_file disk dst bs) = (f, w)" by force
  then have f: "w = None \<Longrightarrow> f = dst @ bs"
    by (auto simp: write_file_def split: if_splits option.splits prod.splits)
  have w: "w = None" using "1.prems" rd wr by (cases w) (auto simp: io_Copy.simps [of disk dst c])
  show ?case
  proof (cases e)
    case None
    then have "io_Copy disk f c1 = (dst', None, c')"
      using "1.prems" rd wr w by (simp add: io_Copy.simps [of disk dst c])
    with "1.IH" [OF rd [symmetric] refl wr [symmetric] w None]
    show ?thesis using f [OF w] hs Read_content [OF src, symmetric] Read_at_end [OF src] by simp
  next
    case (Some x)
    then show ?thesis using "1.prems" rd wr w f [OF w] hs Read_Some src
      by (auto simp: io_Copy.simps [of disk dst c] split: if_splits)
  qed
qed

lemma io_Copy_unlimited:
  assumes "at_end (tee_source c) = ErrEOF"
  shows "\<exists>c'. io_Copy None dst c = (dst @ content (tee_source c), None, c')"
  using assms
proof (induction "None :: (nat \<times> error) option" dst c rule: io_Copy.induct)
  case (1 dst c)
  obtain bs e c1 where rd: "ChecksummingReader_Read copy_buffer c = (bs, e, c1)"
    by (cases "ChecksummingReader_Read copy_buffer c") auto
  then have src: "Read copy_buffer (tee_source c) = (bs, e, tee_source c1)"
    by (auto simp: ChecksummingReader_Read_def split: prod.splits)
  have wr: "(if bs = [] then (dst, None) else write_file None dst bs) = (dst @ bs, None)"
    by (simp add: write_file_def)
  show ?case
  proof (cases e)
    case None
    with "1.hyps" [OF rd [symmetric] refl wr [symmetric] refl None] "1.prems"
    show ?thesis using rd wr Read_content [OF src, symmetric] Read_at_end [OF src]
      by (simp add: io_Copy.simps [of _ dst c])
  next
    case (Some x)
    then show ?thesis using rd wr Read_Some src "1.prems"
      by (auto simp: io_Copy.simps [of _ dst c])
  qed
qed

lemma SumHex_copy:
  assumes "io_Copy disk [] (NewChecksummingReader r) = (dst, None, c)"
  shows "dst = content r" and "SumHex c = sha256_hex (content r)" and "at_end r = ErrEOF"
  using io_Copy_ok [OF assms]
  by (simp_all add: NewChecksummingReader_def SumHex_def sha256_hex_def sha256_New_def hash_Sum_def)

end
