(* ===== verification/Idgen.thy ===== *)
theory Idgen
  imports Go_Crypto Errors
begin

text \<open>
  \<^verbatim>\<open>internal/idgen\<close>. A fresh UUID is an argument of whoever asks for one; \<open>rand\<close> is what
  \<^verbatim>\<open>rand.Read\<close> puts into the 32-byte buffer, or its error.
\<close>

definition ConstantTimeCompare :: "bytes \<Rightarrow> bytes \<Rightarrow> int" where
  "ConstantTimeCompare x y = (if length x \<noteq> length y then 0 else if list_all2 (=) x y then 1 else 0)"

definition NewSessionToken :: "error + bytes \<Rightarrow> error + string" where
  "NewSessionToken rand = (case rand of
     Inl err \<Rightarrow> Inl (Wrap ''generate random session token'' err) | Inr buf \<Rightarrow> Inr (EncodeToString buf))"

definition HashSessionToken :: "string \<Rightarrow> string" where
  "HashSessionToken token = EncodeToString (sha256 token)"

definition SessionTokenMatches :: "string \<Rightarrow> string \<Rightarrow> bool" where
  "SessionTokenMatches candidateToken storedHash =
    (if candidateToken = [] \<or> storedHash = [] then False
     else ConstantTimeCompare (HashSessionToken candidateToken) storedHash = 1)"

definition apiKeyPrefix :: string where
  "apiKeyPrefix = ''tcdn_''"

definition NewAPIKey :: "error + bytes \<Rightarrow> error + string" where
  "NewAPIKey rand = (case rand of
     Inl err \<Rightarrow> Inl (Wrap ''generate random api key'' err) | Inr buf \<Rightarrow> Inr (apiKeyPrefix @ EncodeToString buf))"

definition HashAPIKey :: "string \<Rightarrow> string" where
  "HashAPIKey key = EncodeToString (sha256 key)"

definition APIKeyMatches :: "string \<Rightarrow> string \<Rightarrow> bool" where
  "APIKeyMatches candidateKey storedHash =
    (if candidateKey = [] \<or> storedHash = [] then False
     else ConstantTimeCompare (HashAPIKey candidateKey) storedHash = 1)"

definition NewDeleteToken :: "error + bytes \<Rightarrow> error + string" where
  "NewDeleteToken rand = (case rand of
     Inl err \<Rightarrow> Inl (Wrap ''generate random delete token'' err) | Inr buf \<Rightarrow> Inr (EncodeToString buf))"

definition HashDeleteToken :: "string \<Rightarrow> string" where
  "HashDeleteToken token = EncodeToString (sha256 token)"

definition DeleteTokenMatches :: "string \<Rightarrow> string \<Rightarrow> bool" where
  "DeleteTokenMatches candidateToken storedHash =
    (if candidateToken = [] \<or> storedHash = [] then False
     else ConstantTimeCompare (HashDeleteToken candidateToken) storedHash = 1)"

lemma ConstantTimeCompare_iff [simp]: "ConstantTimeCompare x y = 1 \<longleftrightarrow> x = y"
  by (auto simp: ConstantTimeCompare_def list_eq_iff_nth_eq list_all2_conv_all_nth)

lemma hashes [simp]:
  "HashSessionToken t = sha256_hex t" "HashAPIKey t = sha256_hex t" "HashDeleteToken t = sha256_hex t"
  by (simp_all add: HashSessionToken_def HashAPIKey_def HashDeleteToken_def sha256_hex_def)

lemma token_matches_iff:
  "SessionTokenMatches t h \<longleftrightarrow> t \<noteq> [] \<and> h = sha256_hex t"
  "APIKeyMatches t h \<longleftrightarrow> t \<noteq> [] \<and> h = sha256_hex t"
  "DeleteTokenMatches t h \<longleftrightarrow> t \<noteq> [] \<and> h = sha256_hex t"
  by (auto simp: SessionTokenMatches_def APIKeyMatches_def DeleteTokenMatches_def)

lemma NewDeleteToken_ok:
  "NewDeleteToken rand = Inr token \<longleftrightarrow> (\<exists>buf. rand = Inr buf \<and> token = EncodeToString buf)"
  by (auto simp: NewDeleteToken_def split: sum.splits)

end
