(* ===== verification/Go_Time.thy ===== *)
theory Go_Time
  imports Go_Strings
begin

text \<open>
  What the code uses of Go's \<^verbatim>\<open>time\<close> package beyond comparing and adding instants: the civil date
  of an instant (\<^verbatim>\<open>Year\<close>, \<^verbatim>\<open>Month\<close>, \<^verbatim>\<open>Day\<close>) in the proleptic Gregorian calendar and the layout
  \<^verbatim>\<open>2006-01-02T15:04:05Z07:00\<close>. Instants count nanoseconds from 1970-01-01T00:00:00Z.
\<close>

definition Day_length :: duration where
  "Day_length = 24 * Hour"

definition day_number :: "time \<Rightarrow> int" where
  "day_number t = t div Day_length"

text \<open>
  The year and the day of the year of day \<^verbatim>\<open>z\<close>, as \<^verbatim>\<open>time.absDate\<close> finds them: whole 400-year cycles
  from 1 January of year 1, then 100-year, 4-year and single-year cycles, where the last
  cycle of each may be a day longer (\<^verbatim>\<open>n -= n >> 2\<close>).
\<close>

definition cut4 :: "int \<Rightarrow> int" where
  "cut4 n = n - n div 4"

definition year_and_yday :: "int \<Rightarrow> int \<times> int" where
  "year_and_yday z =
    (let d = z + 719162;
         n400 = d div 146097; d1 = d - 146097 * n400;
         n100 = cut4 (d1 div 36524); d2 = d1 - 36524 * n100;
         n4 = d2 div 1461; d3 = d2 - 1461 * n4;
         n1 = cut4 (d3 div 365); d4 = d3 - 365 * n1
     in (400 * n400 + 100 * n100 + 4 * n4 + n1 + 1, d4))"

definition isLeap :: "int \<Rightarrow> bool" where
  "isLeap y \<longleftrightarrow> y mod 4 = 0 \<and> (y mod 100 \<noteq> 0 \<or> y mod 400 = 0)"

definition daysBefore :: "int list" where
  "daysBefore = [0, 31, 59, 90, 120, 151, 181, 212, 243, 273, 304, 334, 365]"

text \<open>The month and the day of the month of a day of a common year.\<close>

definition month_and_day :: "int \<Rightarrow> int \<times> int" where
  "month_and_day day =
    (let m = nat (day div 31); end_of = daysBefore ! Suc m
     in if day \<ge> end_of then (int m + 2, day - end_of + 1) else (int m + 1, day - daysBefore ! m + 1))"

definition civil :: "int \<Rightarrow> int \<times> int \<times> int" where
  "civil z =
    (let (y, day) = year_and_yday z
     in if isLeap y \<and> day = 59 then (y, 2, 29)
        else (y, month_and_day (if isLeap y \<and> day > 59 then day - 1 else day)))"

definition Year :: "time \<Rightarrow> int" where
  "Year t = fst (civil (day_number t))"

definition Month :: "time \<Rightarrow> int" where
  "Month t = fst (snd (civil (day_number t)))"

definition Day :: "time \<Rightarrow> int" where
  "Day t = snd (snd (civil (day_number t)))"

definition two_digits :: "int \<Rightarrow> string" where
  "two_digits n = show_padded 2 (nat n)"

text \<open>The layout of the API's timestamps, \<^verbatim>\<open>off\<close> seconds east of UTC.\<close>

definition Format :: "int \<Rightarrow> time \<Rightarrow> string" where
  "Format off t =
    (let local = t + off * Second; s = (local mod Day_length) div Second;
         zone = (if off = 0 then ''Z''
           else (if off < 0 then ''-'' else ''+'') @ two_digits (\<bar>off\<bar> div 3600) @ '':'' @ two_digits (\<bar>off\<bar> div 60 mod 60))
     in show_padded 4 (nat (Year local)) @ ''-'' @ two_digits (Month local) @ ''-'' @ two_digits (Day local)
        @ ''T'' @ two_digits (s div 3600) @ '':'' @ two_digits (s div 60 mod 60) @ '':'' @ two_digits (s mod 60) @ zone)"

section \<open>Facts\<close>

lemma div_facts: "0 < k \<Longrightarrow> k * (d div k) \<le> d \<and> d < k * (d div k) + (k :: int)"
  using mult_div_mod_eq [of k d] pos_mod_bound [of k d] pos_mod_sign [of k d] by linarith

text \<open>Four cycles of \<^verbatim>\<open>k\<close> days, the last one day longer.\<close>

lemma cut_cases:
  assumes q: "q = d div k" "k * q \<le> d" "d < k * q + k" "0 \<le> q" "q \<le> (4 :: int)" and d: "d \<le> 4 * k"
  shows "0 \<le> cut4 (d div k)" and "cut4 (d div k) \<le> 3" and "0 \<le> d - k * cut4 (d div k)"
    and "d - k * cut4 (d div k) < k \<or> d = 4 * k \<and> cut4 (d div k) = 3"
proof -
  have "q = 4 \<or> 0 \<le> q \<and> q < 4" using q by linarith
  then have "0 \<le> cut4 q \<and> cut4 q \<le> 3 \<and> 0 \<le> d - k * cut4 q \<and> (d - k * cut4 q < k \<or> d = 4 * k \<and> cut4 q = 3)"
  proof
    assume "q = 4"
    then have "cut4 q = 3" by (simp add: cut4_def)
    moreover have "4 * k \<le> d" using q(2) \<open>q = 4\<close> by simp
    moreover from this have "0 \<le> k" using q(2,3) by linarith
    ultimately show ?thesis using d by auto
  next
    assume "0 \<le> q \<and> q < 4"
    then have "q div 4 = 0" by (simp add: div_pos_pos_trivial)
    then have "cut4 q = q" by (simp add: cut4_def)
    with \<open>0 \<le> q \<and> q < 4\<close> q show ?thesis by simp
  qed
  then show "0 \<le> cut4 (d div k)" "cut4 (d div k) \<le> 3" "0 \<le> d - k * cut4 (d div k)"
    "d - k * cut4 (d div k) < k \<or> d = 4 * k \<and> cut4 (d div k) = 3"
    using q(1) by simp_all
qed

lemma century_cases:
  assumes "0 \<le> d" and "d < (146097 :: int)"
  shows "0 \<le> cut4 (d div 36524)" and "cut4 (d div 36524) \<le> 3" and "0 \<le> d - 36524 * cut4 (d div 36524)"
    and "d - 36524 * cut4 (d div 36524) < 36524 \<or> d = 146096 \<and> cut4 (d div 36524) = 3"
proof -
  have "36524 * (d div 36524) \<le> d" "d < 36524 * (d div 36524) + 36524"
    using div_facts [of 36524 d] by simp_all
  moreover from this have "0 \<le> d div 36524" "d div 36524 \<le> 4" "d \<le> 4 * 36524"
    using assms by linarith+
  ultimately have "36524 * (d div 36524) \<le> d" "d < 36524 * (d div 36524) + 36524" "0 \<le> d div 36524" "d div 36524 \<le> 4" "d \<le> 4 * 36524"
    by simp_all
  note cut_cases [OF refl this]
  then show "0 \<le> cut4 (d div 36524)" and "cut4 (d div 36524) \<le> 3" and "0 \<le> d - 36524 * cut4 (d div 36524)"
    and "d - 36524 * cut4 (d div 36524) < 36524 \<or> d = 146096 \<and> cut4 (d div 36524) = 3" by simp_all
qed

lemma year_cases:
  assumes "0 \<le> d" and "d < (1461 :: int)"
  shows "0 \<le> cut4 (d div 365)" and "cut4 (d div 365) \<le> 3" and "0 \<le> d - 365 * cut4 (d div 365)"
    and "d - 365 * cut4 (d div 365) < 365 \<or> d = 1460 \<and> cut4 (d div 365) = 3"
proof -
  have "365 * (d div 365) \<le> d" "d < 365 * (d div 365) + 365"
    using div_facts [of 365 d] by simp_all
  moreover from this have "0 \<le> d div 365" "d div 365 \<le> 4" "d \<le> 4 * 365"
    using assms by linarith+
  ultimately have "365 * (d div 365) \<le> d" "d < 365 * (d div 365) + 365" "0 \<le> d div 365" "d div 365 \<le> 4" "d \<le> 4 * 365"
    by simp_all
  note cut_cases [OF refl this]
  then show "0 \<le> cut4 (d div 365)" and "cut4 (d div 365) \<le> 3" and "0 \<le> d - 365 * cut4 (d div 365)"
    and "d - 365 * cut4 (d div 365) < 365 \<or> d = 1460 \<and> cut4 (d div 365) = 3" by simp_all
qed

text \<open>The day is a day of its year: day 365 (from 0) only in a leap year.\<close>

lemma year_and_yday_bounds:
  assumes "year_and_yday z = (y, day)"
  shows "0 \<le> day" and "day < 365 \<or> day = 365 \<and> isLeap y"
proof -
  define d where "d = z + 719162"
  define n400 where "n400 = d div 146097"
  define d1 where "d1 = d - 146097 * n400"
  define n100 where "n100 = cut4 (d1 div 36524)"
  define d2 where "d2 = d1 - 36524 * n100"
  define n4 where "n4 = d2 div 1461"
  define d3 where "d3 = d2 - 1461 * n4"
  define n1 where "n1 = cut4 (d3 div 365)"
  have eq: "y = 400 * n400 + 100 * n100 + 4 * n4 + n1 + 1" "day = d3 - 365 * n1"
    using assms by (simp_all add: year_and_yday_def Let_def d_def n400_def d1_def n100_def d2_def n4_def d3_def n1_def)
  have "0 \<le> d1 \<and> d1 < 146097"
    unfolding d1_def n400_def by (simp add: minus_mult_div_eq_mod)
  then have c: "0 \<le> n100" "n100 \<le> 3" "0 \<le> d2" "d2 < 36524 \<or> d1 = 146096 \<and> n100 = 3"
    using century_cases [of d1] by (simp_all add: n100_def d2_def)
  have d3: "0 \<le> d3 \<and> d3 < 1461"
    unfolding d3_def n4_def by (simp add: minus_mult_div_eq_mod)
  then have y: "0 \<le> n1" "n1 \<le> 3" "0 \<le> d3 - 365 * n1" "d3 - 365 * n1 < 365 \<or> d3 = 1460 \<and> n1 = 3"
    using year_cases [of d3] by (simp_all add: n1_def)
  show "0 \<le> day" using y eq by simp
  show "day < 365 \<or> day = 365 \<and> isLeap y"
  proof (cases "d3 = 1460 \<and> n1 = 3")
    case False
    with y eq show ?thesis by auto
  next
    case True
    have "d2 = 1461 * n4 + 1460" using True by (simp add: d3_def)
    with c have n4: "0 \<le> n4" "n4 < 24 \<or> n4 = 24 \<and> n100 = 3"
      by (auto simp: d2_def)
    have "y = 4 * (100 * n400 + 25 * n100 + n4 + 1)" using eq True by simp
    then have four: "y mod 4 = 0" by simp
    have "y = 400 * n400 + 100 * n100 + (4 * n4 + 4)" using eq True by simp
    then have "y = (4 * n4 + 4) + 100 * (4 * n400 + n100)" by simp
    then have "y mod 100 = (4 * n4 + 4) mod 100" by (simp only: mod_mult_self2)
    then have hundred: "n4 < 24 \<Longrightarrow> y mod 100 \<noteq> 0" using n4(1) by simp
    have "n4 = 24 \<Longrightarrow> n100 = 3 \<Longrightarrow> y = 400 * (n400 + 1)" using eq True by simp
    then have "n4 = 24 \<Longrightarrow> n100 = 3 \<Longrightarrow> y mod 400 = 0" by simp
    with n4(2) four hundred show ?thesis using True eq by (auto simp: isLeap_def)
  qed
qed

lemma month_and_day_bounds:
  assumes "0 \<le> day" and "day < 365"
  shows "fst (month_and_day day) \<in> {1..12}" and "snd (month_and_day day) \<in> {1..31}"
proof -
  define m where "m = nat (day div 31)"
  have "31 * (day div 31) \<le> day \<and> day < 31 * (day div 31) + 31"
    using div_facts [of 31 day] by simp
  with assms have day: "31 * int m \<le> day" "day < 31 * int m + 31" and m12: "m < 12"
    by (simp_all add: m_def)
  from m12 have "m = 0 \<or> m = 1 \<or> m = 2 \<or> m = 3 \<or> m = 4 \<or> m = 5 \<or> m = 6 \<or> m = 7 \<or> m = 8 \<or> m = 9 \<or> m = 10 \<or> m = 11"
    by (auto simp: eval_nat_numeral less_Suc_eq)
  with day assms show "fst (month_and_day day) \<in> {1..12}" "snd (month_and_day day) \<in> {1..31}"
    unfolding month_and_day_def Let_def m_def [symmetric]
    by (auto simp: daysBefore_def)
qed

lemma civil_bounds:
  assumes "civil z = (y, m, d)"
  shows "m \<in> {1..12}" and "d \<in> {1..31}"
proof -
  obtain y' day where yd: "year_and_yday z = (y', day)" by (cases "year_and_yday z")
  note b = year_and_yday_bounds [OF yd]
  show "m \<in> {1..12}" "d \<in> {1..31}"
    using assms b month_and_day_bounds [of day] month_and_day_bounds [of "day - 1"]
    by (auto simp: civil_def yd split: if_splits)
qed

end
