(* ===== verification/Upload_Service.thy ===== *)
theory Upload_Service
  imports Backend Validator Checksum Idgen Go_Time
begin

text \<open>
  \<^verbatim>\<open>internal/upload/service.go\<close>. \<open>upload_env\<close> is what one call sees of its surroundings: the rules
  each of the validator's three methods loads (an administrator may change them in between), the
  temporary file, the clock, the fresh UUID and the random bytes. \<open>upload_prepare\<close> is the part of
  \<^verbatim>\<open>Upload\<close> up to the checksum, which touches neither the database nor the storage, \<open>upload_new\<close> the
  part after the lookup for a duplicate.
\<close>

definition sniffBufferSize :: nat where
  "sniffBufferSize = 512"

record 'w upload_Service =
  repository :: "'w FileRepository"
  objectStorage :: "'w ObjectStorage"
  fileTTL :: duration
  publicBaseURL :: string

record Input =
  in_OriginalName :: string
  in_SizeBytes :: int
  in_Content :: reader
  in_UploaderIPHash :: string

record Result =
  Record :: FileRecord
  Duplicate :: bool
  DeleteToken :: string

record upload_env =
  size_rules :: validatorRules
  extension_rules :: validatorRules
  type_rules :: validatorRules
  temp_create :: "error option"
  temp_disk :: "(nat \<times> error) option"
  temp_seek :: "error option"
  env_now :: time
  env_uuid :: string
  env_rand :: "error + bytes"

definition upload_NewService ::
  "'w FileRepository \<Rightarrow> 'w ObjectStorage \<Rightarrow> duration \<Rightarrow> string \<Rightarrow> 'w upload_Service" where
  "upload_NewService repo sto ttl baseURL =
    \<lparr>repository = repo, objectStorage = sto, fileTTL = ttl, publicBaseURL = TrimRight baseURL (CHR ''/'')\<rparr>"

definition buildObjectKey :: "time \<Rightarrow> string \<Rightarrow> string \<Rightarrow> string" where
  "buildObjectKey now fileID originalName =
    show_padded 4 (nat (Year now)) @ ''/'' @ show_padded 2 (nat (Month now)) @ ''/''
      @ show_padded 2 (nat (Day now)) @ ''/'' @ fileID @ Ext originalName"

definition upload_spool :: "upload_env \<Rightarrow> Input \<Rightarrow> bytes \<Rightarrow> reader \<Rightarrow> error + bytes \<times> string" where
  "upload_spool env input sniffBuffer rest =
    (case temp_create env of
       Some err \<Rightarrow> Inl (Wrap ''create temp spool file'' err)
     | None \<Rightarrow>
         (case io_Copy (temp_disk env) [] (NewChecksummingReader (MultiReader sniffBuffer rest)) of
            (spooled, Some err, c) \<Rightarrow> Inl (Wrap ''spool file content while hashing'' err)
          | (spooled, None, c) \<Rightarrow>
              if int (length spooled) \<noteq> in_SizeBytes input
              then Inl (Errorf (''upload size mismatch: multipart header reported '' @ show_int (in_SizeBytes input)
                     @ '' bytes but '' @ show_int (int (length spooled)) @ '' bytes were actually read''))
              else Inr (spooled, SumHex c)))"

definition upload_prepare :: "(string \<Rightarrow> string) \<Rightarrow> upload_env \<Rightarrow> Input \<Rightarrow> error + string \<times> bytes \<times> string" where
  "upload_prepare uni env input =
    (case ValidateSize (size_rules env) (in_SizeBytes input) of
       Some err \<Rightarrow> Inl err
     | None \<Rightarrow>
    (case ValidateExtension uni (extension_rules env) (in_OriginalName input) of
       Some err \<Rightarrow> Inl err
     | None \<Rightarrow>
    (case ReadFull sniffBufferSize (in_Content input) of
       (sniffBuffer, err, rest) \<Rightarrow>
         if err \<notin> {None, Some ErrUnexpectedEOF, Some ErrEOF}
         then Inl (Wrap ''read file header'' (the err))
         else
    (case DetectAndValidateContentType (type_rules env) sniffBuffer of
       Inl err \<Rightarrow> Inl err
     | Inr detectedContentType \<Rightarrow>
    (case upload_spool env input sniffBuffer rest of
       Inl err \<Rightarrow> Inl err
     | Inr (spooled, checksum) \<Rightarrow> Inr (detectedContentType, spooled, checksum))))))"

definition new_record :: "'w upload_Service \<Rightarrow> upload_env \<Rightarrow> Input \<Rightarrow> string \<Rightarrow> bytes \<Rightarrow> string \<Rightarrow> string \<Rightarrow> FileRecord" where
  "new_record s env input detectedContentType spooled checksum deleteToken =
    (let now = env_now env; objectKey = buildObjectKey now (env_uuid env) (in_OriginalName input)
     in \<lparr>file_ID = env_uuid env, OriginalName = in_OriginalName input, ContentType = detectedContentType,
         SizeBytes = int (length spooled), ChecksumSHA256 = checksum, ObjectKey = objectKey,
         CDNURL = publicBaseURL s @ ''/'' @ objectKey, UploaderIPHash = in_UploaderIPHash input,
         DeleteTokenHash = HashDeleteToken deleteToken,
         file_CreatedAt = now, file_ExpiresAt = now + fileTTL s\<rparr>)"

definition upload_new ::
  "'w upload_Service \<Rightarrow> upload_env \<Rightarrow> Input \<Rightarrow> string \<Rightarrow> bytes \<Rightarrow> string \<Rightarrow> ('w, error, Result) io" where
  "upload_new s env input detectedContentType spooled checksum =
    (case temp_seek env of
       Some err \<Rightarrow> State_Monad.return (Inl (Wrap ''rewind spool file'' err))
     | None \<Rightarrow>
    (case NewDeleteToken (env_rand env) of
       Inl err \<Rightarrow> State_Monad.return (Inl (Wrap ''generate delete token'' err))
     | Inr deleteToken \<Rightarrow>
         let objectKey = buildObjectKey (env_now env) (env_uuid env) (in_OriginalName input)
         in tryE (PutObject (objectStorage s) \<lparr>Key = objectKey, Body = spooled,
               put_ContentType = detectedContentType, put_SizeBytes = int (length spooled)\<rparr>)
              (Wrap ''upload object to storage'') (\<lambda>_. do {
            let record = new_record s env input detectedContentType spooled checksum deleteToken;
            inserted \<leftarrow> Insert (repository s) record;
            case inserted of
              Inl err \<Rightarrow> do {
                _ \<leftarrow> DeleteObject (objectStorage s) objectKey;
                State_Monad.return (Inl (Wrap ''persist file metadata'' err))
              }
            | Inr _ \<Rightarrow>
                State_Monad.return (Inr \<lparr>Record = record, Duplicate = False, DeleteToken = deleteToken\<rparr>)
          })))"

definition Upload :: "(string \<Rightarrow> string) \<Rightarrow> 'w upload_Service \<Rightarrow> upload_env \<Rightarrow> Input \<Rightarrow> ('w, error, Result) io" where
  "Upload uni s env input =
    (case upload_prepare uni env input of
       Inl err \<Rightarrow> State_Monad.return (Inl err)
     | Inr (detectedContentType, spooled, checksum) \<Rightarrow> do {
         existing \<leftarrow> FindActiveByChecksum (repository s) checksum (env_now env);
         case existing of
           Inr existingRecord \<Rightarrow>
             State_Monad.return (Inr \<lparr>Record = existingRecord, Duplicate = True, DeleteToken = []\<rparr>)
         | Inl dedupErr \<Rightarrow>
             if dedupErr \<noteq> ErrFileNotFound
             then State_Monad.return (Inl (Wrap ''lookup checksum for dedup'' dedupErr))
             else upload_new s env input detectedContentType spooled checksum
       })"

section \<open>Before the database is asked\<close>

lemma upload_spool_ok:
  assumes "upload_spool env input sniff rest = Inr (spooled, checksum)"
  shows "spooled = sniff @ content rest" and "checksum = sha256_hex (sniff @ content rest)"
    and "int (length spooled) = in_SizeBytes input" and "at_end rest = ErrEOF"
  using assms
  by (auto simp: upload_spool_def split: option.splits prod.splits if_splits dest: SumHex_copy)

lemma upload_prepare_ok:
  assumes "upload_prepare uni env input = Inr (ct, spooled, checksum)"
  shows "spooled = content (in_Content input)" and "checksum = sha256_hex (content (in_Content input))"
    and "int (length (content (in_Content input))) = in_SizeBytes input"
    and "ct = normalized_type (content (in_Content input))"
    and "isMimeTypeAllowed (type_rules env) ct"
    and "0 < in_SizeBytes input" and "in_SizeBytes input \<le> maxSizeBytes (size_rules env)"
    and "ValidateExtension uni (extension_rules env) (in_OriginalName input) = None"
proof -
  obtain sniff err rest where rf: "ReadFull sniffBufferSize (in_Content input) = (sniff, err, rest)"
    by (cases "ReadFull sniffBufferSize (in_Content input)") auto
  note spec = ReadFull_spec [OF rf]
  have "ValidateSize (size_rules env) (in_SizeBytes input) = None"
    and ext: "ValidateExtension uni (extension_rules env) (in_OriginalName input) = None"
    and det: "DetectAndValidateContentType (type_rules env) sniff = Inr ct"
    and sp: "upload_spool env input sniff rest = Inr (spooled, checksum)"
    using assms rf by (auto simp: upload_prepare_def split: option.splits sum.splits if_splits)
  then show "0 < in_SizeBytes input" "in_SizeBytes input \<le> maxSizeBytes (size_rules env)"
    "ValidateExtension uni (extension_rules env) (in_OriginalName input) = None"
    by (simp_all add: ValidateSize_None)
  have whole: "sniff @ content rest = content (in_Content input)"
    by (simp add: spec(1,2))
  show "spooled = content (in_Content input)" "checksum = sha256_hex (content (in_Content input))"
    "int (length (content (in_Content input))) = in_SizeBytes input"
    using upload_spool_ok [OF sp] whole by simp_all
  show "ct = normalized_type (content (in_Content input))" "isMimeTypeAllowed (type_rules env) ct"
    using det by (auto simp: DetectAndValidate_Inr spec(1) sniffBufferSize_def normalized_type_take)
qed


section \<open>What an upload does to the records and the objects\<close>

lemma upload_NewService_sel [simp]:
  "repository (upload_NewService repo sto ttl url) = repo"
  "objectStorage (upload_NewService repo sto ttl url) = sto"
  "fileTTL (upload_NewService repo sto ttl url) = ttl"
  by (simp_all add: upload_NewService_def)

lemma new_record_sel [simp]:
  "file_ID (new_record s env input ct b c t) = env_uuid env"
  "OriginalName (new_record s env input ct b c t) = in_OriginalName input"
  "ContentType (new_record s env input ct b c t) = ct"
  "SizeBytes (new_record s env input ct b c t) = int (length b)"
  "ChecksumSHA256 (new_record s env input ct b c t) = c"
  "ObjectKey (new_record s env input ct b c t) =
    buildObjectKey (env_now env) (env_uuid env) (in_OriginalName input)"
  "CDNURL (new_record s env input ct b c t) =
    publicBaseURL s @ ''/'' @ buildObjectKey (env_now env) (env_uuid env) (in_OriginalName input)"
  "UploaderIPHash (new_record s env input ct b c t) = in_UploaderIPHash input"
  "DeleteTokenHash (new_record s env input ct b c t) = sha256_hex t"
  "file_CreatedAt (new_record s env input ct b c t) = env_now env"
  "file_ExpiresAt (new_record s env input ct b c t) = env_now env + fileTTL s"
  by (simp_all add: new_record_def Let_def)

abbreviation env_key :: "upload_env \<Rightarrow> Input \<Rightarrow> string" where
  "env_key env input \<equiv> buildObjectKey (env_now env) (env_uuid env) (in_OriginalName input)"

context file_backend
begin

lemma upload_new_cases:
  assumes "run_state (upload_new s env input ct body chk) w = (res, w')"
    and s: "repository s = repo" "objectStorage s = sto"
  obtains
    (aborted) e where "res = Inl e" and "rows w' = rows w" and "\<And>k. k \<noteq> env_key env input \<Longrightarrow> objs w' k = objs w k"
  | (stored) buf r where "env_rand env = Inr buf"
      and "r = new_record s env input ct body chk (EncodeToString buf)"
      and "res = Inr \<lparr>Record = r, Duplicate = False, DeleteToken = EncodeToString buf\<rparr>"
      and "env_uuid env \<notin> file_ID ` set (rows w)" and "rows w' = rows w @ [r]"
      and "objs w' = (objs w)(env_key env input \<mapsto> (body, ct))"
  | (unacked) e buf r where "res = Inl e" and "env_rand env = Inr buf"
      and "r = new_record s env input ct body chk (EncodeToString buf)"
      and "env_uuid env \<notin> file_ID ` set (rows w)" and "rows w' = rows w @ [r]"
      and "objs w' (env_key env input) \<in> {None, Some (body, ct)}"
      and "\<And>k. k \<noteq> env_key env input \<Longrightarrow> objs w' k = objs w k"
proof (cases "temp_seek env \<noteq> None \<or> (\<exists>e. env_rand env = Inl e)")
  case True
  then show thesis
    using assms(1) aborted by (auto simp: upload_new_def NewDeleteToken_def split: option.splits sum.splits)
next
  case False
  then obtain buf where seek: "temp_seek env = None" and rand: "env_rand env = Inr buf"
    by (cases "env_rand env") auto
  let ?key = "env_key env input"
  let ?put = "\<lparr>Key = ?key, Body = body, put_ContentType = ct, put_SizeBytes = int (length body)\<rparr>"
  let ?r = "new_record s env input ct body chk (EncodeToString buf)"
  obtain pr w1 where put: "run_state (PutObject sto ?put) w = (pr, w1)" by force
  obtain ir w2 where ins: "run_state (Insert repo ?r) w1 = (ir, w2)" by force
  obtain dr w3 where del: "run_state (DeleteObject sto ?key) w2 = (dr, w3)" by force
  have rows1: "rows w1 = rows w" using sto_rows(1) [OF put] .
  have objs2: "objs w2 = objs w1" using repo_objs(1) [OF ins] .
  have rows3: "rows w3 = rows w2" using sto_rows(2) [OF del] .
  note run = assms(1) [unfolded upload_new_def s seek rand, simplified NewDeleteToken_def, simplified]
  show thesis
  proof (cases pr)
    case (Inl e)
    then have "res = Inl (Wrap ''upload object to storage'' e)" "w' = w1"
      using run put by (simp_all add: Let_def)
    then show thesis using aborted rows1 Put_objs [OF put] by auto
  next
    case (Inr u)
    have o1: "objs w1 = (objs w)(?key \<mapsto> (body, ct))" using Put_ok put Inr by fastforce
    show thesis
    proof (cases ir)
      case (Inr v)
      then have "res = Inr \<lparr>Record = ?r, Duplicate = False, DeleteToken = EncodeToString buf\<rparr>" "w' = w2"
        using run put ins \<open>pr = Inr u\<close> by (simp_all add: Let_def)
      then show thesis
        using stored [OF rand refl] Insert_ok [OF ins [unfolded Inr]] rows1 o1 objs2 by auto
    next
      case (Inl e)
      then have res: "res = Inl (Wrap ''persist file metadata'' e)" "w' = w3"
        using run put ins del \<open>pr = Inr u\<close> by (simp_all add: Let_def)
      have o3: "objs w3 = objs w2 \<or> objs w3 = (objs w2)(?key := None)" using Delete_objs [OF del] .
      show thesis
        using Insert_err [OF ins [unfolded Inl]]
      proof
        assume "rows w2 = rows w1"
        then show thesis using aborted res rows1 rows3 o1 objs2 o3 by auto
      next
        assume *: "file_ID ?r \<notin> file_ID ` set (rows w1) \<and> rows w2 = rows w1 @ [?r]"
        show thesis
          by (rule unacked [OF _ rand refl]) (use * res rows1 rows3 o1 objs2 o3 in \<open>auto\<close>)
      qed
    qed
  qed
qed

lemma Upload_cases:
  assumes "run_state (Upload uni s env input) w = (res, w')"
    and s: "repository s = repo" "objectStorage s = sto"
  obtains
    (rejected) e where "upload_prepare uni env input = Inl e" and "res = Inl e" and "w' = w"
  | (failed) e where "res = Inl e" and "rows w' = rows w" and "\<And>k. k \<noteq> env_key env input \<Longrightarrow> objs w' k = objs w k"
  | (duplicate) ct body chk r where "upload_prepare uni env input = Inr (ct, body, chk)"
      and "res = Inr \<lparr>Record = r, Duplicate = True, DeleteToken = []\<rparr>"
      and "r \<in> set (active_with_checksum chk (env_now env) (rows w))"
      and "rows w' = rows w" and "objs w' = objs w"
  | (stored) ct body chk buf r where "upload_prepare uni env input = Inr (ct, body, chk)"
      and "active_with_checksum chk (env_now env) (rows w) = []"
      and "env_rand env = Inr buf" and "r = new_record s env input ct body chk (EncodeToString buf)"
      and "res = Inr \<lparr>Record = r, Duplicate = False, DeleteToken = EncodeToString buf\<rparr>"
      and "env_uuid env \<notin> file_ID ` set (rows w)" and "rows w' = rows w @ [r]"
      and "objs w' = (objs w)(env_key env input \<mapsto> (body, ct))"
  | (unacked) ct body chk buf r e where "upload_prepare uni env input = Inr (ct, body, chk)"
      and "res = Inl e" and "env_rand env = Inr buf"
      and "r = new_record s env input ct body chk (EncodeToString buf)"
      and "env_uuid env \<notin> file_ID ` set (rows w)" and "rows w' = rows w @ [r]"
      and "objs w' (env_key env input) \<in> {None, Some (body, ct)}"
      and "\<And>k. k \<noteq> env_key env input \<Longrightarrow> objs w' k = objs w k"
proof (cases "upload_prepare uni env input")
  case (Inl e)
  then show thesis using rejected assms(1) by (simp add: Upload_def)
next
  case (Inr p)
  obtain ct body chk where p: "p = (ct, body, chk)" by (cases p)
  note prep = Inr [unfolded p]
  obtain fr w1 where fa: "run_state (FindActiveByChecksum repo chk (env_now env)) w = (fr, w1)" by force
  have o1: "objs w1 = objs w" using repo_objs(2) [OF fa] .
  show thesis
  proof (cases fr)
    case (Inr r)
    then have "res = Inr \<lparr>Record = r, Duplicate = True, DeleteToken = []\<rparr>" "w' = w1"
      using assms(1) prep fa s by (simp_all add: Upload_def)
    then show thesis using duplicate [OF prep] FindActive_ok [OF fa [unfolded Inr]] o1 by blast
  next
    case (Inl e)
    note fe = FindActive_err [OF fa [unfolded Inl]]
    show thesis
    proof (cases "e = ErrFileNotFound")
      case False
      then have "res = Inl (Wrap ''lookup checksum for dedup'' e)" "w' = w1"
        using assms(1) prep fa s Inl by (simp_all add: Upload_def)
      then show thesis using failed fe o1 by auto
    next
      case True
      then have new: "run_state (upload_new s env input ct body chk) w1 = (res, w')"
        using assms(1) prep fa s Inl by (simp add: Upload_def)
      have none: "active_with_checksum chk (env_now env) (rows w) = []" "rows w1 = rows w"
        using fe True by auto
      from new s show thesis
      proof (cases rule: upload_new_cases)
        case aborted
        then show thesis using failed none o1 by auto
      next
        case (stored buf r)
        then show thesis using that(4) [OF prep none(1)] none o1 by metis
      next
        case (unacked e buf r)
        then show thesis using that(5) [OF prep] none o1 by metis
      qed
    qed
  qed
qed

end


section \<open>Object keys\<close>

text \<open>In the years 0 to 9999 the date part of a key has eleven characters and the file id follows it.\<close>

definition key_file_ID :: "string \<Rightarrow> string" where
  "key_file_ID key = take 36 (drop 11 key)"

lemma key_file_ID_build:
  assumes "0 \<le> Year now" and "Year now \<le> 9999" and "length fid = 36"
  shows "key_file_ID (buildObjectKey now fid name) = fid"
proof -
  obtain y m d where c: "civil (day_number now) = (y, m, d)" by (cases "civil (day_number now)")
  note b = civil_bounds [OF c]
  have "length (show_padded 4 (nat (Year now))) = 4"
    using assms(1,2) by (intro length_show_padded) auto
  moreover have "length (show_padded 2 (nat (Month now))) = 2" "length (show_padded 2 (nat (Day now))) = 2"
    using b c by (auto intro!: length_show_padded simp: Month_def Day_def)
  ultimately show ?thesis using assms(3) by (simp add: key_file_ID_def buildObjectKey_def)
qed

section \<open>Integrity\<close>

text \<open>
  What the records promise of the objects: ids are unique, each record's key is made from its own id,
  and whatever object is stored under a record's key is the content whose type, size and hash the
  record states. \<open>available\<close> adds that the object is there.
\<close>

definition stored_as :: "FileRecord \<Rightarrow> bytes \<times> string \<Rightarrow> bool" where
  "stored_as r obj \<longleftrightarrow> int (length (fst obj)) = SizeBytes r \<and> sha256_hex (fst obj) = ChecksumSHA256 r
     \<and> snd obj = ContentType r"

definition integrity :: "FileRecord list \<Rightarrow> bucket \<Rightarrow> bool" where
  "integrity rs os \<longleftrightarrow> distinct (map file_ID rs) \<and>
     (\<forall>r \<in> set rs. key_file_ID (ObjectKey r) = file_ID r \<and>
        (case os (ObjectKey r) of None \<Rightarrow> True | Some obj \<Rightarrow> stored_as r obj))"

definition available :: "FileRecord list \<Rightarrow> bucket \<Rightarrow> bool" where
  "available rs os \<longleftrightarrow> (\<forall>r \<in> set rs. os (ObjectKey r) \<noteq> None)"

lemma integrity_distinct: "integrity rs os \<Longrightarrow> distinct (map file_ID rs)"
  by (simp add: integrity_def)

lemma integrity_keys:
  "integrity rs os \<Longrightarrow> r \<in> set rs \<Longrightarrow> r' \<in> set rs \<Longrightarrow> ObjectKey r = ObjectKey r' \<Longrightarrow> r = r'"
  unfolding integrity_def by (metis distinct_map_eq)

lemma integrity_fewer_objects:
  "integrity rs os \<Longrightarrow> (\<And>k. os' k = None \<or> os' k = os k) \<Longrightarrow> integrity rs os'"
  unfolding integrity_def by (auto split: option.splits) (metis option.distinct(1) option.inject)+

lemma integrity_fewer_rows:
  "integrity rs os \<Longrightarrow> integrity (delete_rows i rs) os"
  by (auto simp: integrity_def delete_rows_def)

lemma integrity_other_objects:
  "integrity rs os \<Longrightarrow> (\<And>r. r \<in> set rs \<Longrightarrow> os' (ObjectKey r) = os (ObjectKey r)) \<Longrightarrow> integrity rs os'"
  by (simp add: integrity_def)

lemma integrity_new:
  assumes "integrity rs os" and "file_ID r \<notin> file_ID ` set rs" and "key_file_ID (ObjectKey r) = file_ID r"
    and "\<And>k. k \<noteq> ObjectKey r \<Longrightarrow> os' k = os k" and "case os' (ObjectKey r) of None \<Rightarrow> True | Some obj \<Rightarrow> stored_as r obj"
  shows "integrity (rs @ [r]) os'"
proof -
  have "os' (ObjectKey r') = os (ObjectKey r')" if "r' \<in> set rs" for r'
    using assms(1-4) that unfolding integrity_def by (metis image_eqI)
  then show ?thesis using assms by (auto simp: integrity_def)
qed

lemma env_key_not_in_use:
  assumes "integrity rs os" and "env_uuid env \<notin> file_ID ` set rs" and "length (env_uuid env) = 36"
    and "0 \<le> Year (env_now env)" and "Year (env_now env) \<le> 9999" and "r \<in> set rs"
  shows "ObjectKey r \<noteq> env_key env input"
  using assms key_file_ID_build [of "env_now env" "env_uuid env"] unfolding integrity_def
  by (metis image_eqI)

context file_backend
begin

text \<open>
  An upload keeps the integrity of the store, whatever fails on the way, if its UUID is new. One that
  reports success also keeps every record's object available.
\<close>

lemma Upload_integrity:
  assumes run: "run_state (Upload uni s env input) w = (res, w')"
    and s: "repository s = repo" "objectStorage s = sto"
    and inv: "integrity (rows w) (objs w)"
    and new: "env_uuid env \<notin> file_ID ` set (rows w)" "length (env_uuid env) = 36"
    and year: "0 \<le> Year (env_now env)" "Year (env_now env) \<le> 9999"
  shows "integrity (rows w') (objs w')"
  using run s
proof (cases rule: Upload_cases)
  case (rejected e)
  then show ?thesis using inv by simp
next
  case (failed e)
  then show ?thesis
    using integrity_other_objects [OF inv] env_key_not_in_use [OF inv new year] by metis
next
  case (duplicate ct body chk r)
  then show ?thesis using inv by simp
next
  case (stored ct body chk buf r)
  then show ?thesis
    using integrity_new [OF inv, of r] new key_file_ID_build [OF year new(2)] upload_prepare_ok [OF stored(1)]
    by (auto simp: stored_as_def)
next
  case (unacked ct body chk buf r e)
  then show ?thesis
    using integrity_new [OF inv, of r] new key_file_ID_build [OF year new(2)] upload_prepare_ok [OF unacked(1)]
    by (auto simp: stored_as_def)
qed

lemma Upload_available:
  assumes run: "run_state (Upload uni s env input) w = (Inr res, w')"
    and s: "repository s = repo" "objectStorage s = sto"
    and inv: "available (rows w) (objs w)"
  shows "available (rows w') (objs w') \<and> Record res \<in> set (rows w')"
  using run s
  by (cases rule: Upload_cases) (use inv in \<open>auto simp: available_def\<close>)

end


section \<open>Uploads that meet the rules are stored\<close>

lemma upload_spool_live:
  assumes "temp_create env = None" and "temp_disk env = None" and "at_end rest = ErrEOF"
    and "int (length (sniff @ content rest)) = in_SizeBytes input"
  shows "upload_spool env input sniff rest = Inr (sniff @ content rest, sha256_hex (sniff @ content rest))"
proof -
  let ?m = "MultiReader sniff rest"
  obtain c where cp: "io_Copy None [] (NewChecksummingReader ?m) = (sniff @ content rest, None, c)"
    using io_Copy_unlimited [of "NewChecksummingReader ?m" "[]"] assms(3)
    by (auto simp: NewChecksummingReader_def)
  moreover have "SumHex c = sha256_hex (sniff @ content rest)" using SumHex_copy(2) [OF cp] by simp
  ultimately show ?thesis using assms(1,2,4) by (simp add: upload_spool_def)
qed

lemma upload_prepare_live:
  assumes "temp_create env = None" and "temp_disk env = None" and "at_end (in_Content input) = ErrEOF"
    and "int (length (content (in_Content input))) = in_SizeBytes input"
    and "0 < in_SizeBytes input" and "in_SizeBytes input \<le> maxSizeBytes (size_rules env)"
    and "ValidateExtension uni (extension_rules env) (in_OriginalName input) = None"
    and "isMimeTypeAllowed (type_rules env) (normalized_type (content (in_Content input)))"
  shows "upload_prepare uni env input = Inr (normalized_type (content (in_Content input)),
    content (in_Content input), sha256_hex (content (in_Content input)))"
proof -
  obtain sniff err rest where rf: "ReadFull sniffBufferSize (in_Content input) = (sniff, err, rest)"
    by (cases "ReadFull sniffBufferSize (in_Content input)") auto
  note spec = ReadFull_spec [OF rf]
  have whole: "sniff @ content rest = content (in_Content input)" by (simp add: spec(1,2))
  have "ValidateSize (size_rules env) (in_SizeBytes input) = None"
    using assms(5,6) by (simp add: ValidateSize_None)
  moreover have "err \<in> {None, Some ErrUnexpectedEOF, Some ErrEOF}"
    using assms(3) by (simp add: spec(4))
  moreover have "DetectAndValidateContentType (type_rules env) sniff =
      Inr (normalized_type (content (in_Content input)))"
    using assms(8) by (simp add: DetectAndValidate_Inr spec(1) sniffBufferSize_def normalized_type_take)
  moreover have "upload_spool env input sniff rest =
      Inr (content (in_Content input), sha256_hex (content (in_Content input)))"
    using upload_spool_live [OF assms(1,2), of rest sniff input] assms(3,4) whole spec(3) by simp
  ultimately show ?thesis using assms(7) rf by (simp add: upload_prepare_def)
qed

context file_backend
begin

lemma Upload_live:
  assumes s: "repository s = repo" "objectStorage s = sto"
    and prep: "upload_prepare uni env input = Inr (ct, body, chk)"
    and env: "temp_seek env = None" "env_rand env = Inr buf"
    and none: "active_with_checksum chk (env_now env) (rows w) = []"
    and new: "env_uuid env \<notin> file_ID ` set (rows w)"
    and "up w" "sto_up w"
  shows "\<exists>w'. run_state (Upload uni s env input) w =
    (Inr \<lparr>Record = new_record s env input ct body chk (EncodeToString buf), Duplicate = False,
          DeleteToken = EncodeToString buf\<rparr>, w') \<and> up w' \<and> sto_up w'"
proof -
  let ?r = "new_record s env input ct body chk (EncodeToString buf)"
  let ?put = "\<lparr>Key = env_key env input, Body = body, put_ContentType = ct, put_SizeBytes = int (length body)\<rparr>"
  obtain w1 where fa: "run_state (FindActiveByChecksum repo chk (env_now env)) w = (Inl ErrFileNotFound, w1)" "up w1"
    using FindActive_up [OF \<open>up w\<close> none] by blast
  have "sto_up w1" using repo_sto_up(2) [OF fa(1)] \<open>sto_up w\<close> by simp
  then obtain w2 where put: "run_state (PutObject sto ?put) w1 = (Inr (), w2)" "sto_up w2"
    using Put_up by blast
  have "up w2" "rows w2 = rows w" using sto_rows(1,3) [OF put(1)] FindActive_rows [OF fa(1)] fa(2) by simp_all
  then obtain w3 where ins: "run_state (Insert repo ?r) w2 = (Inr (), w3)" "up w3"
    using Insert_up [of w2 ?r] new by auto
  have "sto_up w3" using repo_sto_up(1) [OF ins(1)] put(2) by simp
  then show ?thesis
    using fa put ins prep env s by (simp add: Upload_def upload_new_def NewDeleteToken_def Let_def)
qed

end

section \<open>An insert that is not confirmed\<close>

text \<open>
  The program's own repository and storage: the lookup is answered, the new row is stored, and the answer to
  the insert is lost. The upload takes its object back, and the row stays.
\<close>

context outside_services
begin

lemma Upload_unconfirmed:
  assumes s: "repository s = PostgresFiles" "objectStorage s = R2Storage r2"
    and faults: "db_faults w = NoFault # FailAfter o' # fs" and up: "s3_up (pg.more w)"
    and prep: "upload_prepare uni env input = Inr (ct, body, chk)"
    and env: "temp_seek env = None" "env_rand env = Inr buf"
    and none: "active_with_checksum chk (env_now env) (files w) = []"
    and new: "env_uuid env \<notin> file_ID ` set (files w)"
    and r: "r = new_record s env input ct body chk (EncodeToString buf)"
  shows "\<exists>e w'. run_state (Upload uni s env input) w = (Inl e, w') \<and> files w' = files w @ [r] \<and>
    db_faults w' = fs \<and> R2Objects r2 bkt w' (ObjectKey r) = None"
proof -
  let ?put = "\<lparr>Key = env_key env input, Body = body, put_ContentType = ct, put_SizeBytes = int (length body)\<rparr>"
  let ?w1 = "w\<lparr>db_faults := FailAfter o' # fs\<rparr>"
  have fa: "run_state (FindActiveByChecksum PostgresFiles chk (env_now env)) w = (Inl ErrFileNotFound, ?w1)"
    using none by (simp add: PostgresFiles_def pg_FindActiveByChecksum_def run_pgScan_NoFault [OF faults])
  have "s3_up (pg.more ?w1)" using up by simp
  from r2.Put_up [OF this] obtain w2 where put: "run_state (PutObject (R2Storage r2) ?put) ?w1 = (Inr (), w2)"
    and up2: "s3_up (pg.more w2)" by blast
  have w2: "files w2 = files w" "db_faults w2 = FailAfter o' # fs"
    using R2_keeps(1) [OF put] by (simp_all add: pg.truncate_def pg.defs)
  let ?w3 = "w2\<lparr>db_faults := fs, files := files w @ [r]\<rparr>"
  have id: "file_ID r = env_uuid env" "ObjectKey r = env_key env input" by (simp_all add: r)
  have ins: "run_state (Insert PostgresFiles r) w2 = (Inl (Wrap ''insert file record'' (outside_error o')), ?w3)"
    using run_pg_Insert_FailAfter [OF w2(2), of r] new w2(1) id by (simp add: PostgresFiles_def)
  have "s3_up (pg.more ?w3)" using up2 by simp
  from r2.Delete_up [OF this] obtain w4 where del: "run_state (DeleteObject (R2Storage r2) (env_key env input)) ?w3 = (Inr (), w4)"
    by blast
  have w4: "files w4 = files w @ [r]" "db_faults w4 = fs"
    using R2_keeps(2) [OF del] by (simp_all add: pg.truncate_def pg.defs)
  have "R2Objects r2 bkt w4 (ObjectKey r) = None" using r2.Delete_ok [OF del] id by simp
  moreover have "run_state (Upload uni s env input) w =
      (Inl (Wrap ''persist file metadata'' (Wrap ''insert file record'' (outside_error o'))), w4)"
    using fa put ins del prep env s r by (simp add: Upload_def upload_new_def NewDeleteToken_def Let_def)
  ultimately show ?thesis using w4 by blast
qed

end

end
