(* ===== verification/Ratelimit.thy ===== *)
theory Ratelimit
  imports Prelude
begin

text \<open>
  \<^verbatim>\<open>internal/ratelimit/limiter.go\<close>: a buffered channel used as a counting semaphore. The model keeps
  its capacity and the number of values in it. A negative capacity makes \<^verbatim>\<open>make\<close> panic; receiving from
  an empty channel blocks; both are \<open>None\<close>. \<open>limiter_step\<close> is the handlers that share one limiter: a
  request either enters and holds a slot until its deferred \<^verbatim>\<open>Release\<close>, or is turned away.
\<close>

record ConcurrencyLimiter =
  capacity :: nat
  in_use :: nat

definition NewConcurrencyLimiter :: "int \<Rightarrow> ConcurrencyLimiter option" where
  "NewConcurrencyLimiter maxConcurrent =
    (if maxConcurrent < 0 then None else Some \<lparr>capacity = nat maxConcurrent, in_use = 0\<rparr>)"

definition TryAcquire :: "ConcurrencyLimiter \<Rightarrow> bool \<times> ConcurrencyLimiter" where
  "TryAcquire c = (if in_use c < capacity c then (True, c\<lparr>in_use := in_use c + 1\<rparr>) else (False, c))"

definition Release :: "ConcurrencyLimiter \<Rightarrow> ConcurrencyLimiter option" where
  "Release c = (if in_use c = 0 then None else Some (c\<lparr>in_use := in_use c - 1\<rparr>))"

inductive limiter_step :: "ConcurrencyLimiter \<times> nat set \<Rightarrow> ConcurrencyLimiter \<times> nat set \<Rightarrow> bool" where
  enter: "i \<notin> A \<Longrightarrow> TryAcquire c = (True, c') \<Longrightarrow> limiter_step (c, A) (c', insert i A)"
| turned_away: "i \<notin> A \<Longrightarrow> TryAcquire c = (False, c') \<Longrightarrow> limiter_step (c, A) (c', A)"
| leave: "i \<in> A \<Longrightarrow> Release c = Some c' \<Longrightarrow> limiter_step (c, A) (c', A - {i})"

inductive_cases limiter_stepE: "limiter_step (c, A) (c', A')"

definition limiter_inv :: "nat \<Rightarrow> ConcurrencyLimiter \<times> nat set \<Rightarrow> bool" where
  "limiter_inv n = (\<lambda>(c, A). capacity c = n \<and> finite A \<and> in_use c = card A \<and> in_use c \<le> n)"

lemma limiter_inv_step:
  "limiter_step s s' \<Longrightarrow> limiter_inv n s \<Longrightarrow> limiter_inv n s'"
  by (induction rule: limiter_step.induct)
     (auto simp: limiter_inv_def TryAcquire_def Release_def card_gt_0_iff split: if_splits)

lemma limiter_inv_reach:
  "limiter_step\<^sup>*\<^sup>* s s' \<Longrightarrow> limiter_inv n s \<Longrightarrow> limiter_inv n s'"
  by (induction rule: rtranclp_induct) (auto intro: limiter_inv_step)

lemma limiter_inv_New: "NewConcurrencyLimiter n = Some c \<Longrightarrow> limiter_inv (nat n) (c, {})"
  by (auto simp: NewConcurrencyLimiter_def limiter_inv_def split: if_splits)

end
