(* ===== verification/Response.thy ===== *)
theory Response
  imports Errors
begin

text \<open>
  \<^verbatim>\<open>internal/response/response.go\<close> and what handlers see of HTTP. A body is the JSON value that
  \<^verbatim>\<open>json.NewEncoder\<close> is given, with struct fields under their tags; a header lookup answers the empty
  string for a header that is not there, as \<^verbatim>\<open>http.Header.Get\<close> does. \<open>JSeconds d\<close> is the number of seconds, a
  \<^verbatim>\<open>float64\<close>, in the duration \<open>d\<close>.
\<close>

datatype json =
    JNull
  | JBool bool
  | JInt int
  | JString string
  | JSeconds int
  | JList "json list"
  | JObject "(string \<times> json) list"

record http_response =
  code :: int
  content_type :: string
  resp_json :: "json option"

record http_request =
  header :: "string \<Rightarrow> string"
  RemoteAddr :: string
  query :: "string \<Rightarrow> string"
  urlParam :: "string \<Rightarrow> string"

definition ErrorBody :: "string \<Rightarrow> json" where
  "ErrorBody message = JObject [(''error'', JString message)]"

definition response_JSON :: "int \<Rightarrow> json option \<Rightarrow> http_response" where
  "response_JSON status payload = \<lparr>code = status, content_type = ''application/json'', resp_json = payload\<rparr>"

definition response_Error :: "int \<Rightarrow> string \<Rightarrow> http_response" where
  "response_Error status message = response_JSON status (Some (ErrorBody message))"

text \<open>A nil slice of strings is encoded as \<^verbatim>\<open>null\<close>.\<close>

definition json_strings :: "string slice \<Rightarrow> json" where
  "json_strings s = (case s of None \<Rightarrow> JNull | Some xs \<Rightarrow> JList (map JString xs))"

lemma response_sel [simp]:
  "code (response_JSON status payload) = status" "resp_json (response_JSON status payload) = payload"
  "code (response_Error status message) = status"
  "resp_json (response_Error status message) = Some (ErrorBody message)"
  by (simp_all add: response_JSON_def response_Error_def)

section \<open>Client addresses\<close>

text \<open>The host part of \<^verbatim>\<open>net.SplitHostPort\<close>, or \<open>None\<close> where it reports an error.\<close>

definition last_index :: "char \<Rightarrow> string \<Rightarrow> nat option" where
  "last_index c s = (if c \<in> set s then Some (length s - 1 - length (takeWhile (\<lambda>x. x \<noteq> c) (rev s))) else None)"

definition index :: "char \<Rightarrow> string \<Rightarrow> nat option" where
  "index c s = (if c \<in> set s then Some (length (takeWhile (\<lambda>x. x \<noteq> c) s)) else None)"

definition split_host :: "string \<Rightarrow> nat \<Rightarrow> (string \<times> nat \<times> nat) option" where
  "split_host hostport i =
    (if HasPrefix hostport ''[''
     then (case index (CHR '']'') hostport of
             None \<Rightarrow> None
           | Some e \<Rightarrow> if e + 1 = i then Some (take (e - 1) (drop 1 hostport), 1, e + 1) else None)
     else if CHR '':'' \<in> set (take i hostport) then None else Some (take i hostport, 0, 0))"

definition SplitHostPort :: "string \<Rightarrow> string option" where
  "SplitHostPort hostport =
    (case last_index (CHR '':'') hostport of
       None \<Rightarrow> None
     | Some i \<Rightarrow>
         (case split_host hostport i of
            None \<Rightarrow> None
          | Some (host, j, k) \<Rightarrow>
              if CHR ''['' \<in> set (drop j hostport) \<or> CHR '']'' \<in> set (drop k hostport) then None
              else Some host))"

lemma takeWhile_rev_port:
  "CHR '':'' \<notin> set port \<Longrightarrow> takeWhile (\<lambda>x. x \<noteq> CHR '':'') (rev (host @ '':'' @ port)) = rev port"
  unfolding rev_append append_assoc by (subst takeWhile_append2) auto

text \<open>\<^verbatim>\<open>host:port\<close> with a plain host gives the host.\<close>

lemma SplitHostPort_plain:
  assumes "set host \<inter> {CHR '':'', CHR ''['', CHR '']''} = {}" and "set port \<inter> {CHR '':'', CHR ''['', CHR '']''} = {}"
  shows "SplitHostPort (host @ '':'' @ port) = Some host"
proof -
  have port: "CHR '':'' \<notin> set port" using assms(2) by auto
  have "last_index (CHR '':'') (host @ '':'' @ port) = Some (length host)"
    using takeWhile_rev_port [OF port, of host] by (simp add: last_index_def)
  moreover have "\<not> HasPrefix (host @ '':'' @ port) ''[''"
    using assms(1) by (cases host) (auto simp: HasPrefix_def)
  ultimately show ?thesis using assms by (auto simp: SplitHostPort_def split_host_def)
qed

end
