(* ===== verification/Upload_Handler.thy ===== *)
theory Upload_Handler
  imports Upload_Service Ratelimit Response
begin

text \<open>
  \<^verbatim>\<open>internal/upload/handler.go\<close>. Parsing the multipart body is the standard library's and depends on
  the body: \<open>form\<close> gives its outcome under a limit on the body's size. The handler's own state is the
  limiter and the three Prometheus counters, as whole numbers. A receive from the limiter's channel that
  would never end is \<open>None\<close>. A time read from the database carries the server's zone, \<open>zone\<close> seconds
  east; the record of a fresh upload carries UTC.
\<close>

datatype form_result = InvalidForm | MissingFile | FormFile string int reader

record upload_handler =
  concurrencyLimiter :: ConcurrencyLimiter
  uploadsTotal :: int
  uploadBytesTotal :: int
  uploadErrorsTotal :: int

definition extractClientIP :: "http_request \<Rightarrow> string" where
  "extractClientIP r =
    (let cfConnectingIP = header r ''CF-Connecting-IP'';
         forwardedFor = header r ''X-Forwarded-For'';
         firstHop = TrimSpace (hd (Split forwardedFor (CHR '','')))
     in if cfConnectingIP \<noteq> [] then cfConnectingIP
        else if forwardedFor \<noteq> [] \<and> firstHop \<noteq> [] then firstHop
        else case SplitHostPort (RemoteAddr r) of None \<Rightarrow> RemoteAddr r | Some host \<Rightarrow> host)"

definition hashIP :: "string \<Rightarrow> string \<Rightarrow> string" where
  "hashIP ip salt = EncodeToString (hash_Sum (hash_Write ip (hash_Write salt sha256_New)))"

definition writeUploadError :: "error \<Rightarrow> http_response" where
  "writeUploadError err =
    (if errors_Is err DeadlineExceeded then response_Error 504 ''upload timed out''
     else if errors_Is err ErrFileNotFound then response_Error 500 ''internal error processing upload''
     else case as_ValidationError err of
         Some msg \<Rightarrow> response_Error 400 msg
       | None \<Rightarrow> response_Error 500 ''failed to process upload'')"

definition toUploadResponseBody :: "int \<Rightarrow> Result \<Rightarrow> json" where
  "toUploadResponseBody zone result =
    (let record = Record result; off = (if Duplicate result then zone else 0)
     in JObject ([(''id'', JString (file_ID record)), (''original_name'', JString (OriginalName record)),
          (''content_type'', JString (ContentType record)), (''size_bytes'', JInt (SizeBytes record)),
          (''checksum_sha256'', JString (ChecksumSHA256 record)), (''object_key'', JString (ObjectKey record)),
          (''cdn_url'', JString (CDNURL record)), (''created_at'', JString (Format off (file_CreatedAt record))),
          (''expires_at'', JString (Format off (file_ExpiresAt record))),
          (''duplicate'', JBool (Duplicate result))]
        @ (if DeleteToken result = [] then [] else [(''delete_token'', JString (DeleteToken result))])))"

definition serve_admitted ::
  "(string \<Rightarrow> string) \<Rightarrow> 'w upload_Service \<Rightarrow> validatorRules \<Rightarrow> upload_env \<Rightarrow> int \<Rightarrow> string \<Rightarrow> (int \<Rightarrow> form_result)
    \<Rightarrow> upload_handler \<Rightarrow> 'w \<Rightarrow> http_response \<times> upload_handler \<times> 'w" where
  "serve_admitted uni s rules env zone ipHash form h w =
    (case form (i64 (maxSizeBytes rules + 2 ^ 20)) of
       InvalidForm \<Rightarrow> (response_Error 400 ''invalid multipart form data'', h, w)
     | MissingFile \<Rightarrow> (response_Error 400 ''missing file field in form data'', h, w)
     | FormFile filename fileSize body \<Rightarrow>
         (case run_state (Upload uni s env \<lparr>in_OriginalName = filename, in_SizeBytes = fileSize,
                 in_Content = body, in_UploaderIPHash = ipHash\<rparr>) w of
            (Inl err, w') \<Rightarrow>
              (writeUploadError err, h\<lparr>uploadErrorsTotal := uploadErrorsTotal h + 1\<rparr>, w')
          | (Inr result, w') \<Rightarrow>
              (response_JSON 200 (Some (toUploadResponseBody zone result)),
               h\<lparr>uploadsTotal := uploadsTotal h + 1,
                 uploadBytesTotal := uploadBytesTotal h + SizeBytes (Record result)\<rparr>, w')))"

definition Upload_ServeHTTP ::
  "(string \<Rightarrow> string) \<Rightarrow> 'w upload_Service \<Rightarrow> validatorRules \<Rightarrow> upload_env \<Rightarrow> int \<Rightarrow> string \<Rightarrow> (int \<Rightarrow> form_result)
    \<Rightarrow> http_request \<Rightarrow> upload_handler \<Rightarrow> 'w \<Rightarrow> (http_response \<times> upload_handler \<times> 'w) option" where
  "Upload_ServeHTTP uni s rules env zone salt form r h w =
    (let ipHash = hashIP (extractClientIP r) salt
     in case TryAcquire (concurrencyLimiter h) of
          (False, l) \<Rightarrow> Some (response_Error 503 ''server is busy, please try again shortly'', h\<lparr>concurrencyLimiter := l\<rparr>, w)
        | (True, l) \<Rightarrow>
            (case serve_admitted uni s rules env zone ipHash form (h\<lparr>concurrencyLimiter := l\<rparr>) w of
               (resp, h', w') \<Rightarrow>
                 (case Release (concurrencyLimiter h') of
                    None \<Rightarrow> None
                  | Some l' \<Rightarrow> Some (resp, h'\<lparr>concurrencyLimiter := l'\<rparr>, w'))))"

section \<open>What the handler answers\<close>

lemma hashIP_eq: "hashIP ip salt = sha256_hex (salt @ ip)"
  by (simp add: hashIP_def hash_Sum_def hash_Write_def sha256_New_def sha256_hex_def)

lemma serve_admitted_limiter:
  "serve_admitted uni s rules env zone ipHash form h w = (resp, h', w') \<Longrightarrow> concurrencyLimiter h' = concurrencyLimiter h"
  by (auto simp: serve_admitted_def split: form_result.splits prod.splits sum.splits)

lemma TryAcquire_Release:
  "TryAcquire c = (True, c') \<Longrightarrow> Release c' = Some c"
  by (auto simp: TryAcquire_def Release_def split: if_splits)

text \<open>The slot a request took is there to be given back, so the deferred \<^verbatim>\<open>Release\<close> never waits.\<close>

lemma Upload_ServeHTTP_cases:
  obtains
    (busy) "capacity (concurrencyLimiter h) \<le> in_use (concurrencyLimiter h)"
      and "Upload_ServeHTTP uni s rules env zone salt form r h w =
        Some (response_Error 503 ''server is busy, please try again shortly'', h, w)"
  | (served) l resp h1 w1 where "\<not> capacity (concurrencyLimiter h) \<le> in_use (concurrencyLimiter h)"
      and "serve_admitted uni s rules env zone (hashIP (extractClientIP r) salt) form (h\<lparr>concurrencyLimiter := l\<rparr>) w = (resp, h1, w1)"
      and "Upload_ServeHTTP uni s rules env zone salt form r h w =
        Some (resp, h1\<lparr>concurrencyLimiter := concurrencyLimiter h\<rparr>, w1)"
proof (cases "TryAcquire (concurrencyLimiter h)")
  case (Pair ok l)
  show thesis
  proof (cases ok)
    case True
    obtain resp h1 w1 where sa: "serve_admitted uni s rules env zone (hashIP (extractClientIP r) salt) form
        (h\<lparr>concurrencyLimiter := l\<rparr>) w = (resp, h1, w1)"
      by (metis prod_cases3)
    have "Release (concurrencyLimiter h1) = Some (concurrencyLimiter h)"
      using serve_admitted_limiter [OF sa] TryAcquire_Release Pair True by simp
    then show thesis using Pair True sa
      by (intro served [OF _ sa]) (auto simp: Upload_ServeHTTP_def Let_def TryAcquire_def split: if_splits)
  next
    case False
    then have "l = concurrencyLimiter h" "capacity (concurrencyLimiter h) \<le> in_use (concurrencyLimiter h)"
      using Pair by (auto simp: TryAcquire_def split: if_splits)
    then show thesis using Pair False by (intro busy) (simp_all add: Upload_ServeHTTP_def Let_def)
  qed
qed

lemma Upload_ServeHTTP_total:
  obtains resp h' w' where "Upload_ServeHTTP uni s rules env zone salt form r h w = Some (resp, h', w')"
  by (rule Upload_ServeHTTP_cases [of h uni s rules env zone salt form r w]) (rule that)+

lemma writeUploadError_code [simp]: "code (writeUploadError err) \<noteq> 503"
  by (simp add: writeUploadError_def split: option.splits)

end
