(* ===== verification/File_Service.thy ===== *)
theory File_Service
  imports Backend Idgen Upload_Service
begin

text \<open>
  \<^verbatim>\<open>internal/file/service.go\<close>: looking a file up and deleting it before its time with the delete
  token. The clock reading is an argument. A nil \<^verbatim>\<open>Purger\<close> is \<open>None\<close>.
\<close>

record 'w file_Service =
  f_repository :: "'w FileRepository"
  f_objectStorage :: "'w ObjectStorage"
  f_cachePurger :: "'w Purger option"
  f_cachePurgeOn :: bool

definition file_NewService ::
  "'w FileRepository \<Rightarrow> 'w ObjectStorage \<Rightarrow> 'w Purger option \<Rightarrow> bool \<Rightarrow> 'w file_Service" where
  "file_NewService repo sto purger on = \<lparr>f_repository = repo, f_objectStorage = sto,
     f_cachePurger = purger, f_cachePurgeOn = on\<rparr>"

lemma file_NewService_sel [simp]:
  "f_repository (file_NewService repo sto purger on) = repo"
  "f_objectStorage (file_NewService repo sto purger on) = sto"
  "f_cachePurger (file_NewService repo sto purger on) = purger"
  by (simp_all add: file_NewService_def)

record Info =
  info_Record :: FileRecord
  info_Expired :: bool

definition GetInfo :: "'w file_Service \<Rightarrow> time \<Rightarrow> string \<Rightarrow> ('w, error, Info) io" where
  "GetInfo s now fid =
    tryE (FindByID (f_repository s) fid)
      (\<lambda>err. if errors_Is err ErrFileNotFound then ErrNotFound else err)
      (\<lambda>record. State_Monad.return (Inr \<lparr>info_Record = record, info_Expired = file_IsExpired record now\<rparr>))"

definition purge_if_on :: "bool \<Rightarrow> 'w Purger option \<Rightarrow> string list \<Rightarrow> ('w, unit) state" where
  "purge_if_on on purger urls =
    (case purger of
       Some p \<Rightarrow> if on \<and> urls \<noteq> [] then do { _ \<leftarrow> PurgeURLs p urls; State_Monad.return () } else State_Monad.return ()
     | None \<Rightarrow> State_Monad.return ())"

definition DeleteBeforeTTL :: "'w file_Service \<Rightarrow> time \<Rightarrow> string \<Rightarrow> string \<Rightarrow> ('w, error, unit) io" where
  "DeleteBeforeTTL s now fid deleteToken =
    tryE (FindByID (f_repository s) fid)
      (\<lambda>err. if errors_Is err ErrFileNotFound then ErrNotFound else err)
      (\<lambda>record.
        if \<not> DeleteTokenMatches deleteToken (DeleteTokenHash record) then State_Monad.return (Inl ErrInvalidDeleteToken)
        else if file_IsExpired record now then State_Monad.return (Inl ErrAlreadyExpired)
        else do {
          _ \<leftarrow> DeleteObject (f_objectStorage s) (ObjectKey record);
          deleted \<leftarrow> DeleteByID (f_repository s) fid;
          case deleted of
            Inl err \<Rightarrow>
              if \<not> errors_Is err ErrFileNotFound then State_Monad.return (Inl err)
              else do {
                _ \<leftarrow> purge_if_on (f_cachePurgeOn s) (f_cachePurger s) (if CDNURL record \<noteq> [] then [CDNURL record] else []);
                State_Monad.return (Inr ())
              }
          | Inr _ \<Rightarrow> do {
              _ \<leftarrow> purge_if_on (f_cachePurgeOn s) (f_cachePurger s) (if CDNURL record \<noteq> [] then [CDNURL record] else []);
              State_Monad.return (Inr ())
            }
        })"

context file_backend
begin

lemma purge_if_on_same:
  assumes "run_state (purge_if_on on purger urls) w = (x, w')"
  shows "rows w' = rows w" "objs w' = objs w" "up w' = up w" "sto_up w' = sto_up w"
  using assms purge_same
  by (auto simp: purge_if_on_def split: option.splits if_splits prod.splits)

lemma GetInfo_cases:
  assumes "run_state (GetInfo s now fid) w = (res, w')" and "f_repository s = repo"
  obtains
    (found) r where "r \<in> set (rows w)" and "file_ID r = fid"
      and "res = Inr \<lparr>info_Record = r, info_Expired = file_IsExpired r now\<rparr>"
      and "rows w' = rows w" and "objs w' = objs w"
  | (missing) "res = Inl ErrNotFound" and "fid \<notin> file_ID ` set (rows w)"
      and "rows w' = rows w" and "objs w' = objs w"
  | (lost) e where "res = Inl e" and "\<not> errors_Is e ErrFileNotFound" and "rows w' = rows w" and "objs w' = objs w"
proof -
  obtain fr w1 where f: "run_state (FindByID repo fid) w = (fr, w1)" by force
  have w': "w' = w1" using assms f by (auto simp: GetInfo_def split: sum.splits)
  have same: "rows w' = rows w" "objs w' = objs w"
    using FindByID_rows [OF f] repo_objs(3) [OF f] w' by simp_all
  show thesis
  proof (cases fr)
    case (Inr r)
    then have "res = Inr \<lparr>info_Record = r, info_Expired = file_IsExpired r now\<rparr>"
      using assms f by (simp add: GetInfo_def)
    then show thesis using found [OF _ _ _ same] FindByID_ok [OF f [unfolded Inr]] by blast
  next
    case (Inl e)
    note fe = FindByID_err [OF f [unfolded Inl]]
    show thesis
    proof (cases "errors_Is e ErrFileNotFound")
      case True
      then have "res = Inl ErrNotFound" using assms f Inl by (simp add: GetInfo_def)
      then show thesis using missing [OF _ _ same] fe True by blast
    next
      case False
      then have "res = Inl e" using assms f Inl by (simp add: GetInfo_def)
      then show thesis using lost [OF _ _ same] False by blast
    qed
  qed
qed

text \<open>
  A deletion either changes nothing, or the caller knew the token of an unexpired record with that id,
  and then nothing but that record and its object is affected.
\<close>

lemma DeleteBeforeTTL_cases:
  assumes "run_state (DeleteBeforeTTL s now fid token) w = (res, w')"
    and s: "f_repository s = repo" "f_objectStorage s = sto" "f_cachePurger s = purger"
  obtains
    (unchanged) e where "res = Inl e" and "rows w' = rows w" and "objs w' = objs w"
  | (deleted) r where "r \<in> set (rows w)" and "file_ID r = fid"
      and "DeleteTokenMatches token (DeleteTokenHash r)" and "\<not> file_IsExpired r now"
      and "rows w' = rows w \<or> rows w' = delete_rows fid (rows w)"
      and "res = Inr () \<Longrightarrow> rows w' = delete_rows fid (rows w)"
      and "objs w' = objs w \<or> objs w' = (objs w)(ObjectKey r := None)"
      and "sto_up w \<Longrightarrow> objs w' = (objs w)(ObjectKey r := None)"
proof -
  obtain fr w1 where f: "run_state (FindByID repo fid) w = (fr, w1)" by force
  have same: "rows w1 = rows w" "objs w1 = objs w" "sto_up w1 = sto_up w"
    using FindByID_rows [OF f] repo_objs(3) [OF f] repo_sto_up(3) [OF f] by simp_all
  note run = assms(1) [unfolded DeleteBeforeTTL_def s]
  show thesis
  proof (cases fr)
    case (Inl e)
    then have "w' = w1 \<and> (\<exists>e. res = Inl e)" using run f by auto
    then show thesis using unchanged same(1,2) by metis
  next
    case (Inr r)
    note fok = FindByID_ok [OF f [unfolded Inr]]
    show thesis
    proof (cases "DeleteTokenMatches token (DeleteTokenHash r) \<and> \<not> file_IsExpired r now")
      case False
      then have "w' = w1 \<and> (\<exists>e. res = Inl e)" using run f Inr by (auto split: if_splits)
      then show thesis using unchanged same(1,2) by metis
    next
      case True
      obtain od w2 where o: "run_state (DeleteObject sto (ObjectKey r)) w1 = (od, w2)" by force
      obtain dr w3 where d: "run_state (DeleteByID repo fid) w2 = (dr, w3)" by force
      have rows2: "rows w2 = rows w" using sto_rows(2) [OF o] same by simp
      have objs3: "objs w3 = objs w2" using repo_objs(4) [OF d] .
      have end_: "rows w' = rows w3 \<and> objs w' = objs w3 \<and>
          (res = Inr () \<longrightarrow> (case dr of Inl e \<Rightarrow> errors_Is e ErrFileNotFound | Inr _ \<Rightarrow> True))"
        using run f Inr True o d
        by (auto split: sum.splits if_splits prod.splits dest: purge_if_on_same)
      have o2: "objs w2 = objs w \<or> objs w2 = (objs w)(ObjectKey r := None)"
        using Delete_objs [OF o] same by simp
      have o_up: "objs w2 = (objs w)(ObjectKey r := None)" if "sto_up w"
      proof -
        have "sto_up w1" using that same by simp
        then have "od = Inr ()" using Delete_up [of w1 "ObjectKey r"] o by auto
        then show ?thesis using Delete_ok o same by fastforce
      qed
      have d3: "rows w3 = rows w2 \<or> rows w3 = delete_rows fid (rows w2)"
        using DeleteByID_rows [OF d] .
      have gone: "rows w3 = delete_rows fid (rows w2)"
        if "case dr of Inl e \<Rightarrow> errors_Is e ErrFileNotFound | Inr _ \<Rightarrow> True"
        using d3 DeleteByID_gone [OF d that] delete_rows_id by metis
      show thesis
        by (rule deleted [of r])
           (use fok True end_ objs3 rows2 o2 o_up d3 gone in auto)
    qed
  qed
qed

lemma DeleteBeforeTTL_integrity:
  assumes "run_state (DeleteBeforeTTL s now fid token) w = (res, w')"
    and "f_repository s = repo" "f_objectStorage s = sto" "f_cachePurger s = purger"
    and "integrity (rows w) (objs w)"
  shows "integrity (rows w') (objs w')"
  using assms(1-4)
proof (cases rule: DeleteBeforeTTL_cases)
  case unchanged
  then show ?thesis using assms(5) by simp
next
  case (deleted r)
  have "integrity (rows w) (objs w')"
    using deleted(7) by (intro integrity_fewer_objects [OF assms(5)]) auto
  then show ?thesis using deleted(5) integrity_fewer_rows by auto
qed

lemma DeleteBeforeTTL_up:
  assumes s: "f_repository s = repo" "f_objectStorage s = sto" "f_cachePurger s = purger"
    and "up w" and "sto_up w" and "r \<in> set (rows w)" and "distinct (map file_ID (rows w))"
    and "DeleteTokenMatches token (DeleteTokenHash r)" and "\<not> file_IsExpired r now"
  shows "\<exists>w'. run_state (DeleteBeforeTTL s now (file_ID r) token) w = (Inr (), w') \<and>
    rows w' = delete_rows (file_ID r) (rows w) \<and> objs w' = (objs w)(ObjectKey r := None)"
proof -
  have "file_ID r \<in> file_ID ` set (rows w)" using assms(6) by simp
  then obtain r' w1 where f: "run_state (FindByID repo (file_ID r)) w = (Inr r', w1)" "up w1"
    using FindByID_up [OF assms(4)] by blast
  have r': "r' = r"
    using FindByID_ok [OF f(1)] assms(6) distinct_map_eq [OF assms(7)] by blast
  have w1: "rows w1 = rows w" "objs w1 = objs w" "sto_up w1"
    using FindByID_rows [OF f(1)] repo_objs(3) [OF f(1)] repo_sto_up(3) [OF f(1)] assms(5) by simp_all
  obtain w2 where o: "run_state (DeleteObject sto (ObjectKey r)) w1 = (Inr (), w2)"
    using Delete_up w1(3) by blast
  have w2: "rows w2 = rows w" "up w2" using sto_rows(2,4) [OF o] w1 f(2) by simp_all
  then obtain w3 where d: "run_state (DeleteByID repo (file_ID r)) w2 = (Inr (), w3)"
    using DeleteByID_up [of w2 "file_ID r"] assms(6) by auto
  let ?urls = "if CDNURL r \<noteq> [] then [CDNURL r] else []"
  obtain u w4 where pg: "run_state (purge_if_on (f_cachePurgeOn s) purger ?urls) w3 = (u, w4)"
    by (cases "run_state (purge_if_on (f_cachePurgeOn s) purger ?urls) w3")
  have "run_state (DeleteBeforeTTL s now (file_ID r) token) w = (Inr (), w4)"
    using f(1) o d pg assms(8,9) r' s by (simp add: DeleteBeforeTTL_def)
  moreover have "rows w4 = delete_rows (file_ID r) (rows w)"
    using purge_if_on_same [OF pg] DeleteByID_ok [OF d] w2 by simp
  moreover have "objs w4 = (objs w)(ObjectKey r := None)"
    using purge_if_on_same [OF pg] repo_objs(4) [OF d] Delete_ok [OF o] w1 by simp
  ultimately show ?thesis by blast
qed

end

end
