(* ===== verification/File_Handler.thy ===== *)
theory File_Handler
  imports File_Service Response
begin

text \<open>
  \<^verbatim>\<open>internal/file/handler.go\<close>: the two routes of a stored file. \<open>zone\<close> is the offset of the server's
  time zone, which the times read from the database carry.
\<close>

definition infoResponseBody :: "int \<Rightarrow> Info \<Rightarrow> json" where
  "infoResponseBody zone info =
    (let record = info_Record info
     in JObject [(''id'', JString (file_ID record)), (''original_name'', JString (OriginalName record)),
          (''content_type'', JString (ContentType record)), (''size_bytes'', JInt (SizeBytes record)),
          (''checksum_sha256'', JString (ChecksumSHA256 record)), (''object_key'', JString (ObjectKey record)),
          (''cdn_url'', JString (CDNURL record)), (''created_at'', JString (Format zone (file_CreatedAt record))),
          (''expires_at'', JString (Format zone (file_ExpiresAt record))), (''expired'', JBool (info_Expired info))])"

definition Handler_GetInfo :: "'w file_Service \<Rightarrow> int \<Rightarrow> time \<Rightarrow> http_request \<Rightarrow> ('w, http_response) state" where
  "Handler_GetInfo s zone now r = do {
     res \<leftarrow> GetInfo s now (urlParam r ''id'');
     State_Monad.return (case res of
       Inl err \<Rightarrow>
         if errors_Is err ErrNotFound then response_Error 404 ''file not found''
         else response_Error 500 ''failed to retrieve file info''
     | Inr info \<Rightarrow>
         if info_Expired info then response_JSON 410 (Some (infoResponseBody zone info))
         else response_JSON 200 (Some (infoResponseBody zone info)))
   }"

definition extractDeleteToken :: "http_request \<Rightarrow> string" where
  "extractDeleteToken r =
    (if header r ''X-Delete-Token'' \<noteq> [] then header r ''X-Delete-Token'' else query r ''delete_token'')"

definition Handler_Delete :: "'w file_Service \<Rightarrow> time \<Rightarrow> http_request \<Rightarrow> ('w, http_response) state" where
  "Handler_Delete s now r = do {
     res \<leftarrow> DeleteBeforeTTL s now (urlParam r ''id'') (extractDeleteToken r);
     State_Monad.return (case res of
       Inl err \<Rightarrow>
         if errors_Is err ErrNotFound then response_Error 404 ''file not found''
         else if errors_Is err ErrInvalidDeleteToken then response_Error 403 ''invalid or missing delete token''
         else if errors_Is err ErrAlreadyExpired then response_Error 410 ''file has already expired''
         else response_Error 500 ''failed to delete file''
     | Inr _ \<Rightarrow> response_JSON 200 (Some (JObject [(''deleted'', JBool True)])))
   }"

end
