(* ===== verification/Sweeper.thy ===== *)
theory Sweeper
  imports File_Service
begin

text \<open>
  \<^verbatim>\<open>internal/sweeper/sweeper.go\<close>. \<open>sweepOnce\<close> is one tick and returns what it logs; \<open>sweeper_Run\<close> is the
  loop: one sweep at the start and one per tick until the context is done, here the list of the
  instants at which a sweep runs.
\<close>

definition batchSize :: int where
  "batchSize = 100"

record 'w Sweeper =
  w_repository :: "'w FileRepository"
  w_objectStorage :: "'w ObjectStorage"
  w_cachePurger :: "'w Purger option"
  w_cachePurgeOn :: bool

definition sweeper_New ::
  "'w FileRepository \<Rightarrow> 'w ObjectStorage \<Rightarrow> 'w Purger option \<Rightarrow> bool \<Rightarrow> 'w Sweeper" where
  "sweeper_New repo sto purger on = \<lparr>w_repository = repo, w_objectStorage = sto,
     w_cachePurger = purger, w_cachePurgeOn = on\<rparr>"

lemma sweeper_New_sel [simp]:
  "w_repository (sweeper_New repo sto purger on) = repo"
  "w_objectStorage (sweeper_New repo sto purger on) = sto"
  "w_cachePurger (sweeper_New repo sto purger on) = purger"
  by (simp_all add: sweeper_New_def)

datatype sweep_log = FindExpiredFailed error | NothingExpired | Tick nat nat

fun sweep_loop :: "'w Sweeper \<Rightarrow> FileRecord list \<Rightarrow> string list \<Rightarrow> nat \<Rightarrow> ('w, string list \<times> nat) state" where
  "sweep_loop s [] purgeURLs deletedCount = State_Monad.return (purgeURLs, deletedCount)"
| "sweep_loop s (record # rest) purgeURLs deletedCount = do {
     d \<leftarrow> DeleteObject (w_objectStorage s) (ObjectKey record);
     case d of
       Inl _ \<Rightarrow> sweep_loop s rest purgeURLs deletedCount
     | Inr _ \<Rightarrow> do {
         r \<leftarrow> DeleteByID (w_repository s) (file_ID record);
         if (case r of Inl err \<Rightarrow> \<not> errors_Is err ErrFileNotFound | Inr _ \<Rightarrow> False)
         then sweep_loop s rest purgeURLs deletedCount
         else sweep_loop s rest
           (if CDNURL record \<noteq> [] then purgeURLs @ [CDNURL record] else purgeURLs) (deletedCount + 1)
       }
   }"

definition sweepOnce :: "'w Sweeper \<Rightarrow> time \<Rightarrow> ('w, sweep_log) state" where
  "sweepOnce s now = do {
     found \<leftarrow> FindExpired (w_repository s) now batchSize;
     case found of
       Inl err \<Rightarrow> State_Monad.return (FindExpiredFailed err)
     | Inr records \<Rightarrow>
         if records = [] then State_Monad.return NothingExpired
         else do {
           (purgeURLs, deletedCount) \<leftarrow> sweep_loop s records [] 0;
           _ \<leftarrow> purge_if_on (w_cachePurgeOn s) (w_cachePurger s) purgeURLs;
           State_Monad.return (Tick (length records) deletedCount)
         }
   }"

fun sweeper_Run :: "'w Sweeper \<Rightarrow> time list \<Rightarrow> ('w, sweep_log list) state" where
  "sweeper_Run s [] = State_Monad.return []"
| "sweeper_Run s (now # ticks) = do {
     l \<leftarrow> sweepOnce s now;
     ls \<leftarrow> sweeper_Run s ticks;
     State_Monad.return (l # ls)
   }"

text \<open>
  What a sweep may do to a store: it removes the rows of some of the given records, the object of each
  of them is gone, and no other object is touched.
\<close>

definition swept :: "FileRecord set \<Rightarrow> FileRecord list \<Rightarrow> bucket \<Rightarrow> FileRecord list \<Rightarrow> bucket \<Rightarrow> bool" where
  "swept R rs os rs' os' \<longleftrightarrow>
     (\<exists>D \<subseteq> R. rs' = filter (\<lambda>r. file_ID r \<notin> file_ID ` D) rs \<and> (\<forall>r \<in> D. os' (ObjectKey r) = None)) \<and>
     (\<forall>k. os' k = os k \<or> os' k = None \<and> k \<in> ObjectKey ` R)"

lemma sweptE:
  assumes "swept R rs os rs' os'"
  obtains D where "D \<subseteq> R" and "rs' = filter (\<lambda>r. file_ID r \<notin> file_ID ` D) rs"
    and "\<forall>r \<in> D. os' (ObjectKey r) = None"
  using assms by (auto simp: swept_def)

lemma swept_refl: "swept R rs os rs os"
  unfolding swept_def by (intro conjI exI [of _ "{}"]) simp_all

lemma swept_trans:
  assumes "swept R rs os rs' os'" and "swept R rs' os' rs'' os''"
  shows "swept R rs os rs'' os''"
proof -
  obtain D where D: "D \<subseteq> R" "rs' = filter (\<lambda>r. file_ID r \<notin> file_ID ` D) rs" "\<forall>r \<in> D. os' (ObjectKey r) = None"
    using assms(1) by (auto simp: swept_def)
  obtain E where E: "E \<subseteq> R" "rs'' = filter (\<lambda>r. file_ID r \<notin> file_ID ` E) rs'" "\<forall>r \<in> E. os'' (ObjectKey r) = None"
    using assms(2) by (auto simp: swept_def)
  have o: "\<forall>k. os' k = os k \<or> os' k = None \<and> k \<in> ObjectKey ` R" "\<forall>k. os'' k = os' k \<or> os'' k = None \<and> k \<in> ObjectKey ` R"
    using assms by (simp_all add: swept_def)
  have "rs'' = filter (\<lambda>r. file_ID r \<notin> file_ID ` (D \<union> E)) rs"
    using D(2) E(2) by (auto intro: filter_cong)
  moreover have "os'' (ObjectKey r) = None" if "r \<in> D \<union> E" for r
    using that D(3) E(3) o(2) [rule_format, of "ObjectKey r"] by auto
  ultimately have "\<exists>F \<subseteq> R. rs'' = filter (\<lambda>r. file_ID r \<notin> file_ID ` F) rs \<and> (\<forall>r \<in> F. os'' (ObjectKey r) = None)"
    using D(1) E(1) by (intro exI [of _ "D \<union> E"]) blast
  moreover have "\<forall>k. os'' k = os k \<or> os'' k = None \<and> k \<in> ObjectKey ` R" using o by metis
  ultimately show ?thesis unfolding swept_def by blast
qed

lemma swept_mono:
  assumes "swept R rs os rs' os'" and "R \<subseteq> R'"
  shows "swept R' rs os rs' os'"
proof -
  have "ObjectKey ` R \<subseteq> ObjectKey ` R'" using assms(2) by (rule image_mono)
  then have "\<forall>k. os' k = os k \<or> os' k = None \<and> k \<in> ObjectKey ` R'"
    using assms(1) unfolding swept_def by blast
  moreover obtain D where "D \<subseteq> R" "rs' = filter (\<lambda>r. file_ID r \<notin> file_ID ` D) rs" "\<forall>r \<in> D. os' (ObjectKey r) = None"
    using assms(1) unfolding swept_def by blast
  ultimately show ?thesis using assms(2) unfolding swept_def by (intro conjI exI [of _ D]) auto
qed

lemma swept_object:
  assumes "r \<in> R" and "os' = os \<or> os' = os(ObjectKey r := None)"
  shows "swept R rs os rs os'"
proof -
  have "\<forall>k. os' k = os k \<or> os' k = None \<and> k \<in> ObjectKey ` R"
    using assms by (metis fun_upd_apply image_eqI)
  then show ?thesis unfolding swept_def by (auto intro: exI [of _ "{}"])
qed

lemma swept_row:
  assumes "r \<in> R" and "os (ObjectKey r) = None" and "rs' = rs \<or> rs' = delete_rows (file_ID r) rs"
  shows "swept R rs os rs' os"
  using assms(3)
proof
  assume "rs' = delete_rows (file_ID r) rs"
  then have "rs' = filter (\<lambda>x. file_ID x \<notin> file_ID ` {r}) rs" by (simp add: delete_rows_def)
  then show ?thesis using assms(1,2) unfolding swept_def by (intro conjI exI [of _ "{r}"]) auto
qed (simp add: swept_refl)

context file_backend
begin

lemma sweep_loop_swept:
  assumes "run_state (sweep_loop s records urls n) w = (x, w')"
    and s: "w_repository s = repo" "w_objectStorage s = sto"
  shows "swept (set records) (rows w) (objs w) (rows w') (objs w')"
  using assms(1)
proof (induction records arbitrary: urls n w)
  case Nil
  then show ?case by (simp add: swept_refl)
next
  case (Cons r records)
  obtain d w1 where d: "run_state (DeleteObject sto (ObjectKey r)) w = (d, w1)" by force
  obtain e w2 where e: "run_state (DeleteByID repo (file_ID r)) w1 = (e, w2)" by force
  have rows1: "rows w1 = rows w" and objs2: "objs w2 = objs w1"
    using sto_rows(2) [OF d] repo_objs(4) [OF e] by simp_all
  have one: "swept (set (r # records)) (rows w) (objs w) (rows w1) (objs w1)"
    using swept_object [of r] Delete_objs [OF d] rows1 by simp
  show ?case
  proof (cases d)
    case (Inl err)
    then have "\<exists>urls n. run_state (sweep_loop s records urls n) w1 = (x, w')"
      using Cons.prems d s by auto
    then show ?thesis using swept_trans [OF one] Cons.IH swept_mono by (meson set_subset_Cons)
  next
    case (Inr u)
    have "objs w1 (ObjectKey r) = None" using Delete_ok [OF d [unfolded Inr]] by simp
    then have two: "swept (set (r # records)) (rows w1) (objs w1) (rows w2) (objs w2)"
      using swept_row [of r] DeleteByID_rows [OF e] objs2 by simp
    have "\<exists>urls n. run_state (sweep_loop s records urls n) w2 = (x, w')"
      using Cons.prems d e Inr s by (auto split: if_splits)
    then show ?thesis using swept_trans [OF swept_trans [OF one two]] Cons.IH swept_mono by (meson set_subset_Cons)
  qed
qed

lemma sweepOnce_swept:
  assumes "run_state (sweepOnce s now) w = (l, w')"
    and s: "w_repository s = repo" "w_objectStorage s = sto" "w_cachePurger s = purger"
  shows "\<exists>R \<subseteq> set (expired_rows now (rows w)). swept R (rows w) (objs w) (rows w') (objs w')"
proof -
  obtain f w1 where f: "run_state (FindExpired repo now batchSize) w = (f, w1)" by force
  have same: "rows w1 = rows w" "objs w1 = objs w"
    using FindExpired_rows [OF f] repo_objs(5) [OF f] by simp_all
  show ?thesis
  proof (cases "\<exists>rs. f = Inr rs \<and> rs \<noteq> []")
    case False
    then have "w' = w1" using assms(1) f s by (auto simp: sweepOnce_def split: sum.splits)
    then show ?thesis using swept_refl [of "{}"] same by (intro exI [of _ "{}"]) simp
  next
    case True
    then obtain rs where rs: "f = Inr rs" "rs \<noteq> []" by blast
    obtain urls n w2 where lp: "run_state (sweep_loop s rs [] 0) w1 = ((urls, n), w2)"
      by (metis surj_pair)
    obtain u w3 where pg: "run_state (purge_if_on (w_cachePurgeOn s) purger urls) w2 = (u, w3)"
      by (cases "run_state (purge_if_on (w_cachePurgeOn s) purger urls) w2")
    have "w' = w3" using assms(1) f rs lp pg s by (simp add: sweepOnce_def)
    then have "rows w' = rows w2" "objs w' = objs w2" using purge_if_on_same [OF pg] by simp_all
    then have "swept (set rs) (rows w) (objs w) (rows w') (objs w')"
      using sweep_loop_swept [OF lp s(1,2)] same by simp
    then show ?thesis using FindExpired_ok [OF f [unfolded rs]] by blast
  qed
qed

text \<open>Where every call is answered, a sweep removes every record of its batch.\<close>

lemma sweep_loop_up:
  assumes "up w" and "sto_up w" and "distinct (map file_ID (rows w))"
    and "set records \<subseteq> set (expired_rows T (rows w))" and "distinct (map file_ID records)"
    and s: "w_repository s = repo" "w_objectStorage s = sto"
  shows "\<exists>urls' w'. run_state (sweep_loop s records urls n) w = ((urls', n + length records), w') \<and>
    up w' \<and> sto_up w' \<and> distinct (map file_ID (rows w')) \<and> set (rows w') \<subseteq> set (rows w) \<and>
    length (expired_rows T (rows w')) + length records = length (expired_rows T (rows w))"
  using assms(1-5)
proof (induction records arbitrary: urls n w)
  case Nil
  then show ?case by simp
next
  case (Cons r records)
  obtain w1 where d: "run_state (DeleteObject sto (ObjectKey r)) w = (Inr (), w1)" "sto_up w1"
    using Delete_up Cons.prems(2) by blast
  have w1: "rows w1 = rows w" "up w1" using sto_rows(2,4) [OF d(1)] Cons.prems(1) by simp_all
  have "file_ID r \<in> file_ID ` set (rows w1)" using Cons.prems(4) w1 by auto
  then obtain w2 where e: "run_state (DeleteByID repo (file_ID r)) w1 = (Inr (), w2)" "up w2"
    using DeleteByID_up w1(2) by blast
  have w2: "rows w2 = delete_rows (file_ID r) (rows w)" "sto_up w2"
    using DeleteByID_ok [OF e(1)] w1(1) repo_sto_up(4) [OF e(1)] d(2) by simp_all
  have dist: "distinct (map file_ID (rows w2))"
    using DeleteByID_distinct [OF e(1)] w1(1) Cons.prems(3) by simp
  have sub: "set records \<subseteq> set (expired_rows T (rows w2))"
  proof -
    have "file_ID x \<noteq> file_ID r" if "x \<in> set records" for x
      using Cons.prems(5) that by (auto simp: image_iff)
    then show ?thesis using Cons.prems(4) by (auto simp: w2)
  qed
  have len: "Suc (length (expired_rows T (rows w2))) = length (expired_rows T (rows w))"
    using length_expired_delete [OF Cons.prems(3), of r T] Cons.prems(4) w2 by simp
  let ?urls = "if CDNURL r \<noteq> [] then urls @ [CDNURL r] else urls"
  obtain urls' w' where ih: "run_state (sweep_loop s records ?urls (n + 1)) w2 = ((urls', n + 1 + length records), w')"
      "up w'" "sto_up w'" "distinct (map file_ID (rows w'))" "set (rows w') \<subseteq> set (rows w2)"
      "length (expired_rows T (rows w')) + length records = length (expired_rows T (rows w2))"
    using Cons.IH [OF e(2) w2(2) dist sub, where urls = ?urls and n = "n + 1"] Cons.prems(5) by auto
  have "run_state (sweep_loop s (r # records) urls n) w = ((urls', n + length (r # records)), w')"
    using d e ih(1) s by simp
  then show ?case using ih len w2 by auto
qed

lemma sweepOnce_up:
  assumes "up w" and "sto_up w" and "distinct (map file_ID (rows w))" and "now \<le> T"
    and s: "w_repository s = repo" "w_objectStorage s = sto" "w_cachePurger s = purger"
  shows "\<exists>l w'. run_state (sweepOnce s now) w = (l, w') \<and>
    up w' \<and> sto_up w' \<and> distinct (map file_ID (rows w')) \<and> set (rows w') \<subseteq> set (rows w) \<and>
    length (expired_rows T (rows w')) + min 100 (length (expired_rows now (rows w))) = length (expired_rows T (rows w))"
proof -
  obtain rs w1 where f: "run_state (FindExpired repo now batchSize) w = (Inr rs, w1)" "up w1"
      "length rs = min 100 (length (expired_rows now (rows w)))"
    using FindExpired_up [OF assms(1), of batchSize now] by (auto simp: batchSize_def)
  have w1: "rows w1 = rows w" "sto_up w1"
    using FindExpired_rows [OF f(1)] repo_sto_up(5) [OF f(1)] assms(2) by simp_all
  show ?thesis
  proof (cases "rs = []")
    case True
    then have "run_state (sweepOnce s now) w = (NothingExpired, w1)" using f s by (simp add: sweepOnce_def)
    then show ?thesis using w1 f True assms(3) by auto
  next
    case False
    have sub: "set rs \<subseteq> set (expired_rows T (rows w1))" and dist: "distinct (map file_ID rs)"
      using FindExpired_ok [OF f(1)] assms(3,4) w1 by auto
    obtain urls w2 where lp: "run_state (sweep_loop s rs [] 0) w1 = ((urls, length rs), w2)"
        "up w2" "sto_up w2" "distinct (map file_ID (rows w2))" "set (rows w2) \<subseteq> set (rows w1)"
        "length (expired_rows T (rows w2)) + length rs = length (expired_rows T (rows w1))"
      using sweep_loop_up [OF f(2) w1(2) _ sub dist s(1,2), of "[]" 0] assms(3) w1(1) by auto
    obtain u w3 where pg: "run_state (purge_if_on (w_cachePurgeOn s) purger urls) w2 = (u, w3)"
      by (cases "run_state (purge_if_on (w_cachePurgeOn s) purger urls) w2")
    have "run_state (sweepOnce s now) w = (Tick (length rs) (length rs), w3)"
      using f lp(1) pg False s by (simp add: sweepOnce_def)
    then show ?thesis using purge_if_on_same [OF pg] lp w1 f(3) by auto
  qed
qed

text \<open>
  So a run of sweeps at instants between \<open>t0\<close> and \<open>T\<close> leaves no record that was expired at \<open>t0\<close>, once
  there are as many sweeps as there are batches.
\<close>

lemma sweeper_Run_drains:
  assumes "up w" and "sto_up w" and "distinct (map file_ID (rows w))"
    and "\<forall>t \<in> set ticks. t0 \<le> t \<and> t \<le> T"
    and s: "w_repository s = repo" "w_objectStorage s = sto" "w_cachePurger s = purger"
  shows "\<exists>l w'. run_state (sweeper_Run s ticks) w = (l, w') \<and> set (rows w') \<subseteq> set (rows w) \<and>
    (expired_rows t0 (rows w') = [] \<or>
     length (expired_rows T (rows w')) + 100 * length ticks \<le> length (expired_rows T (rows w)))"
  using assms(1-4)
proof (induction ticks arbitrary: w)
  case Nil
  then show ?case by simp
next
  case (Cons t ticks)
  have t: "t0 \<le> t" "t \<le> T" using Cons.prems(4) by simp_all
  obtain l w1 where one: "run_state (sweepOnce s t) w = (l, w1)" "up w1" "sto_up w1"
      "distinct (map file_ID (rows w1))" "set (rows w1) \<subseteq> set (rows w)"
      "length (expired_rows T (rows w1)) + min 100 (length (expired_rows t (rows w))) = length (expired_rows T (rows w))"
    using sweepOnce_up [OF Cons.prems(1-3) t(2) s] by blast
  obtain l' w1' where self: "run_state (sweepOnce s t) w = (l', w1')"
      "length (expired_rows t (rows w1')) + min 100 (length (expired_rows t (rows w))) = length (expired_rows t (rows w))"
    using sweepOnce_up [OF Cons.prems(1-3) order_refl s] by blast
  obtain ls w2 where rest: "run_state (sweeper_Run s ticks) w1 = (ls, w2)" "set (rows w2) \<subseteq> set (rows w1)"
      "expired_rows t0 (rows w2) = [] \<or>
       length (expired_rows T (rows w2)) + 100 * length ticks \<le> length (expired_rows T (rows w1))"
    using Cons.IH [OF one(2-4)] Cons.prems(4) by auto
  have run: "run_state (sweeper_Run s (t # ticks)) w = (l # ls, w2)" using one(1) rest(1) by simp
  have "expired_rows t0 (rows w2) = [] \<or>
     length (expired_rows T (rows w2)) + 100 * length (t # ticks) \<le> length (expired_rows T (rows w))"
  proof (cases "100 \<le> length (expired_rows t (rows w))")
    case True
    then show ?thesis using rest(3) one(6) by auto
  next
    case False
    then have "expired_rows t (rows w1) = []" using self one(1) by simp
    then have "set (expired_rows t0 (rows w1)) = {}" using t(1) by (force simp: expired_rows_def filter_empty_conv)
    then have "set (expired_rows t0 (rows w2)) = {}" using rest(2) by auto
    then show ?thesis by (simp del: set_expired_rows)
  qed
  then show ?case using run one(5) rest(2) by auto
qed

end

section \<open>What a sweep cannot do\<close>

lemma swept_keeps_row:
  assumes "swept R rs os rs' os'" and "R \<subseteq> set rs" and "distinct (map file_ID rs)" and "r \<in> set rs" and "r \<notin> R"
  shows "r \<in> set rs'"
proof -
  from assms(1) obtain D where D: "D \<subseteq> R" "rs' = filter (\<lambda>r. file_ID r \<notin> file_ID ` D) rs"
    by (rule sweptE)
  have "file_ID r \<noteq> file_ID d" if "d \<in> D" for d
    using distinct_map_eq [OF assms(3,4), of d] that D(1) assms(2,5) by blast
  then show ?thesis using D(2) assms(4) by auto
qed

lemma swept_keeps_object:
  assumes "swept R rs os rs' os'" and "R \<subseteq> set rs" and "integrity rs os" and "r \<in> set rs" and "r \<notin> R"
  shows "os' (ObjectKey r) = os (ObjectKey r)"
proof -
  have "ObjectKey r \<notin> ObjectKey ` R"
    using integrity_keys [OF assms(3,4)] assms(2,5) by blast
  then show ?thesis using assms(1) unfolding swept_def by blast
qed

lemma swept_removed:
  assumes "swept R rs os rs' os'" and "r \<in> set rs" and "distinct (map file_ID rs)" and "R \<subseteq> set rs" and "r \<notin> set rs'"
  shows "r \<in> R \<and> os' (ObjectKey r) = None"
proof -
  from assms(1) obtain D where D: "D \<subseteq> R" "rs' = filter (\<lambda>r. file_ID r \<notin> file_ID ` D) rs" "\<forall>r \<in> D. os' (ObjectKey r) = None"
    by (rule sweptE)
  then obtain d where "d \<in> D" "file_ID r = file_ID d" using assms(2,5) by auto
  then have "r = d" using distinct_map_eq [OF assms(3,2), of d] D(1) assms(4) by blast
  then show ?thesis using D(1,3) \<open>d \<in> D\<close> by auto
qed

lemma swept_integrity:
  assumes "swept R rs os rs' os'" and "integrity rs os"
  shows "integrity rs' os'"
proof -
  have *: "integrity rs os'"
    using assms(1) unfolding swept_def by (intro integrity_fewer_objects [OF assms(2)]) blast
  from assms(1) obtain D where D: "D \<subseteq> R" "rs' = filter (\<lambda>r. file_ID r \<notin> file_ID ` D) rs"
      "\<forall>r \<in> D. os' (ObjectKey r) = None"
    by (rule sweptE)
  show ?thesis unfolding D(2) using * by (auto simp: integrity_def)
qed

end
