(* ===== verification/Services.thy ===== *)
theory Services
  imports Sweeper
begin

text \<open>
  A reference object store and a reference Cloudflare endpoint that satisfy \<open>outside_services\<close>: buckets
  whose calls fail as \<open>s3_faults\<close> says, before or after they took effect, and an endpoint that records
  what it was asked to purge. They show that the hypotheses on the outside can hold, and the witnesses
  run the program on them.
\<close>

record services =
  s3_buckets :: "string \<Rightarrow> bucket"
  s3_faults :: "fault list"
  purged :: "string list"

type_synonym world = "services pg_scheme"

definition s3_call :: "(bucket \<Rightarrow> bucket) \<Rightarrow> string \<Rightarrow> (world, error, unit) io" where
  "s3_call f b = State (\<lambda>w.
    let s = pg.more w; s' = s\<lparr>s3_faults := tl (s3_faults s)\<rparr>;
        s'' = s'\<lparr>s3_buckets := (s3_buckets s)(b := f (s3_buckets s b))\<rparr>
    in case s3_faults s of
         [] \<Rightarrow> (Inr (), w\<lparr>pg.more := s''\<rparr>)
       | NoFault # _ \<Rightarrow> (Inr (), w\<lparr>pg.more := s''\<rparr>)
       | FailBefore o' # _ \<Rightarrow> (Inl (outside_error o'), w\<lparr>pg.more := s'\<rparr>)
       | FailAfter o' # _ \<Rightarrow> (Inl (outside_error o'), w\<lparr>pg.more := s''\<rparr>))"

definition ref_r2 :: "world R2Client" where
  "ref_r2 = \<lparr>client_DeleteObject = (\<lambda>b k. s3_call (\<lambda>m. m(k := None)) b),
     uploader_Upload = (\<lambda>b k body t. s3_call (\<lambda>m. m(k \<mapsto> (body, t))) b), bucketName = ''tempcdn''\<rparr>"

definition ref_cf :: "world cf_Client" where
  "ref_cf = \<lparr>zoneID = ''zone'', apiToken = ''token'',
     httpClient_Do = (\<lambda>req. State (\<lambda>w. (Inr \<lparr>StatusCode = 200, resp_Body = Inr ''{\"success\":true}''\<rparr>,
       w\<lparr>pg.more := (pg.more w)\<lparr>purged := purged (pg.more w) @ req_Files req\<rparr>\<rparr>))),
     url_error = (\<lambda>_. None),
     json_Unmarshal = (\<lambda>_. Inr \<lparr>Success = True, Errors = []\<rparr>)\<rparr>"

lemma s3_call_cases:
  assumes "run_state (s3_call f b) w = (r, w')"
  obtains
    (ok) "r = Inr ()" and "s3_buckets (pg.more w') = (s3_buckets (pg.more w))(b := f (s3_buckets (pg.more w) b))"
  | (before_call) o' where "r = Inl (outside_error o')" and "s3_buckets (pg.more w') = s3_buckets (pg.more w)"
  | (after_call) o' where "r = Inl (outside_error o')"
      and "s3_buckets (pg.more w') = (s3_buckets (pg.more w))(b := f (s3_buckets (pg.more w) b))"
  using assms by (auto simp: s3_call_def Let_def split: list.splits fault.splits)

lemma s3_call_truncate [simp]: "preserves (same pg.truncate) (s3_call f b)"
  by (auto simp: preserves_def same_def s3_call_def Let_def pg.truncate_def split: list.splits fault.splits)

lemma s3_call_up:
  "s3_faults (pg.more w) = [] \<Longrightarrow>
    \<exists>w'. run_state (s3_call f b) w = (Inr (), w') \<and> s3_faults (pg.more w') = []"
  by (simp add: s3_call_def Let_def)

lemma ref_cf_keeps:
  "preserves (same pg.truncate) (httpClient_Do ref_cf req)"
  "preserves (same (\<lambda>w. s3_buckets (pg.more w))) (httpClient_Do ref_cf req)"
  "preserves (same (\<lambda>w. s3_faults (pg.more w) = [])) (httpClient_Do ref_cf req)"
  by (auto simp: ref_cf_def preserves_def same_def pg.truncate_def)

interpretation ref: outside_services ref_r2 s3_buckets "\<lambda>s. s3_faults s = []" "Some ref_cf"
proof (unfold_locales, goal_cases)
  case (5 w b k body t) then show ?case by (simp add: ref_r2_def s3_call_up)
next
  case (6 w b k) then show ?case by (simp add: ref_r2_def s3_call_up)
qed (use ref_cf_keeps in \<open>auto simp: ref_r2_def elim!: s3_call_cases\<close>)


text \<open>A database and buckets with nothing in them, and no failures to come.\<close>

definition empty_world :: world where
  "empty_world = \<lparr>files = [], file_locks = [], admins = [], admin_sessions = [], api_keys = [],
     upload_settings = None, legal_documents = [], node_status = [], schema_migrations = [], db_faults = [],
     s3_buckets = (\<lambda>_. Map.empty), s3_faults = [], purged = []\<rparr>"

lemma empty_world_sel [simp]:
  "files empty_world = []" "db_faults empty_world = []" "file_locks empty_world = []"
  "s3_buckets (pg.more empty_world) = (\<lambda>_. Map.empty)" "s3_faults (pg.more empty_world) = []"
  "pg_up empty_world"
  by (simp_all add: empty_world_def pg_up_def)

end
