(* ===== verification/Wiring.thy ===== *)
theory Wiring
  imports Services
begin

text \<open>
  The file components as \<^verbatim>\<open>cmd/server/main.go\<close> puts them together: upload service, file service and
  sweeper over the Postgres repository, the R2 client and, if enabled, the Cloudflare client. The
  example upload below is what the witnesses run on the reference services.
\<close>

abbreviation main_upload :: "('x pg_scheme) R2Client \<Rightarrow> duration \<Rightarrow> string \<Rightarrow> ('x pg_scheme) upload_Service" where
  "main_upload r2 ttl url \<equiv> upload_NewService PostgresFiles (R2Storage r2) ttl url"

abbreviation main_files ::
    "('x pg_scheme) R2Client \<Rightarrow> ('x pg_scheme) cf_Client option \<Rightarrow> bool \<Rightarrow> ('x pg_scheme) file_Service" where
  "main_files r2 cf on \<equiv> file_NewService PostgresFiles (R2Storage r2) (map_option CloudflarePurger cf) on"

abbreviation main_sweeper ::
    "('x pg_scheme) R2Client \<Rightarrow> ('x pg_scheme) cf_Client option \<Rightarrow> bool \<Rightarrow> ('x pg_scheme) Sweeper" where
  "main_sweeper r2 cf on \<equiv> sweeper_New PostgresFiles (R2Storage r2) (map_option CloudflarePurger cf) on"

section \<open>An example upload\<close>

definition example_png :: bytes where
  "example_png = [CHR 0x89, CHR ''P'', CHR ''N'', CHR ''G'', CHR 0x0D, CHR 0x0A, CHR 0x1A, CHR 0x0A, CHR 0x00]"

definition example_input :: Input where
  "example_input = \<lparr>in_OriginalName = ''photo.png'', in_SizeBytes = 9,
     in_Content = \<lparr>pending = [take 4 example_png, [], drop 4 example_png], at_end = ErrEOF\<rparr>,
     in_UploaderIPHash = replicate 64 (CHR ''0'')\<rparr>"

definition example_rules :: validatorRules where
  "example_rules = NewValidator 1024 (Some [''image/*'']) (Some [''.exe''])"

definition example_now :: time where
  "example_now = 1700000000 * Second"

definition example_env :: upload_env where
  "example_env = \<lparr>size_rules = example_rules, extension_rules = example_rules, type_rules = example_rules,
     temp_create = None, temp_disk = None, temp_seek = None, env_now = example_now,
     env_uuid = ''123e4567-e89b-42d3-a456-426614174000'', env_rand = Inr (replicate 32 (CHR 0x2A))\<rparr>"

definition example_token :: string where
  "example_token = EncodeToString (replicate 32 (CHR 0x2A))"

definition example_url :: string where
  "example_url = ''https://cdn.example.com/''"

abbreviation example_service :: "world upload_Service" where
  "example_service \<equiv> main_upload ref_r2 (24 * Hour) example_url"

definition example_record :: FileRecord where
  "example_record = new_record example_service example_env example_input ''image/png'' example_png
     (sha256_hex example_png) example_token"

lemma example_content [simp]: "content (in_Content example_input) = example_png"
  by (simp add: content_def example_input_def)

lemma example_type: "normalized_type example_png = ''image/png''"
  by code_simp

lemma example_extension: "ValidateExtension (\<lambda>s. s) example_rules ''photo.png'' = None"
  by code_simp

lemma example_allowed: "isMimeTypeAllowed example_rules ''image/png''"
  by code_simp

lemma example_max: "maxSizeBytes example_rules = 1024"
  by (simp add: example_rules_def NewValidator_def)

lemma example_year: "Year example_now = 2023"
  by code_simp

lemma example_prepare:
  "upload_prepare (\<lambda>s. s) example_env example_input = Inr (''image/png'', example_png, sha256_hex example_png)"
proof -
  have "upload_prepare (\<lambda>s. s) example_env example_input = Inr (normalized_type (content (in_Content example_input)),
      content (in_Content example_input), sha256_hex (content (in_Content example_input)))"
    by (rule upload_prepare_live)
       (simp_all only: example_content example_type,
        simp_all add: example_env_def example_input_def example_extension example_allowed example_png_def
          example_max)
  then show ?thesis by (simp only: example_content example_type)
qed


lemma example_env_sel [simp]:
  "env_now example_env = example_now" "env_rand example_env = Inr (replicate 32 (CHR 0x2A))"
  "temp_seek example_env = None" "env_uuid example_env = ''123e4567-e89b-42d3-a456-426614174000''"
  "type_rules example_env = example_rules" "extension_rules example_env = example_rules"
  "size_rules example_env = example_rules"
  by (simp_all add: example_env_def)

lemma example_record_sel [simp]:
  "file_ID example_record = env_uuid example_env" "ContentType example_record = ''image/png''"
  "ChecksumSHA256 example_record = sha256_hex example_png"
  "DeleteTokenHash example_record = sha256_hex example_token"
  "file_ExpiresAt example_record = example_now + 24 * Hour" "file_CreatedAt example_record = example_now"
  "ObjectKey example_record = env_key example_env example_input"
  by (simp_all add: example_record_def)

lemma example_token_not_Nil [simp]: "example_token \<noteq> []"
  by (simp add: example_token_def)

text \<open>The upload succeeds on an empty store, and leaves this world.\<close>

lemma example_run_ex:
  "\<exists>w'. run_state (Upload (\<lambda>s. s) example_service example_env example_input) empty_world =
    (Inr \<lparr>Record = example_record, Duplicate = False, DeleteToken = example_token\<rparr>, w')
    \<and> pg_up w' \<and> s3_faults (pg.more w') = []"
  using ref.own.Upload_live [OF _ _ example_prepare, of example_service "replicate 32 (CHR 0x2A)" empty_world]
  by (simp add: active_with_checksum_def example_record_def example_token_def)

definition example_world :: world where
  "example_world = snd (run_state (Upload (\<lambda>s. s) example_service example_env example_input) empty_world)"

lemma example_run:
  "run_state (Upload (\<lambda>s. s) example_service example_env example_input) empty_world =
    (Inr \<lparr>Record = example_record, Duplicate = False, DeleteToken = example_token\<rparr>, example_world)"
  and example_world_up: "pg_up example_world" "s3_faults (pg.more example_world) = []"
  using example_run_ex by (auto simp: example_world_def)

lemma example_world_files: "files example_world = [example_record]"
  and example_world_objects: "R2Objects ref_r2 s3_buckets example_world =
    [env_key example_env example_input \<mapsto> (example_png, ''image/png'')]"
  using example_run
  by (auto elim!: ref.own.Upload_cases [of _ example_service] simp: example_prepare example_record_def)

end
