(* ===== verification/File_Properties.thy ===== *)
theory File_Properties
  imports Wiring
begin

text \<open>
  The properties of the upload service, the file service and the sweeper on the program's own
  repository and storage client, for every behaviour of the services outside that
  \<open>outside_services\<close> allows.
\<close>

lemmas upload_cases =
  file_backend.Upload_cases [OF outside_services.backend,
    consumes 4, case_names rejected failed duplicate stored unacked]

lemmas delete_cases =
  file_backend.DeleteBeforeTTL_cases [OF outside_services.backend, consumes 5, case_names unchanged deleted]

lemmas info_cases =
  file_backend.GetInfo_cases [OF outside_services.backend, consumes 3, case_names found missing lost]

section \<open>Uploads\<close>

text \<open>C1. A successful upload that is not a duplicate adds exactly one record, with the given name, the
  size and the SHA-256 of the whole content, an expiry one TTL after the upload and the hash of the
  returned delete token, and stores exactly that content under the record's key.\<close>

theorem upload_stores_file:
  assumes "outside_services r2 bkt s3_up cf"
    and "run_state (Upload uni (main_upload r2 ttl url) env input) w = (Inr res, w')"
    and "\<not> Duplicate res"
  shows "files w' = files w @ [Record res] \<and> file_ID (Record res) = env_uuid env \<and>
    env_uuid env \<notin> file_ID ` set (files w) \<and>
    OriginalName (Record res) = in_OriginalName input \<and> SizeBytes (Record res) = in_SizeBytes input \<and>
    int (length (content (in_Content input))) = in_SizeBytes input \<and>
    ChecksumSHA256 (Record res) = sha256_hex (content (in_Content input)) \<and>
    ContentType (Record res) = normalized_type (content (in_Content input)) \<and>
    DeleteTokenHash (Record res) = HashDeleteToken (DeleteToken res) \<and>
    file_ExpiresAt (Record res) = env_now env + ttl \<and>
    CDNURL (Record res) = TrimRight url (CHR ''/'') @ ''/'' @ ObjectKey (Record res) \<and>
    R2Objects r2 bkt w' = (R2Objects r2 bkt w)
      (ObjectKey (Record res) \<mapsto> (content (in_Content input), ContentType (Record res)))"
  using assms(1,2) upload_NewService_sel(1,2)
proof (cases rule: upload_cases)
  case (stored ct body chk buf r)
  note prep = upload_prepare_ok [OF stored(1)]
  have "res = \<lparr>Record = r, Duplicate = False, DeleteToken = EncodeToString buf\<rparr>" using stored(5) by simp
  then show ?thesis using stored(4,6-8) prep(1-4) by (simp add: upload_NewService_def)
qed (use assms(3) in auto)

theorem upload_stores_file_witness:
  "files example_world = [] @ [example_record] \<and> SizeBytes example_record = 9 \<and>
   ChecksumSHA256 example_record = sha256_hex example_png \<and>
   DeleteTokenHash example_record = HashDeleteToken example_token"
  using upload_stores_file [OF ref.outside_services_axioms example_run]
  by (simp add: example_input_def)

text \<open>C15. A successful upload is a duplicate exactly if an unexpired record with the checksum of its
  content exists; then it answers with such a record and no token, and changes neither records nor
  objects.\<close>

theorem upload_duplicate:
  assumes "outside_services r2 bkt s3_up cf"
    and "run_state (Upload uni (main_upload r2 ttl url) env input) w = (Inr res, w')"
  shows "(Duplicate res \<longleftrightarrow>
      active_with_checksum (sha256_hex (content (in_Content input))) (env_now env) (files w) \<noteq> []) \<and>
    (Duplicate res \<longrightarrow> Record res \<in> set (files w) \<and> file_ExpiresAt (Record res) > env_now env \<and>
      ChecksumSHA256 (Record res) = sha256_hex (content (in_Content input)) \<and> DeleteToken res = [] \<and>
      files w' = files w \<and> R2Objects r2 bkt w' = R2Objects r2 bkt w)"
  using assms(1,2) upload_NewService_sel(1,2)
proof (cases rule: upload_cases)
  case (duplicate ct body chk r)
  then have "chk = sha256_hex (content (in_Content input))" using upload_prepare_ok(2) by blast
  moreover have "active_with_checksum chk (env_now env) (files w) \<noteq> []" using duplicate(3) by force
  ultimately show ?thesis using duplicate by auto
next
  case (stored ct body chk buf r)
  then have "chk = sha256_hex (content (in_Content input))" using upload_prepare_ok(2) by blast
  then show ?thesis using stored by auto
qed simp_all

lemma example_again:
  "run_state (Upload (\<lambda>s. s) example_service example_env example_input) example_world =
    (Inr \<lparr>Record = example_record, Duplicate = True, DeleteToken = []\<rparr>, example_world)"
  using example_world_up(1)
  by (simp add: Upload_def example_prepare PostgresFiles_def pg_FindActiveByChecksum_def run_pgScan_up
      example_world_files active_with_checksum_def pg_up_def Hour_def Minute_def Second_def)

theorem upload_duplicate_witness:
  "active_with_checksum (sha256_hex example_png) example_now (files example_world) \<noteq> [] \<and>
   example_record \<in> set (files example_world) \<and> example_now < file_ExpiresAt example_record"
  using upload_duplicate [OF ref.outside_services_axioms example_again] by simp

text \<open>C16. An upload that reports an error leaves every record and every record's object as they were;
  at most its own new record remains, when the database stored it without saying so.\<close>

theorem upload_error_keeps_files:
  assumes "outside_services r2 bkt s3_up cf"
    and "run_state (Upload uni (main_upload r2 ttl url) env input) w = (Inl e, w')"
    and "integrity (files w) (R2Objects r2 bkt w)"
    and "env_uuid env \<notin> file_ID ` set (files w)" and "length (env_uuid env) = 36"
    and "0 \<le> Year (env_now env)" and "Year (env_now env) \<le> 9999"
  shows "(files w' = files w \<or> (\<exists>r. files w' = files w @ [r] \<and> file_ID r = env_uuid env)) \<and>
    (\<forall>r \<in> set (files w). R2Objects r2 bkt w' (ObjectKey r) = R2Objects r2 bkt w (ObjectKey r))"
proof -
  have key: "ObjectKey r \<noteq> env_key env input" if "r \<in> set (files w)" for r
    using env_key_not_in_use [OF assms(3-7) that] .
  from assms(1,2) upload_NewService_sel(1,2) show ?thesis
  proof (cases rule: upload_cases)
    case (failed e)
    then show ?thesis using key by auto
  next
    case (unacked ct body chk buf r e)
    then show ?thesis using key by auto
  qed auto
qed

definition example_empty_input :: Input where
  "example_empty_input = example_input\<lparr>in_SizeBytes := 0\<rparr>"

abbreviation example_env2 :: upload_env where
  "example_env2 \<equiv> example_env\<lparr>env_uuid := ''223e4567-e89b-42d3-a456-426614174000''\<rparr>"

lemma example_rejected:
  "run_state (Upload (\<lambda>s. s) example_service example_env2 example_empty_input) example_world =
    (Inl (ValidationError ''file is empty''), example_world)"
  by (simp add: Upload_def upload_prepare_def ValidateSize_def example_empty_input_def)

lemma example_integrity: "integrity (files example_world) (R2Objects ref_r2 s3_buckets example_world)"
  using ref.own.Upload_integrity [OF example_run] example_year
  by (simp add: integrity_def)

theorem upload_error_keeps_files_witness:
  "\<exists>e w'. run_state (Upload (\<lambda>s. s) example_service example_env2 example_empty_input) example_world = (Inl e, w') \<and>
    (files w' = [example_record] \<or> (\<exists>r. files w' = [example_record, r])) \<and>
    R2Objects ref_r2 s3_buckets w' (ObjectKey example_record) = Some (example_png, ''image/png'')"
  using upload_error_keeps_files [OF ref.outside_services_axioms example_rejected example_integrity] example_rejected
  by (simp add: example_year example_world_files example_world_objects)

text \<open>C21. A file whose first bytes look like HTML is turned away, with an error and without touching
  anything, unless the rules allow \<^verbatim>\<open>text/html\<close> or \<^verbatim>\<open>text/*\<close>, whatever its name claims.\<close>

theorem upload_rejects_html:
  assumes "looks_like_html (content (in_Content input))"
    and "\<forall>p \<in> set (elems (allowedMimeTypes (type_rules env))). p \<noteq> ''text/html'' \<and> p \<noteq> ''text/*''"
  shows "\<exists>e. run_state (Upload uni s env input) w = (Inl e, w)"
proof -
  have "\<not> isMimeTypeAllowed (type_rules env) ''text/html''"
  proof
    assume "isMimeTypeAllowed (type_rules env) ''text/html''"
    then obtain p where p: "p \<in> set (elems (allowedMimeTypes (type_rules env)))"
        "p = ''text/html'' \<or> (\<exists>major rest. p = major @ ''/*'' \<and> ''text/html'' = major @ ''/'' @ rest)"
      unfolding isMimeTypeAllowed_iff by blast
    then obtain major rest where m: "p = major @ ''/*''" "''text/html'' = major @ ''/'' @ rest"
      using assms(2) by blast
    then have "major = ''text''" by (auto simp: Cons_eq_append_conv)
    then show False using m(1) p(1) assms(2) by simp
  qed
  moreover have "normalized_type (content (in_Content input)) = ''text/html''"
    using assms(1) by (rule normalized_html)
  ultimately have "upload_prepare uni env input \<noteq> Inr (ct, body, chk)" for ct body chk
    using upload_prepare_ok(4,5) [of uni env input ct body chk] by auto
  then have "\<exists>e. upload_prepare uni env input = Inl e"
    by (metis sum.exhaust surj_pair)
  then show ?thesis by (auto simp: Upload_def)
qed

definition example_html :: Input where
  "example_html = \<lparr>in_OriginalName = ''photo.png'', in_SizeBytes = 14,
     in_Content = \<lparr>pending = [''  <html><body>''], at_end = ErrEOF\<rparr>, in_UploaderIPHash = ''x''\<rparr>"

theorem upload_rejects_html_witness:
  "\<exists>e. run_state (Upload (\<lambda>s. s) example_service example_env example_html) empty_world = (Inl e, empty_world)"
proof (rule upload_rejects_html)
  show "looks_like_html (content (in_Content example_html))" by code_simp
  show "\<forall>p \<in> set (elems (allowedMimeTypes (type_rules example_env))). p \<noteq> ''text/html'' \<and> p \<noteq> ''text/*''"
    by (simp add: example_rules_def NewValidator_def)
qed

text \<open>C19. When database and storage answer, an upload that meets the rules and whose content is new
  is stored.\<close>

theorem upload_accepts:
  assumes "outside_services r2 bkt s3_up cf"
    and "pg_up w" and "s3_up (pg.more w)"
    and "temp_create env = None" and "temp_disk env = None" and "temp_seek env = None" and "env_rand env = Inr buf"
    and "at_end (in_Content input) = ErrEOF"
    and "int (length (content (in_Content input))) = in_SizeBytes input"
    and "0 < in_SizeBytes input" and "in_SizeBytes input \<le> maxSizeBytes (size_rules env)"
    and "ValidateExtension uni (extension_rules env) (in_OriginalName input) = None"
    and "isMimeTypeAllowed (type_rules env) (normalized_type (content (in_Content input)))"
    and "active_with_checksum (sha256_hex (content (in_Content input))) (env_now env) (files w) = []"
    and "env_uuid env \<notin> file_ID ` set (files w)"
  shows "\<exists>res w'. run_state (Upload uni (main_upload r2 ttl url) env input) w = (Inr res, w') \<and> \<not> Duplicate res"
  using file_backend.Upload_live [OF outside_services.backend [OF assms(1)] upload_NewService_sel(1,2)
      upload_prepare_live [OF assms(4,5,8-13)] assms(6,7,14,15,2,3), of ttl url]
  by force

theorem upload_accepts_witness:
  "\<exists>res w'. run_state (Upload (\<lambda>s. s) example_service example_env example_input) empty_world = (Inr res, w')
     \<and> \<not> Duplicate res"
  by (rule upload_accepts [OF ref.outside_services_axioms])
     (simp_all add: example_type example_allowed example_extension example_max active_with_checksum_def,
      simp_all add: example_env_def example_input_def example_png_def example_extension)

text \<open>C22. The checksum computed while the upload streams into the temporary file is the SHA-256 of
  the whole content, and the file holds that content, however the body arrives in pieces.\<close>

theorem streaming_checksum:
  assumes "at_end r = ErrEOF"
  shows "\<exists>c. io_Copy None [] (NewChecksummingReader r) = (concat (pending r), None, c) \<and>
    SumHex c = EncodeToString (sha256 (concat (pending r)))"
proof -
  obtain c where c: "io_Copy None [] (NewChecksummingReader r) = (content r, None, c)"
    using io_Copy_unlimited [of "NewChecksummingReader r" "[]"] assms by (auto simp: NewChecksummingReader_def)
  then show ?thesis using SumHex_copy(2) [OF c] by (simp add: content_def sha256_hex_def)
qed

theorem streaming_checksum_witness:
  "\<exists>c. io_Copy None [] (NewChecksummingReader \<lparr>pending = [''ab'', [], ''c''], at_end = ErrEOF\<rparr>) = (''abc'', None, c) \<and>
    SumHex c = EncodeToString (sha256 ''abc'')"
  using streaming_checksum [of "\<lparr>pending = [''ab'', [], ''c''], at_end = ErrEOF\<rparr>"] by simp

section \<open>Deletions\<close>

text \<open>C2. A deletion request that changes any record or object came with the delete token of an
  unexpired record of that id, and changes nothing but this record and its object.\<close>

theorem delete_authorized:
  assumes "outside_services r2 bkt s3_up cf"
    and "run_state (DeleteBeforeTTL (main_files r2 cf on) now fid token) w = (res, w')"
    and "files w' \<noteq> files w \<or> R2Objects r2 bkt w' \<noteq> R2Objects r2 bkt w"
  shows "\<exists>r \<in> set (files w). file_ID r = fid \<and> token \<noteq> [] \<and> DeleteTokenHash r = sha256_hex token \<and>
    now \<le> file_ExpiresAt r \<and> (files w' = files w \<or> files w' = delete_rows fid (files w)) \<and>
    (\<forall>k. k \<noteq> ObjectKey r \<longrightarrow> R2Objects r2 bkt w' k = R2Objects r2 bkt w k)"
  using assms(1,2) file_NewService_sel(1-3)
proof (cases rule: delete_cases)
  case (unchanged e)
  then show ?thesis using assms(3) by simp
next
  case (deleted r)
  then show ?thesis
    by (intro bexI [of _ r]) (auto simp: token_matches_iff file_IsExpired_def)
qed

lemma example_delete:
  "\<exists>w'. run_state (DeleteBeforeTTL (main_files ref_r2 (Some ref_cf) on) example_now (env_uuid example_env) example_token)
      example_world = (Inr (), w') \<and> files w' = [] \<and> R2Objects ref_r2 s3_buckets w' = Map.empty"
  using ref.own.DeleteBeforeTTL_up [OF file_NewService_sel(1-3), of example_world example_record example_token example_now on]
  by (simp add: example_world_files example_world_objects example_world_up token_matches_iff file_IsExpired_def
      Hour_def Minute_def Second_def delete_rows_def)

theorem delete_authorized_witness:
  "\<exists>r \<in> set (files example_world). file_ID r = env_uuid example_env \<and> DeleteTokenHash r = sha256_hex example_token"
proof -
  obtain w' where "run_state (DeleteBeforeTTL (main_files ref_r2 (Some ref_cf) True) example_now
      (env_uuid example_env) example_token) example_world = (Inr (), w')" "files w' = []"
    using example_delete by blast
  then show ?thesis
    using delete_authorized [OF ref.outside_services_axioms] by (fastforce simp: example_world_files)
qed

text \<open>The token an upload returns deletes the file until it expires: the record is gone, the object
  is gone, everything else is as before the upload.\<close>

theorem upload_then_delete:
  assumes "outside_services r2 bkt s3_up cf"
    and "run_state (Upload uni (main_upload r2 ttl url) env input) w = (Inr res, w1)"
    and "\<not> Duplicate res" and "DeleteToken res \<noteq> []" and "distinct (map file_ID (files w))"
    and "pg_up w1" and "s3_up (pg.more w1)" and "now \<le> env_now env + ttl"
  shows "\<exists>w2. run_state (DeleteBeforeTTL (main_files r2 cf on) now (file_ID (Record res)) (DeleteToken res)) w1 = (Inr (), w2)
    \<and> files w2 = files w \<and> R2Objects r2 bkt w2 = (R2Objects r2 bkt w)(ObjectKey (Record res) := None)"
  using assms(1,2) upload_NewService_sel(1,2)
proof (cases rule: upload_cases)
  case (stored ct body chk buf r)
  then have res: "Record res = r" "DeleteToken res = EncodeToString buf" by simp_all
  have new: "file_ID r \<notin> file_ID ` set (files w)" using stored(4,6) by simp
  have "distinct (map file_ID (files w1))" using assms(5) new stored(7) by auto
  then obtain w2 where "run_state (DeleteBeforeTTL (main_files r2 cf on) now (file_ID r) (DeleteToken res)) w1 = (Inr (), w2)"
      "files w2 = delete_rows (file_ID r) (files w1)"
      "R2Objects r2 bkt w2 = (R2Objects r2 bkt w1)(ObjectKey r := None)"
    using file_backend.DeleteBeforeTTL_up [OF outside_services.backend [OF assms(1)] file_NewService_sel(1-3),
        of w1 r "DeleteToken res" now on] assms(4,6-8) stored(4,7) res
    by (auto simp: token_matches_iff file_IsExpired_def)
  moreover have "delete_rows (file_ID r) (files w1) = files w"
    using delete_rows_id [OF new] stored(7) by (simp add: delete_rows_def)
  ultimately show ?thesis using stored(4,8) res by auto
qed (use assms(3) in auto)

theorem upload_then_delete_witness:
  "\<exists>w2. run_state (DeleteBeforeTTL (main_files ref_r2 (Some ref_cf) True) example_now (file_ID example_record) example_token)
     example_world = (Inr (), w2) \<and> files w2 = files empty_world"
  using upload_then_delete [OF ref.outside_services_axioms example_run, of example_now True] example_world_up
  by (auto simp: Hour_def Minute_def Second_def)


section \<open>Sweeps\<close>

text \<open>C3. A sweep never touches a record that has not expired, nor its object; and every record it
  removes had expired and its object is gone from the storage. This holds whatever calls fail.\<close>

theorem sweep_safe:
  assumes "outside_services r2 bkt s3_up cf"
    and "run_state (sweepOnce (main_sweeper r2 cf on) now) w = (l, w')"
    and "integrity (files w) (R2Objects r2 bkt w)" and "r \<in> set (files w)"
  shows "(now < file_ExpiresAt r \<longrightarrow> r \<in> set (files w') \<and>
      R2Objects r2 bkt w' (ObjectKey r) = R2Objects r2 bkt w (ObjectKey r)) \<and>
    (r \<notin> set (files w') \<longrightarrow> file_ExpiresAt r \<le> now \<and> R2Objects r2 bkt w' (ObjectKey r) = None)"
proof -
  obtain R where R: "R \<subseteq> set (expired_rows now (files w))"
      "swept R (files w) (R2Objects r2 bkt w) (files w') (R2Objects r2 bkt w')"
    using file_backend.sweepOnce_swept [OF outside_services.backend [OF assms(1)] assms(2)]
    by (auto simp: sweeper_New_def)
  have sub: "R \<subseteq> set (files w)" using R(1) by auto
  have d: "distinct (map file_ID (files w))" using assms(3) by (rule integrity_distinct)
  have "r \<notin> R" if "now < file_ExpiresAt r" using R(1) that by auto
  moreover have "file_ExpiresAt r \<le> now" if "r \<in> R" using R(1) that by auto
  ultimately show ?thesis
    using swept_keeps_row [OF R(2) sub d assms(4)] swept_keeps_object [OF R(2) sub assms(3,4)]
      swept_removed [OF R(2) assms(4) d sub]
    by blast
qed

theorem sweep_safe_witness:
  "\<exists>l w'. run_state (sweepOnce (main_sweeper ref_r2 (Some ref_cf) True) example_now) example_world = (l, w') \<and>
     example_record \<in> set (files w')"
proof -
  obtain l w' where run: "run_state (sweepOnce (main_sweeper ref_r2 (Some ref_cf) True) example_now) example_world = (l, w')"
    by (meson surj_pair)
  show ?thesis
    using sweep_safe [OF ref.outside_services_axioms run example_integrity, of example_record] run
    by (simp add: example_world_files Hour_def Minute_def Second_def)
qed

text \<open>C13. While database and storage answer, sweeping as often as there are batches of a hundred
  removes every record that was expired when it began.\<close>

theorem sweeper_drains:
  assumes "outside_services r2 bkt s3_up cf"
    and "pg_up w" and "s3_up (pg.more w)" and "distinct (map file_ID (files w))"
    and "ticks \<noteq> []" and "\<forall>t \<in> set ticks. t0 \<le> t \<and> t \<le> t1"
    and "length (expired_rows t1 (files w)) \<le> 100 * length ticks"
  shows "\<exists>l w'. run_state (sweeper_Run (main_sweeper r2 cf on) ticks) w = (l, w') \<and>
    (\<forall>r \<in> set (files w'). r \<in> set (files w) \<and> t0 < file_ExpiresAt r)"
proof -
  obtain l w' where run: "run_state (sweeper_Run (main_sweeper r2 cf on) ticks) w = (l, w')"
      "set (files w') \<subseteq> set (files w)"
      "expired_rows t0 (files w') = [] \<or>
       length (expired_rows t1 (files w')) + 100 * length ticks \<le> length (expired_rows t1 (files w))"
    using file_backend.sweeper_Run_drains [OF outside_services.backend [OF assms(1)] assms(2,3,4,6)]
    by (metis sweeper_New_sel)
  have "t0 \<le> t1" using assms(5,6) by (cases ticks) auto
  have "set (expired_rows t0 (files w')) = {}"
    using run(3)
  proof
    assume "length (expired_rows t1 (files w')) + 100 * length ticks \<le> length (expired_rows t1 (files w))"
    then have "length (expired_rows t1 (files w')) = 0" using assms(7) by linarith
    then have "set (expired_rows t1 (files w')) = {}" by (simp del: set_expired_rows)
    then show ?thesis using \<open>t0 \<le> t1\<close> by auto
  qed (simp del: set_expired_rows)
  then show ?thesis using run(1,2) by (intro exI [of _ l] exI [of _ w']) (auto simp: not_le)
qed

theorem sweeper_drains_witness:
  "\<exists>l w'. run_state (sweeper_Run (main_sweeper ref_r2 (Some ref_cf) True) [example_now + 24 * Hour]) example_world = (l, w') \<and>
     (\<forall>r \<in> set (files w'). example_now + 24 * Hour < file_ExpiresAt r)"
  using sweeper_drains [OF ref.outside_services_axioms, of example_world "[example_now + 24 * Hour]"
      "example_now + 24 * Hour" "example_now + 24 * Hour" True] example_world_up
  by (fastforce simp: example_world_files expired_rows_def)


section \<open>What can go wrong\<close>

text \<open>C36. If the storage call of a deletion fails, the deletion still reports success and removes the
  record: the object stays, and no record refers to it any more.\<close>

theorem delete_orphans_object:
  assumes "pg_up w" and "integrity (files w) (R2Objects r2 bkt w)" and "r \<in> set (files w)"
    and "token \<noteq> []" and "DeleteTokenHash r = sha256_hex token" and "now \<le> file_ExpiresAt r"
    and "run_state (client_DeleteObject r2 (bucketName r2) (ObjectKey r)) w = (Inl e, w')"
    and "pg.truncate w' = pg.truncate w" and "bkt (pg.more w') = bkt (pg.more w)"
  shows "\<exists>w''. run_state (DeleteBeforeTTL (main_files r2 None on) now (file_ID r) token) w = (Inr (), w'') \<and>
    R2Objects r2 bkt w'' = R2Objects r2 bkt w \<and> (\<forall>x \<in> set (files w''). ObjectKey x \<noteq> ObjectKey r)"
proof -
  have db: "db_faults w = []" using assms(1) by (simp add: pg_up_def)
  have w': "files w' = files w" "db_faults w' = []"
    using assms(8) db by (simp_all add: pg.truncate_def pg.defs)
  have find: "run_state (pg_FindByID (file_ID r)) w = (Inr r, w)"
  proof -
    have "filter (\<lambda>x. file_ID x = file_ID r) (files w) \<noteq> []" using assms(3) by (auto simp: filter_empty_conv)
    then obtain x xs where x: "filter (\<lambda>x. file_ID x = file_ID r) (files w) = x # xs"
      by (cases "filter (\<lambda>x. file_ID x = file_ID r) (files w)") auto
    then have "x \<in> set (files w) \<and> file_ID x = file_ID r" by (auto dest: filter_eq_ConsD)
    then have "x = r" using distinct_map_eq [OF integrity_distinct [OF assms(2)] _ assms(3)] by blast
    then show ?thesis using x db by (simp add: pg_FindByID_def run_pgScan_up)
  qed
  have obj: "run_state (R2_DeleteObject r2 (ObjectKey r)) w = (Inl (Wrap ''delete object from r2'' e), w')"
    using assms(7) by (simp add: R2_DeleteObject_def)
  have del: "run_state (pg_DeleteByID (file_ID r)) w' = (Inr (), w'\<lparr>files := delete_rows (file_ID r) (files w)\<rparr>)"
    using run_pg_DeleteByID_up [OF w'(2), of "file_ID r"] w'(1) assms(3) by simp
  have run: "run_state (DeleteBeforeTTL (main_files r2 None on) now (file_ID r) token) w =
      (Inr (), w'\<lparr>files := delete_rows (file_ID r) (files w)\<rparr>)"
    using find obj del assms(4-6)
    by (simp add: DeleteBeforeTTL_def file_NewService_def PostgresFiles_def R2Storage_def token_matches_iff
        file_IsExpired_def purge_if_on_def)
  have "ObjectKey x \<noteq> ObjectKey r" if "x \<in> set (files w)" "file_ID x \<noteq> file_ID r" for x
    using integrity_keys [OF assms(2) that(1) assms(3)] that(2) by auto
  then show ?thesis using run assms(9) by auto
qed

definition example_storage_down :: world where
  "example_storage_down = example_world\<lparr>pg.more := (pg.more example_world)\<lparr>s3_faults := [FailBefore DeadlineOut]\<rparr>\<rparr>"

theorem delete_orphans_object_witness:
  "\<exists>w''. run_state (DeleteBeforeTTL (main_files ref_r2 None False) example_now (file_ID example_record) example_token)
      example_storage_down = (Inr (), w'') \<and>
    R2Objects ref_r2 s3_buckets w'' (ObjectKey example_record) \<noteq> None \<and>
    (\<forall>x \<in> set (files w''). ObjectKey x \<noteq> ObjectKey example_record)"
proof -
  have "\<exists>w''. run_state (DeleteBeforeTTL (main_files ref_r2 None False) example_now (file_ID example_record) example_token)
      example_storage_down = (Inr (), w'') \<and>
    R2Objects ref_r2 s3_buckets w'' = R2Objects ref_r2 s3_buckets example_storage_down \<and>
    (\<forall>x \<in> set (files w''). ObjectKey x \<noteq> ObjectKey example_record)"
  proof (rule delete_orphans_object [where e = DeadlineExceeded and
        w' = "example_world\<lparr>pg.more := (pg.more example_world)\<lparr>s3_faults := []\<rparr>\<rparr>"])
    show "pg_up example_storage_down" using example_world_up by (simp add: example_storage_down_def pg_up_def)
    show "integrity (files example_storage_down) (R2Objects ref_r2 s3_buckets example_storage_down)"
      using example_integrity by (simp add: example_storage_down_def)
    show "run_state (client_DeleteObject ref_r2 (bucketName ref_r2) (ObjectKey example_record)) example_storage_down =
        (Inl DeadlineExceeded, example_world\<lparr>pg.more := (pg.more example_world)\<lparr>s3_faults := []\<rparr>\<rparr>)"
      by (simp add: ref_r2_def s3_call_def example_storage_down_def)
    show "pg.truncate (example_world\<lparr>pg.more := (pg.more example_world)\<lparr>s3_faults := []\<rparr>\<rparr>) = pg.truncate example_storage_down"
      by (simp add: example_storage_down_def pg.truncate_def)
  qed (simp_all add: example_storage_down_def example_world_files Hour_def Minute_def Second_def)
  then show ?thesis using example_world_objects by (auto simp: example_storage_down_def)
qed


text \<open>C37. If the hundred records that expired first are of objects whose deletion always fails, every
  sweep takes up these hundred again and no expired record is ever removed, however many there are.\<close>

lemma sweep_loop_stuck:
  assumes "\<And>r. r \<in> set records \<Longrightarrow>
      \<exists>e. run_state (client_DeleteObject r2 (bucketName r2) (ObjectKey r)) w = (Inl e, w)"
  shows "run_state (sweep_loop (main_sweeper r2 cf on) records urls n) w = ((urls, n), w)"
  using assms
proof (induction records arbitrary: urls n)
  case (Cons r records)
  obtain e where "run_state (client_DeleteObject r2 (bucketName r2) (ObjectKey r)) w = (Inl e, w)"
    using Cons.prems [of r] by auto
  then have "run_state (DeleteObject (R2Storage r2) (ObjectKey r)) w = (Inl (Wrap ''delete object from r2'' e), w)"
    by (simp add: R2Storage_def R2_DeleteObject_def)
  then show ?case using Cons by simp
qed simp

theorem sweeper_starves:
  assumes "pg_up w" and "100 \<le> length (expired_rows t0 (files w))"
    and "\<forall>r \<in> set (oldest 100 t0 (files w)).
      \<exists>e. run_state (client_DeleteObject r2 (bucketName r2) (ObjectKey r)) w = (Inl e, w)"
    and "\<forall>t \<in> set ticks. t0 \<le> t"
  shows "\<exists>l. run_state (sweeper_Run (main_sweeper r2 cf on) ticks) w = (l, w)"
  using assms(4)
proof (induction ticks)
  case (Cons t ticks)
  let ?rs = "oldest 100 t0 (files w)"
  have db: "db_faults w = []" "file_locks w = []" using assms(1) by (simp_all add: pg_up_def)
  have "run_state (pg_FindExpired t batchSize) w = (Inr (oldest 100 t (files w)), w)"
    by (subst run_pg_FindExpired_up [OF db(1)]) (simp_all add: batchSize_def oldest_def db(2))
  also have "oldest 100 t (files w) = ?rs"
    by (rule oldest_stable) (use Cons.prems assms(2) in simp_all)
  finally have find: "run_state (FindExpired PostgresFiles t batchSize) w = (Inr ?rs, w)"
    by (simp add: PostgresFiles_def)
  have "length ?rs = 100" using assms(2) by (simp add: oldest_def)
  then have "?rs \<noteq> []" by auto
  then have "run_state (sweepOnce (main_sweeper r2 cf on) t) w = (Tick (length ?rs) 0, w)"
    using find sweep_loop_stuck [of ?rs r2 w] assms(3)
    by (auto simp: sweepOnce_def purge_if_on_def split: option.splits)
  then show ?case using Cons by auto
qed simp

definition stuck_r2 :: "world R2Client" where
  "stuck_r2 = ref_r2\<lparr>client_DeleteObject := (\<lambda>b k. State (\<lambda>w. (Inl (External ''AccessDenied''), w)))\<rparr>"

definition crowded_world :: world where
  "crowded_world = empty_world\<lparr>files :=
     map (\<lambda>i. example_record\<lparr>file_ID := replicate i (CHR ''a'')\<rparr>) [0..<150]\<rparr>"

theorem sweeper_starves_witness:
  "\<exists>l. run_state (sweeper_Run (main_sweeper stuck_r2 (Some ref_cf) True) [example_now + 48 * Hour, example_now + 96 * Hour])
     crowded_world = (l, crowded_world)"
proof (rule sweeper_starves [where ?t0.0 = "example_now + 24 * Hour"])
  show "pg_up crowded_world"
    using empty_world_sel(6) by (simp add: crowded_world_def pg_up_def)
  have "expired_rows (example_now + 24 * Hour) (files crowded_world) = files crowded_world"
    unfolding expired_rows_def by (rule filter_True) (auto simp: crowded_world_def)
  then show "100 \<le> length (expired_rows (example_now + 24 * Hour) (files crowded_world))"
    by (simp add: crowded_world_def)
qed (simp_all add: stuck_r2_def Hour_def Minute_def Second_def)

text \<open>C38. If the database stores a new record without confirming it, the upload reports an error and
  deletes the object it has just written, and the record stays behind with no object. Worse, until this
  record expires it stands in the way of its content: while the database answers, an upload of the same
  content only reports the record as a duplicate, and stores nothing.\<close>

theorem upload_unconfirmed_insert:
  assumes out: "outside_services r2 bkt s3_up cf"
    and "db_faults w = NoFault # FailAfter o' # fs" and "s3_up (pg.more w)"
    and prep: "upload_prepare uni env input = Inr (ct, body, chk)"
    and "temp_seek env = None" and "env_rand env = Inr buf"
    and none: "active_with_checksum chk (env_now env) (files w) = []"
    and "env_uuid env \<notin> file_ID ` set (files w)"
  shows "\<exists>e r w'. run_state (Upload uni (main_upload r2 ttl url) env input) w = (Inl e, w') \<and>
    files w' = files w @ [r] \<and> file_ID r = env_uuid env \<and> ChecksumSHA256 r = chk \<and>
    file_ExpiresAt r = env_now env + ttl \<and> R2Objects r2 bkt w' (ObjectKey r) = None \<and>
    (fs = [] \<longrightarrow> (\<forall>env2 input2 ct2 body2. upload_prepare uni env2 input2 = Inr (ct2, body2, chk) \<and>
        env_now env \<le> env_now env2 \<and> env_now env2 < env_now env + ttl \<longrightarrow>
      run_state (Upload uni (main_upload r2 ttl url) env2 input2) w' =
        (Inr \<lparr>Record = r, Duplicate = True, DeleteToken = []\<rparr>, w')))"
proof -
  let ?s = "main_upload r2 ttl url"
  define r where "r = new_record ?s env input ct body chk (EncodeToString buf)"
  obtain e w' where run: "run_state (Upload uni ?s env input) w = (Inl e, w')"
    and w': "files w' = files w @ [r]" "db_faults w' = fs" "R2Objects r2 bkt w' (ObjectKey r) = None"
    using outside_services.Upload_unconfirmed [OF out upload_NewService_sel(1,2) assms(2-8) r_def] by blast
  have r: "file_ID r = env_uuid env" "ChecksumSHA256 r = chk" "file_ExpiresAt r = env_now env + ttl"
    by (simp_all add: r_def)
  have "run_state (Upload uni ?s env2 input2) w' = (Inr \<lparr>Record = r, Duplicate = True, DeleteToken = []\<rparr>, w')"
    if "fs = []" "upload_prepare uni env2 input2 = Inr (ct2, body2, chk)"
      "env_now env \<le> env_now env2" "env_now env2 < env_now env + ttl" for env2 input2 ct2 body2
  proof -
    have "active_with_checksum chk (env_now env2) (files w') = [r]"
      using active_after [OF none that(3)] that(4) r w'(1) by (simp add: active_with_checksum_def)
    then have "run_state (FindActiveByChecksum PostgresFiles chk (env_now env2)) w' = (Inr r, w')"
      using w'(2) that(1) by (simp add: PostgresFiles_def pg_FindActiveByChecksum_def run_pgScan_up)
    then show ?thesis using that(2) by (simp add: Upload_def)
  qed
  then show ?thesis using run w' r by (intro exI [of _ e] exI [of _ r] exI [of _ w']) blast
qed

theorem upload_unconfirmed_insert_witness:
  "\<exists>e r w'. run_state (Upload (\<lambda>s. s) example_service example_env example_input)
      (empty_world\<lparr>db_faults := [NoFault, FailAfter DeadlineOut]\<rparr>) = (Inl e, w') \<and>
    files w' = [r] \<and> R2Objects ref_r2 s3_buckets w' (ObjectKey r) = None \<and>
    run_state (Upload (\<lambda>s. s) example_service (example_env\<lparr>env_now := example_now + Hour\<rparr>) example_input) w' =
      (Inr \<lparr>Record = r, Duplicate = True, DeleteToken = []\<rparr>, w')"
proof -
  let ?w = "empty_world\<lparr>db_faults := [NoFault, FailAfter DeadlineOut]\<rparr>"
  have later: "upload_prepare (\<lambda>s. s) (example_env\<lparr>env_now := example_now + Hour\<rparr>) example_input =
      Inr (''image/png'', example_png, sha256_hex example_png)"
    using example_prepare by (simp add: upload_prepare_def upload_spool_def cong: option.case_cong sum.case_cong prod.case_cong if_cong)
  have "active_with_checksum (sha256_hex example_png) (env_now example_env) (files ?w) = []"
    "env_uuid example_env \<notin> file_ID ` set (files ?w)" "temp_seek example_env = None"
    by (simp_all add: active_with_checksum_def example_env_def)
  then obtain e r w' where run: "run_state (Upload (\<lambda>s. s) example_service example_env example_input) ?w = (Inl e, w')"
      "files w' = files ?w @ [r]" "R2Objects ref_r2 s3_buckets w' (ObjectKey r) = None"
    and again: "\<forall>env2 input2 ct2 body2. upload_prepare (\<lambda>s. s) env2 input2 = Inr (ct2, body2, sha256_hex example_png) \<and>
        env_now example_env \<le> env_now env2 \<and> env_now env2 < env_now example_env + 24 * Hour \<longrightarrow>
      run_state (Upload (\<lambda>s. s) example_service env2 input2) w' = (Inr \<lparr>Record = r, Duplicate = True, DeleteToken = []\<rparr>, w')"
    using upload_unconfirmed_insert [OF ref.outside_services_axioms _ _ example_prepare,
        of ?w DeadlineOut "[]" "replicate 32 (CHR 0x2A)" "24 * Hour" example_url] by auto
  have "run_state (Upload (\<lambda>s. s) example_service (example_env\<lparr>env_now := example_now + Hour\<rparr>) example_input) w' =
      (Inr \<lparr>Record = r, Duplicate = True, DeleteToken = []\<rparr>, w')"
    using again later by (auto simp: Hour_def Minute_def Second_def)
  then show ?thesis using run by auto
qed

end
