(* ===== verification/Handler_Properties.thy ===== *)
theory Handler_Properties
  imports Upload_Handler File_Handler File_Properties
begin

text \<open>The properties of the HTTP handlers of uploads and stored files.\<close>

text \<open>C24. The upload handler always returns and gives its slot back. It answers 503 exactly when all
  slots are taken, and then neither parses nor stores anything.\<close>

theorem upload_handler_releases:
  "\<exists>resp h' w'. Upload_ServeHTTP uni s rules env zone salt form r h w = Some (resp, h', w') \<and>
    concurrencyLimiter h' = concurrencyLimiter h \<and>
    (code resp = 503 \<longleftrightarrow> capacity (concurrencyLimiter h) \<le> in_use (concurrencyLimiter h)) \<and>
    (code resp = 503 \<longrightarrow> h' = h \<and> w' = w)"
proof (cases rule: Upload_ServeHTTP_cases [of h uni s rules env zone salt form r w])
  case (served l resp h1 w1)
  have "code resp \<noteq> 503"
    using served(2) by (auto simp: serve_admitted_def split: form_result.splits prod.splits sum.splits)
  then show ?thesis using served(1,3) by simp
qed simp

definition example_request :: http_request where
  "example_request = \<lparr>header = (\<lambda>_. []), RemoteAddr = ''10.0.0.1:4711'', query = (\<lambda>_. []),
     urlParam = (\<lambda>_. env_uuid example_env)\<rparr>"

definition example_handler :: upload_handler where
  "example_handler = \<lparr>concurrencyLimiter = \<lparr>capacity = 1, in_use = 1\<rparr>, uploadsTotal = 0, uploadBytesTotal = 0,
     uploadErrorsTotal = 0\<rparr>"

theorem upload_handler_releases_witness:
  "\<exists>resp. Upload_ServeHTTP (\<lambda>s. s) example_service example_rules example_env 0 ''salt'' (\<lambda>_. MissingFile)
      example_request example_handler empty_world = Some (resp, example_handler, empty_world) \<and> code resp = 503"
  using upload_handler_releases [of "\<lambda>s. s" example_service example_rules example_env 0 "''salt''" "\<lambda>_. MissingFile"
      example_request example_handler empty_world]
  by (auto simp: example_handler_def)

text \<open>The handler of \<^verbatim>\<open>GET /files/{id}\<close> answers 404 if there is no record of the id, 410 with the
  record if it has expired and 200 with the record otherwise, or 500 if the database fails; it changes
  no record.\<close>

theorem get_info_handler:
  assumes "distinct (map file_ID (files w))"
    and "run_state (Handler_GetInfo (main_files r2 cf on) zone now r) w = (resp, w')"
  shows "files w' = files w \<and> (db_faults w = [] \<longrightarrow> code resp \<noteq> 500) \<and>
    (code resp = 500 \<or>
     (case find (\<lambda>x. file_ID x = urlParam r ''id'') (files w) of
        None \<Rightarrow> code resp = 404
      | Some x \<Rightarrow> resp = response_JSON (if now > file_ExpiresAt x then 410 else 200)
          (Some (infoResponseBody zone \<lparr>info_Record = x, info_Expired = now > file_ExpiresAt x\<rparr>))))"
proof -
  let ?i = "urlParam r ''id''"
  obtain fr w1 where f: "run_state (pgScanFileRecord (\<lambda>w. filter (\<lambda>x. file_ID x = ?i) (files w))) w = (fr, w1)"
    by force
  have w': "w' = w1"
    using assms(2) f
    by (auto simp: Handler_GetInfo_def GetInfo_def file_NewService_def PostgresFiles_def pg_FindByID_def split: sum.splits)
  note run = assms(2) [unfolded Handler_GetInfo_def GetInfo_def file_NewService_def PostgresFiles_def pg_FindByID_def]
  from f show ?thesis
  proof (rule pgScan_cases)
    fix x xs
    assume x: "filter (\<lambda>x. file_ID x = ?i) (files w) = x # xs" and fr: "fr = Inr x"
      and w1: "w1 = w\<lparr>db_faults := tl (db_faults w)\<rparr>"
    have "find (\<lambda>x. file_ID x = ?i) (files w) = Some x" using x by (simp add: find_filter)
    moreover have "resp = response_JSON (if now > file_ExpiresAt x then 410 else 200)
          (Some (infoResponseBody zone \<lparr>info_Record = x, info_Expired = now > file_ExpiresAt x\<rparr>))"
      using run f fr by (auto simp: file_IsExpired_def split: if_splits)
    ultimately show ?thesis using w1 w' by simp
  next
    assume "filter (\<lambda>x. file_ID x = ?i) (files w) = []" and fr: "fr = Inl ErrFileNotFound"
      and w1: "w1 = w\<lparr>db_faults := tl (db_faults w)\<rparr>"
    then have "find (\<lambda>x. file_ID x = ?i) (files w) = None" by (simp add: find_None_filter)
    moreover have "code resp = 404" using run f fr by auto
    ultimately show ?thesis using w1 w' by simp
  next
    fix o'
    assume fr: "fr = Inl (Wrap ''scan file record'' (outside_error o'))"
      and w1: "w1 = w\<lparr>db_faults := tl (db_faults w)\<rparr>"
    have "errors_Is (outside_error o') ErrNotFound = False" by (cases o') simp_all
    then have "code resp = 500" using run f fr by auto
    moreover have "db_faults w \<noteq> []" using f fr by (auto simp: run_pgScan_up split: list.splits)
    ultimately show ?thesis using w1 w' by simp
  qed simp
qed


theorem get_info_handler_witness:
  "\<exists>resp w'. run_state (Handler_GetInfo (main_files ref_r2 (Some ref_cf) True) 0 example_now example_request) example_world
     = (resp, w') \<and> code resp = 200 \<and> files w' = [example_record]"
proof -
  obtain resp w' where run: "run_state (Handler_GetInfo (main_files ref_r2 (Some ref_cf) True) 0 example_now
      example_request) example_world = (resp, w')"
    by (meson surj_pair)
  then show ?thesis
    using get_info_handler [OF _ run] example_world_up(1)
    by (auto simp: example_world_files example_request_def pg_up_def Hour_def Minute_def Second_def)
qed

end
