(* ===== verification/Repo_Admin.thy ===== *)
theory Repo_Admin
  imports Postgres
begin

text \<open>
  The interface \<^verbatim>\<open>AdminRepository\<close>, its contract \<open>admin_repository\<close>, and its implementation in
  \<^verbatim>\<open>internal/metadata/postgres_repository_admin.go\<close> over the tables \<^verbatim>\<open>admins\<close> and \<^verbatim>\<open>admin_sessions\<close>:
  unique ids and usernames, unique token hashes, and sessions of existing admins only.
\<close>

record 'w AdminRepository =
  InsertAdmin :: "Admin \<Rightarrow> ('w, error, unit) io"
  FindAdminByUsername :: "string \<Rightarrow> ('w, error, Admin) io"
  FindAdminByID :: "string \<Rightarrow> ('w, error, Admin) io"
  CountAdmins :: "('w, error, int) io"
  TouchAdminLastLogin :: "string \<Rightarrow> time \<Rightarrow> ('w, error, unit) io"
  InsertAdminSession :: "AdminSession \<Rightarrow> ('w, error, unit) io"
  FindAdminSessionByTokenHash :: "string \<Rightarrow> ('w, error, AdminSession) io"
  TouchAdminSession :: "string \<Rightarrow> time \<Rightarrow> ('w, error, unit) io"
  DeleteAdminSession :: "string \<Rightarrow> ('w, error, unit) io"
  DeleteExpiredAdminSessions :: "time \<Rightarrow> ('w, error, unit) io"

section \<open>Postgres\<close>

definition insert_admin_stmt :: "Admin \<Rightarrow> ('a pg_scheme, unit) stmt" where
  "insert_admin_stmt admin w =
    (if admin_ID admin \<in> admin_ID ` set (admins w) \<or> Username admin \<in> Username ` set (admins w)
     then Inl unique_violation else Inr ((), w\<lparr>admins := admins w @ [admin]\<rparr>))"

definition pg_InsertAdmin :: "Admin \<Rightarrow> ('a pg_scheme, error, unit) io" where
  "pg_InsertAdmin admin =
    tryE (pg_exec (insert_admin_stmt admin))
      (\<lambda>err. if isUniqueViolation err then ErrAdminUsernameTaken else Wrap ''insert admin'' err)
      (\<lambda>_. State_Monad.return (Inr ()))"

definition pg_FindAdminByUsername :: "string \<Rightarrow> ('a pg_scheme, error, Admin) io" where
  "pg_FindAdminByUsername username =
    find_row (\<lambda>w. filter (\<lambda>a. Username a = username) (admins w)) ErrAdminNotFound ''scan admin''"

definition pg_FindAdminByID :: "string \<Rightarrow> ('a pg_scheme, error, Admin) io" where
  "pg_FindAdminByID i = find_row (\<lambda>w. filter (\<lambda>a. admin_ID a = i) (admins w)) ErrAdminNotFound ''scan admin''"

definition pg_CountAdmins :: "('a pg_scheme, error, int) io" where
  "pg_CountAdmins = tryE (pg_query (\<lambda>w. int (length (admins w)))) (Wrap ''count admins'')
     (\<lambda>count. State_Monad.return (Inr count))"

definition touch_login :: "string \<Rightarrow> time \<Rightarrow> Admin list \<Rightarrow> Admin list" where
  "touch_login i now = map (\<lambda>a. if admin_ID a = i then a\<lparr>LastLoginAt := Some now\<rparr> else a)"

definition pg_TouchAdminLastLogin :: "string \<Rightarrow> time \<Rightarrow> ('a pg_scheme, error, unit) io" where
  "pg_TouchAdminLastLogin adminID now =
    exec_update (\<lambda>w. w\<lparr>admins := touch_login adminID now (admins w)\<rparr>) ''touch admin last login''"

definition insert_session_stmt :: "AdminSession \<Rightarrow> ('a pg_scheme, unit) stmt" where
  "insert_session_stmt s w =
    (if session_TokenHash s \<in> session_TokenHash ` set (admin_sessions w) then Inl unique_violation
     else if AdminID s \<notin> admin_ID ` set (admins w) then Inl foreign_key_violation
     else Inr ((), w\<lparr>admin_sessions := admin_sessions w @ [s]\<rparr>))"

definition pg_InsertAdminSession :: "AdminSession \<Rightarrow> ('a pg_scheme, error, unit) io" where
  "pg_InsertAdminSession s =
    tryE (pg_exec (insert_session_stmt s)) (Wrap ''insert admin session'') (\<lambda>_. State_Monad.return (Inr ()))"

definition pg_FindAdminSessionByTokenHash :: "string \<Rightarrow> ('a pg_scheme, error, AdminSession) io" where
  "pg_FindAdminSessionByTokenHash h =
    find_row (\<lambda>w. filter (\<lambda>s. session_TokenHash s = h) (admin_sessions w)) ErrAdminSessionNotFound ''scan admin session''"

definition touch_session :: "string \<Rightarrow> time \<Rightarrow> AdminSession list \<Rightarrow> AdminSession list" where
  "touch_session h now = map (\<lambda>s. if session_TokenHash s = h then s\<lparr>session_LastUsedAt := now\<rparr> else s)"

definition pg_TouchAdminSession :: "string \<Rightarrow> time \<Rightarrow> ('a pg_scheme, error, unit) io" where
  "pg_TouchAdminSession h now =
    exec_update (\<lambda>w. w\<lparr>admin_sessions := touch_session h now (admin_sessions w)\<rparr>) ''touch admin session''"

definition pg_DeleteAdminSession :: "string \<Rightarrow> ('a pg_scheme, error, unit) io" where
  "pg_DeleteAdminSession h =
    exec_update (\<lambda>w. w\<lparr>admin_sessions := filter (\<lambda>s. session_TokenHash s \<noteq> h) (admin_sessions w)\<rparr>)
      ''delete admin session''"

definition pg_DeleteExpiredAdminSessions :: "time \<Rightarrow> ('a pg_scheme, error, unit) io" where
  "pg_DeleteExpiredAdminSessions cutoff =
    exec_update (\<lambda>w. w\<lparr>admin_sessions := filter (\<lambda>s. \<not> session_ExpiresAt s \<le> cutoff) (admin_sessions w)\<rparr>)
      ''delete expired admin sessions''"

definition PostgresAdmins :: "('a pg_scheme) AdminRepository" where
  "PostgresAdmins = \<lparr>InsertAdmin = pg_InsertAdmin, FindAdminByUsername = pg_FindAdminByUsername,
     FindAdminByID = pg_FindAdminByID, CountAdmins = pg_CountAdmins,
     TouchAdminLastLogin = pg_TouchAdminLastLogin, InsertAdminSession = pg_InsertAdminSession,
     FindAdminSessionByTokenHash = pg_FindAdminSessionByTokenHash, TouchAdminSession = pg_TouchAdminSession,
     DeleteAdminSession = pg_DeleteAdminSession, DeleteExpiredAdminSessions = pg_DeleteExpiredAdminSessions\<rparr>"

section \<open>The contract\<close>

text \<open>
  \<open>accounts\<close> and \<open>sessions\<close> read what the repository holds. Every operation leaves the one it is not
  about alone; an operation that fails may still have had its effect.
\<close>

locale admin_repository =
  fixes repo :: "'w AdminRepository"
    and accounts :: "'w \<Rightarrow> Admin list"
    and sessions :: "'w \<Rightarrow> AdminSession list"
    and up :: "'w \<Rightarrow> bool"
  assumes FindByUsername: "run_state (FindAdminByUsername repo u) w = (res, w') \<Longrightarrow>
      accounts w' = accounts w \<and> sessions w' = sessions w \<and>
      (case res of Inr a \<Rightarrow> a \<in> set (accounts w) \<and> Username a = u
       | Inl e \<Rightarrow> errors_Is e ErrAdminNotFound \<longrightarrow> u \<notin> Username ` set (accounts w))"
    and FindByID: "run_state (FindAdminByID repo i) w = (res, w') \<Longrightarrow>
      accounts w' = accounts w \<and> sessions w' = sessions w \<and>
      (case res of Inr a \<Rightarrow> a \<in> set (accounts w) \<and> admin_ID a = i
       | Inl e \<Rightarrow> errors_Is e ErrAdminNotFound \<longrightarrow> i \<notin> admin_ID ` set (accounts w))"
    and FindSession: "run_state (FindAdminSessionByTokenHash repo h) w = (found, w') \<Longrightarrow>
      accounts w' = accounts w \<and> sessions w' = sessions w \<and>
      (case found of Inr s \<Rightarrow> s \<in> set (sessions w) \<and> session_TokenHash s = h
       | Inl e \<Rightarrow> errors_Is e ErrAdminSessionNotFound \<longrightarrow> h \<notin> session_TokenHash ` set (sessions w))"
    and TouchLogin: "run_state (TouchAdminLastLogin repo i now) w = (done', w') \<Longrightarrow>
      sessions w' = sessions w \<and> (accounts w' = accounts w \<or> accounts w' = touch_login i now (accounts w))"
    and InsertSession: "run_state (InsertAdminSession repo s) w = (done', w') \<Longrightarrow>
      accounts w' = accounts w \<and>
      (case done' of Inr _ \<Rightarrow> session_TokenHash s \<notin> session_TokenHash ` set (sessions w) \<and> sessions w' = sessions w @ [s]
       | Inl _ \<Rightarrow> sessions w' = sessions w \<or>
           session_TokenHash s \<notin> session_TokenHash ` set (sessions w) \<and> sessions w' = sessions w @ [s])"
    and TouchSession: "run_state (TouchAdminSession repo h now) w = (done', w') \<Longrightarrow>
      accounts w' = accounts w \<and> (sessions w' = sessions w \<or> sessions w' = touch_session h now (sessions w))"
    and DeleteSession: "run_state (DeleteAdminSession repo h) w = (done', w') \<Longrightarrow>
      accounts w' = accounts w \<and>
      (case done' of Inr _ \<Rightarrow> sessions w' = filter (\<lambda>s. session_TokenHash s \<noteq> h) (sessions w)
       | Inl _ \<Rightarrow> sessions w' = sessions w \<or> sessions w' = filter (\<lambda>s. session_TokenHash s \<noteq> h) (sessions w))"
    and FindByUsername_up: "up w \<Longrightarrow> u \<in> Username ` set (accounts w) \<Longrightarrow>
      \<exists>a w'. run_state (FindAdminByUsername repo u) w = (Inr a, w') \<and> up w'"
    and FindByID_up: "up w \<Longrightarrow> i \<in> admin_ID ` set (accounts w) \<Longrightarrow>
      \<exists>a w'. run_state (FindAdminByID repo i) w = (Inr a, w') \<and> up w'"
    and FindSession_up: "up w \<Longrightarrow> h \<in> session_TokenHash ` set (sessions w) \<Longrightarrow>
      \<exists>s w'. run_state (FindAdminSessionByTokenHash repo h) w = (Inr s, w') \<and> up w'"
    and FindSession_missing_up: "up w \<Longrightarrow> h \<notin> session_TokenHash ` set (sessions w) \<Longrightarrow>
      \<exists>e w'. run_state (FindAdminSessionByTokenHash repo h) w = (Inl e, w') \<and> errors_Is e ErrAdminSessionNotFound"
    and InsertSession_up: "up w \<Longrightarrow> session_TokenHash s \<notin> session_TokenHash ` set (sessions w) \<Longrightarrow>
      AdminID s \<in> admin_ID ` set (accounts w) \<Longrightarrow>
      \<exists>w'. run_state (InsertAdminSession repo s) w = (Inr (), w') \<and> up w'"
    and TouchLogin_up: "up w \<Longrightarrow> \<exists>w'. run_state (TouchAdminLastLogin repo i now) w = (Inr (), w') \<and> up w'"
    and TouchSession_up: "up w \<Longrightarrow> \<exists>w'. run_state (TouchAdminSession repo h now) w = (Inr (), w') \<and> up w'"
    and DeleteSession_up: "up w \<Longrightarrow> \<exists>w'. run_state (DeleteAdminSession repo h) w = (Inr (), w') \<and> up w'"
    and Count: "run_state (CountAdmins repo) w = (counted, w') \<Longrightarrow> accounts w' = accounts w \<and> sessions w' = sessions w \<and>
      (case counted of Inr n \<Rightarrow> n = int (length (accounts w)) | Inl _ \<Rightarrow> True)"
    and NewAdmin: "run_state (InsertAdmin repo a) w = (done', w') \<Longrightarrow> sessions w' = sessions w \<and>
      (case done' of Inr _ \<Rightarrow> Username a \<notin> Username ` set (accounts w) \<and> accounts w' = accounts w @ [a]
       | Inl e \<Rightarrow> (errors_Is e ErrAdminUsernameTaken \<longrightarrow> accounts w \<noteq> []) \<and> (accounts w' = accounts w \<or>
           Username a \<notin> Username ` set (accounts w) \<and> accounts w' = accounts w @ [a]))"
    and Count_up: "up w \<Longrightarrow> \<exists>w'. run_state (CountAdmins repo) w = (Inr (int (length (accounts w))), w') \<and> up w'"
    and NewAdmin_up: "up w \<Longrightarrow> Username a \<notin> Username ` set (accounts w) \<Longrightarrow> admin_ID a \<notin> admin_ID ` set (accounts w) \<Longrightarrow>
      \<exists>w'. run_state (InsertAdmin repo a) w = (Inr (), w') \<and> up w'"

section \<open>Postgres meets the contract\<close>

definition db_up :: "'a pg_scheme \<Rightarrow> bool" where
  "db_up w \<longleftrightarrow> db_faults w = []"

lemma pg_InsertAdminSession_cases:
  assumes "run_state (pg_InsertAdminSession s) w = (res, w')"
  shows "admins w' = admins w"
    and "case res of Inr _ \<Rightarrow> session_TokenHash s \<notin> session_TokenHash ` set (admin_sessions w)
           \<and> admin_sessions w' = admin_sessions w @ [s]
       | Inl _ \<Rightarrow> admin_sessions w' = admin_sessions w \<or>
           session_TokenHash s \<notin> session_TokenHash ` set (admin_sessions w) \<and> admin_sessions w' = admin_sessions w @ [s]"
  using assms unfolding pg_InsertAdminSession_def
  by (auto simp: insert_session_stmt_def split: prod.splits sum.splits if_splits elim!: pg_exec_cases)

lemma pg_CountAdmins_cases:
  assumes "run_state pg_CountAdmins w = (res, w')"
  shows "admins w' = admins w \<and> admin_sessions w' = admin_sessions w \<and>
    (case res of Inr n \<Rightarrow> n = int (length (admins w)) | Inl _ \<Rightarrow> True)"
  using assms unfolding pg_CountAdmins_def pg_query_def
  by (auto split: prod.splits sum.splits elim!: pg_exec_cases)

lemma pg_InsertAdmin_cases:
  assumes "run_state (pg_InsertAdmin a) w = (res, w')"
  shows "admin_sessions w' = admin_sessions w \<and>
    (case res of Inr _ \<Rightarrow> Username a \<notin> Username ` set (admins w) \<and> admins w' = admins w @ [a]
     | Inl e \<Rightarrow> (errors_Is e ErrAdminUsernameTaken \<longrightarrow> admins w \<noteq> []) \<and>
         (admins w' = admins w \<or> Username a \<notin> Username ` set (admins w) \<and> admins w' = admins w @ [a]))"
proof -
  have outside: "\<not> isUniqueViolation (outside_error o')" "\<not> errors_Is (outside_error o') ErrAdminUsernameTaken" for o'
    by (cases o'; simp add: isUniqueViolation_def)+
  show ?thesis using assms unfolding pg_InsertAdmin_def
    by (auto simp: insert_admin_stmt_def outside split: prod.splits sum.splits if_splits elim!: pg_exec_cases)
qed

interpretation pgadmins: admin_repository PostgresAdmins admins admin_sessions db_up
proof (unfold_locales, goal_cases)
  case (1 u w res w') then show ?case
    by (auto simp: PostgresAdmins_def pg_FindAdminByUsername_def filter_empty_conv elim!: find_row_cases
        dest: filter_eq_ConsD)
next
  case (2 i w res w') then show ?case
    by (auto simp: PostgresAdmins_def pg_FindAdminByID_def filter_empty_conv elim!: find_row_cases
        dest: filter_eq_ConsD)
next
  case (3 h w res w') then show ?case
    by (auto simp: PostgresAdmins_def pg_FindAdminSessionByTokenHash_def filter_empty_conv elim!: find_row_cases
        dest: filter_eq_ConsD)
next
  case (4 i now w res w') then show ?case
    by (auto simp: PostgresAdmins_def pg_TouchAdminLastLogin_def elim!: exec_update_cases)
next
  case (5 s w res w') then show ?case
    using pg_InsertAdminSession_cases [of s w res w'] by (simp add: PostgresAdmins_def)
next
  case (6 h now w res w') then show ?case
    by (auto simp: PostgresAdmins_def pg_TouchAdminSession_def elim!: exec_update_cases)
next
  case (7 h w res w') then show ?case
    by (auto simp: PostgresAdmins_def pg_DeleteAdminSession_def elim!: exec_update_cases)
next
  case (8 w u) then show ?case
    by (auto simp: PostgresAdmins_def db_up_def pg_FindAdminByUsername_def find_row_up filter_empty_conv split: list.splits)
next
  case (9 w i) then show ?case
    by (auto simp: PostgresAdmins_def db_up_def pg_FindAdminByID_def find_row_up filter_empty_conv split: list.splits)
next
  case (10 w h) then show ?case
    by (auto simp: PostgresAdmins_def db_up_def pg_FindAdminSessionByTokenHash_def find_row_up filter_empty_conv
        split: list.splits)
next
  case (11 w h)
  then have "filter (\<lambda>s. session_TokenHash s = h) (admin_sessions w) = []" by (auto simp: filter_empty_conv)
  then show ?case using 11
    by (simp add: PostgresAdmins_def db_up_def pg_FindAdminSessionByTokenHash_def find_row_up)
next
  case (12 w s) then show ?case
    by (simp add: PostgresAdmins_def db_up_def pg_InsertAdminSession_def run_pg_exec_ok insert_session_stmt_def)
next
  case (16 w res w') then show ?case using pg_CountAdmins_cases [of w res w'] by (simp add: PostgresAdmins_def)
next
  case (17 a w res w') then show ?case using pg_InsertAdmin_cases [of a w res w'] by (simp add: PostgresAdmins_def)
next
  case (18 w) then show ?case by (simp add: PostgresAdmins_def db_up_def pg_CountAdmins_def)
next
  case (19 w a) then show ?case
    by (simp add: PostgresAdmins_def db_up_def pg_InsertAdmin_def run_pg_exec_ok insert_admin_stmt_def)
qed (simp_all add: PostgresAdmins_def db_up_def pg_TouchAdminLastLogin_def pg_TouchAdminSession_def pg_DeleteAdminSession_def)

end
