(* ===== verification/Admin_Auth.thy ===== *)
theory Admin_Auth
  imports Repo_Admin Idgen
begin

text \<open>
  The sessions of \<^verbatim>\<open>internal/admin/service.go\<close>: login, verification of a session token, logout, and
  the session janitor of \<^verbatim>\<open>janitor.go\<close>. \<open>bcrypt\<close> is \<^verbatim>\<open>bcrypt.CompareHashAndPassword\<close>, whose error is
  all the code looks at; \<open>now\<close> is what the service's clock says, \<open>rand\<close> the random bytes.
\<close>

definition sessionTTL :: duration where
  "sessionTTL = 24 * Hour"

definition dummyPasswordHash :: string where
  "dummyPasswordHash = ''$2a$12$CwTycUXWue0Thq9StjUM0uJ8p1M4gk1EYr9y7Wz4qOfNaqCzWn9E.''"

record Session =
  sess_Admin :: Admin
  sess_Session :: AdminSession

record LoginResult =
  login_Token :: string
  login_Admin :: Admin
  login_Session :: AdminSession

definition new_session :: "string \<Rightarrow> string \<Rightarrow> time \<Rightarrow> AdminSession" where
  "new_session token adminID now = \<lparr>session_TokenHash = HashSessionToken token, AdminID = adminID,
     session_CreatedAt = now, session_ExpiresAt = now + sessionTTL, session_LastUsedAt = now\<rparr>"

definition login_account ::
  "(string \<Rightarrow> string \<Rightarrow> error option) \<Rightarrow> 'w AdminRepository \<Rightarrow> time \<Rightarrow> error + bytes \<Rightarrow> string \<Rightarrow> Admin option
    \<Rightarrow> ('w, error, LoginResult) io" where
  "login_account bcrypt repo now rand password acct =
    (let passwordHash = (case acct of None \<Rightarrow> dummyPasswordHash | Some a \<Rightarrow> PasswordHash a);
         bcryptErr = bcrypt passwordHash password
     in case acct of
          None \<Rightarrow> State_Monad.return (Inl ErrInvalidCredentials)
        | Some a \<Rightarrow>
            if bcryptErr \<noteq> None then State_Monad.return (Inl ErrInvalidCredentials)
            else case NewSessionToken rand of
                Inl err \<Rightarrow> State_Monad.return (Inl (Wrap ''generate session token'' err))
              | Inr token \<Rightarrow>
                  let s = new_session token (admin_ID a) now
                  in tryE (InsertAdminSession repo s) (Wrap ''persist admin session'') (\<lambda>_.
                     tryE (TouchAdminLastLogin repo (admin_ID a) now) (Wrap ''update admin last login'') (\<lambda>_.
                     State_Monad.return (Inr \<lparr>login_Token = token, login_Admin = a, login_Session = s\<rparr>))))"

definition Login ::
  "(string \<Rightarrow> string \<Rightarrow> error option) \<Rightarrow> 'w AdminRepository \<Rightarrow> time \<Rightarrow> error + bytes \<Rightarrow> string \<Rightarrow> string
    \<Rightarrow> ('w, error, LoginResult) io" where
  "Login bcrypt repo now rand user password =
    (let username = TrimSpace user
     in if username = [] \<or> password = [] then State_Monad.return (Inl ErrInvalidCredentials)
        else do {
          found \<leftarrow> FindAdminByUsername repo username;
          case found of
            Inl err \<Rightarrow>
              if \<not> errors_Is err ErrAdminNotFound
              then State_Monad.return (Inl (Wrap ''look up admin'' err))
              else login_account bcrypt repo now rand password None
          | Inr acct \<Rightarrow> login_account bcrypt repo now rand password (Some acct)
        })"

definition VerifySession :: "'w AdminRepository \<Rightarrow> time \<Rightarrow> string \<Rightarrow> ('w, error, Session) io" where
  "VerifySession repo now token =
    (if token = [] then State_Monad.return (Inl ErrSessionInvalid)
     else let tokenHash = HashSessionToken token
     in tryE (FindAdminSessionByTokenHash repo tokenHash)
          (\<lambda>err. if errors_Is err ErrAdminSessionNotFound then ErrSessionInvalid
                else Wrap ''look up admin session'' err) (\<lambda>s.
        if session_IsExpired s now
        then do { _ \<leftarrow> DeleteAdminSession repo tokenHash; State_Monad.return (Inl ErrSessionInvalid) }
        else do {
          found \<leftarrow> FindAdminByID repo (AdminID s);
          case found of
            Inl err \<Rightarrow>
              if errors_Is err ErrAdminNotFound
              then do { _ \<leftarrow> DeleteAdminSession repo tokenHash; State_Monad.return (Inl ErrSessionInvalid) }
              else State_Monad.return (Inl (Wrap ''look up admin by id'' err))
          | Inr admin \<Rightarrow>
              tryE (TouchAdminSession repo tokenHash now) (Wrap ''touch admin session'') (\<lambda>_.
              State_Monad.return (Inr \<lparr>sess_Admin = admin, sess_Session = s\<rparr>))
        }))"

definition Logout :: "'w AdminRepository \<Rightarrow> string \<Rightarrow> ('w, error, unit) io" where
  "Logout repo token =
    (if token = [] then State_Monad.return (Inr ())
     else tryE (DeleteAdminSession repo (HashSessionToken token)) (Wrap ''delete admin session'')
       (\<lambda>_. State_Monad.return (Inr ())))"

text \<open>The janitor deletes expired sessions at every tick; a failure is only logged.\<close>

record 'w SessionJanitor =
  sj_repository :: "'w AdminRepository"

definition NewSessionJanitor :: "'w AdminRepository \<Rightarrow> 'w SessionJanitor" where
  "NewSessionJanitor repo = \<lparr>sj_repository = repo\<rparr>"

fun SessionJanitor_Run :: "'w SessionJanitor \<Rightarrow> time list \<Rightarrow> ('w, unit) state" where
  "SessionJanitor_Run j [] = State_Monad.return ()"
| "SessionJanitor_Run j (now # ticks) = do {
     _ \<leftarrow> DeleteExpiredAdminSessions (sj_repository j) now;
     SessionJanitor_Run j ticks
   }"

section \<open>What sessions guarantee\<close>

lemma new_session_sel [simp]:
  "session_TokenHash (new_session token i now) = sha256_hex token" "AdminID (new_session token i now) = i"
  "session_ExpiresAt (new_session token i now) = now + sessionTTL"
  by (simp_all add: new_session_def)

lemma set_touch_session:
  "set (touch_session h now ss) =
    (\<lambda>s. if session_TokenHash s = h then s\<lparr>session_LastUsedAt := now\<rparr> else s) ` set ss"
  by (simp add: touch_session_def)

lemma touch_session_hashes [simp]: "map session_TokenHash (touch_session h now ss) = map session_TokenHash ss"
  and touch_session_expiries [simp]: "map session_ExpiresAt (touch_session h now ss) = map session_ExpiresAt ss"
  by (induction ss) (auto simp: touch_session_def)

lemma touch_session_hash_set [simp]: "session_TokenHash ` set (touch_session h now ss) = session_TokenHash ` set ss"
  by (metis set_map touch_session_hashes)

lemma touch_login_map [simp]: "map admin_ID (touch_login i now as) = map admin_ID as"
  "map Username (touch_login i now as) = map Username as" "map PasswordHash (touch_login i now as) = map PasswordHash as"
  by (induction as) (auto simp: touch_login_def)

lemma touch_login_ids [simp]: "admin_ID ` set (touch_login i now as) = admin_ID ` set as"
  by (metis set_map touch_login_map(1))

context admin_repository
begin

text \<open>A login only ever adds one session, the one whose token it hands out.\<close>

lemma login_account_cases:
  assumes "run_state (login_account bcrypt repo now rand password (Some a)) w = (res, w')"
  obtains
    (refused) e where "res = Inl e" and "sessions w' = sessions w" and "accounts w' = accounts w"
  | (stored) buf e where "res = Inl e" and "rand = Inr buf" and "bcrypt (PasswordHash a) password = None"
      and "sessions w' = sessions w @ [new_session (EncodeToString buf) (admin_ID a) now]"
  | (ok) buf where "rand = Inr buf" and "bcrypt (PasswordHash a) password = None"
      and "res = Inr \<lparr>login_Token = EncodeToString buf, login_Admin = a,
            login_Session = new_session (EncodeToString buf) (admin_ID a) now\<rparr>"
      and "sha256_hex (EncodeToString buf) \<notin> session_TokenHash ` set (sessions w)"
      and "sessions w' = sessions w @ [new_session (EncodeToString buf) (admin_ID a) now]"
      and "accounts w' = accounts w \<or> accounts w' = touch_login (admin_ID a) now (accounts w)"
proof (cases "bcrypt (PasswordHash a) password = None \<and> (\<exists>buf. rand = Inr buf)")
  case False
  then show thesis using refused assms
    by (auto simp: login_account_def NewSessionToken_def Let_def split: sum.splits if_splits)
next
  case True
  then obtain buf where a: "rand = Inr buf" "bcrypt (PasswordHash a) password = None" by blast
  let ?s = "new_session (EncodeToString buf) (admin_ID a) now"
  obtain i w2 where i: "run_state (InsertAdminSession repo ?s) w = (i, w2)" by force
  obtain t w3 where t: "run_state (TouchAdminLastLogin repo (admin_ID a) now) w2 = (t, w3)" by force
  note run = assms [unfolded login_account_def NewSessionToken_def Let_def]
  note ins = InsertSession [OF i] and touch = TouchLogin [OF t]
  show thesis
  proof (cases i)
    case (Inl e)
    then have "w' = w2 \<and> (\<exists>e. res = Inl e)" using run a i by auto
    then show thesis using ins Inl a refused stored by auto
  next
    case i': (Inr u)
    then have "w' = w3" using run a i t by (auto split: sum.splits)
    then show thesis
      using run a i t i' ins touch by (cases t) (auto intro: stored ok)
  qed
qed

lemma Login_cases:
  assumes "run_state (Login bcrypt repo now rand user password) w = (res, w')"
  obtains
    (refused) e where "res = Inl e" and "sessions w' = sessions w" and "accounts w' = accounts w"
  | (stored) a buf e where "res = Inl e" and "rand = Inr buf" and "a \<in> set (accounts w)"
      and "Username a = TrimSpace user" and "bcrypt (PasswordHash a) password = None"
      and "sessions w' = sessions w @ [new_session (EncodeToString buf) (admin_ID a) now]"
  | (ok) a buf where "a \<in> set (accounts w)" and "Username a = TrimSpace user" and "TrimSpace user \<noteq> []"
      and "password \<noteq> []" and "bcrypt (PasswordHash a) password = None" and "rand = Inr buf"
      and "res = Inr \<lparr>login_Token = EncodeToString buf, login_Admin = a,
            login_Session = new_session (EncodeToString buf) (admin_ID a) now\<rparr>"
      and "sha256_hex (EncodeToString buf) \<notin> session_TokenHash ` set (sessions w)"
      and "sessions w' = sessions w @ [new_session (EncodeToString buf) (admin_ID a) now]"
      and "accounts w' = accounts w \<or> accounts w' = touch_login (admin_ID a) now (accounts w)"
proof (cases "TrimSpace user = [] \<or> password = []")
  case True
  then show thesis using refused assms by (auto simp: Login_def Let_def)
next
  case False
  obtain f w1 where f: "run_state (FindAdminByUsername repo (TrimSpace user)) w = (f, w1)" by force
  note look = FindByUsername [OF f]
  show thesis
  proof (cases f)
    case (Inl e)
    then have "w' = w1 \<and> (\<exists>e. res = Inl e)"
      using assms f False by (auto simp: Login_def login_account_def Let_def split: if_splits)
    then show thesis using refused look by metis
  next
    case (Inr a)
    then have acct: "a \<in> set (accounts w)" "Username a = TrimSpace user" "accounts w1 = accounts w" "sessions w1 = sessions w"
      using look by simp_all
    have "run_state (login_account bcrypt repo now rand password (Some a)) w1 = (res, w')"
      using assms f False Inr by (simp add: Login_def Let_def)
    then show thesis
    proof (cases rule: login_account_cases)
      case (refused e)
      then show thesis using that(1) acct(3,4) by metis
    next
      case (stored buf e)
      then show thesis using that(2) acct by metis
    next
      case (ok buf)
      then show thesis using that(3) [OF acct(1,2)] acct(3,4) False by auto
    qed
  qed
qed

lemma VerifySession_world:
  assumes "run_state (VerifySession repo now token) w = (res, w')"
  shows "accounts w' = accounts w \<and>
    (sessions w' = sessions w \<or> sessions w' = touch_session (sha256_hex token) now (sessions w) \<or>
     (\<exists>e. res = Inl e) \<and> sessions w' = filter (\<lambda>s. session_TokenHash s \<noteq> sha256_hex token) (sessions w))"
  using assms unfolding VerifySession_def
  by (auto simp: Let_def split: if_splits prod.splits sum.splits
      dest!: FindSession FindByID DeleteSession TouchSession)

lemma VerifySession_InrE:
  assumes "run_state (VerifySession repo now token) w = (Inr x, w')"
  obtains s a where "token \<noteq> []" and "s \<in> set (sessions w)" and "session_TokenHash s = sha256_hex token"
    and "now \<le> session_ExpiresAt s" and "a \<in> set (accounts w)" and "admin_ID a = AdminID s"
    and "x = \<lparr>sess_Admin = a, sess_Session = s\<rparr>"
  using assms unfolding VerifySession_def
  by (auto simp: Let_def session_IsExpired_def split: if_splits prod.splits sum.splits
      dest!: FindSession FindByID TouchSession)

lemma VerifySession_cases:
  assumes "run_state (VerifySession repo now token) w = (res, w')"
  obtains
    (refused) e where "res = Inl e" and "accounts w' = accounts w"
      and "sessions w' = sessions w \<or> sessions w' = filter (\<lambda>s. session_TokenHash s \<noteq> sha256_hex token) (sessions w)
         \<or> sessions w' = touch_session (sha256_hex token) now (sessions w)"
  | (ok) s a where "token \<noteq> []" and "s \<in> set (sessions w)" and "session_TokenHash s = sha256_hex token"
      and "now \<le> session_ExpiresAt s" and "a \<in> set (accounts w)" and "admin_ID a = AdminID s"
      and "res = Inr \<lparr>sess_Admin = a, sess_Session = s\<rparr>" and "accounts w' = accounts w"
      and "sessions w' = sessions w \<or> sessions w' = touch_session (sha256_hex token) now (sessions w)"
proof (cases res)
  case (Inl e)
  then show thesis using VerifySession_world [OF assms] by (intro refused) auto
next
  case (Inr x)
  note world = VerifySession_world [OF assms]
  show thesis
    by (rule VerifySession_InrE [OF assms [unfolded Inr]]) (use Inr world in \<open>auto intro!: ok\<close>)
qed

text \<open>While the database answers, a session token that was handed out works until it expires.\<close>

lemma VerifySession_up:
  assumes "up w" and "distinct (map session_TokenHash (sessions w))" and "token \<noteq> []"
    and "s \<in> set (sessions w)" and "session_TokenHash s = sha256_hex token" and "now \<le> session_ExpiresAt s"
    and "AdminID s \<in> admin_ID ` set (accounts w)"
  shows "\<exists>a w'. run_state (VerifySession repo now token) w = (Inr \<lparr>sess_Admin = a, sess_Session = s\<rparr>, w') \<and> up w'"
proof -
  let ?h = "sha256_hex token"
  have "?h \<in> session_TokenHash ` set (sessions w)" using assms(4,5) by force
  then obtain s' w1 where f: "run_state (FindAdminSessionByTokenHash repo ?h) w = (Inr s', w1)" "up w1"
    using FindSession_up [OF assms(1)] by blast
  have s': "s' = s" and same: "accounts w1 = accounts w"
    using FindSession [OF f(1)] assms(4,5) distinct_map_eq [OF assms(2)] by auto
  obtain a w2 where g: "run_state (FindAdminByID repo (AdminID s)) w1 = (Inr a, w2)" "up w2"
    using FindByID_up [OF f(2)] assms(7) same by metis
  obtain w3 where t: "run_state (TouchAdminSession repo ?h now) w2 = (Inr (), w3)" "up w3"
    using TouchSession_up [OF g(2)] by blast
  show ?thesis using f g t assms(3,6) s' by (simp add: VerifySession_def session_IsExpired_def Let_def)
qed

text \<open>While the database answers, the right password is enough to log in.\<close>

lemma Login_up:
  assumes "up w" and "distinct (map Username (accounts w))" and "a \<in> set (accounts w)"
    and "Username a = TrimSpace user" and "TrimSpace user \<noteq> []" and "password \<noteq> []"
    and "bcrypt (PasswordHash a) password = None"
    and "sha256_hex (EncodeToString buf) \<notin> session_TokenHash ` set (sessions w)"
  shows "\<exists>w'. run_state (Login bcrypt repo now (Inr buf) user password) w =
      (Inr \<lparr>login_Token = EncodeToString buf, login_Admin = a,
         login_Session = new_session (EncodeToString buf) (admin_ID a) now\<rparr>, w') \<and> up w'"
proof -
  let ?s = "new_session (EncodeToString buf) (admin_ID a) now"
  have "TrimSpace user \<in> Username ` set (accounts w)" using assms(3,4) by force
  then obtain a' w1 where f: "run_state (FindAdminByUsername repo (TrimSpace user)) w = (Inr a', w1)" "up w1"
    using FindByUsername_up [OF assms(1)] by blast
  note same = FindByUsername [OF f(1)]
  have a': "a' = a" using same assms(3,4) distinct_map_eq [OF assms(2)] by simp
  have "admin_ID a \<in> admin_ID ` set (accounts w1)" using same assms(3) by simp
  then obtain w2 where i: "run_state (InsertAdminSession repo ?s) w1 = (Inr (), w2)" "up w2"
    using InsertSession_up [OF f(2), of ?s] same assms(8) by auto
  obtain w3 where t: "run_state (TouchAdminLastLogin repo (admin_ID a) now) w2 = (Inr (), w3)" "up w3"
    using TouchLogin_up [OF i(2)] by blast
  show ?thesis
    using f i t assms a' by (simp add: Login_def login_account_def NewSessionToken_def Let_def)
qed

text \<open>A token without a session is refused, and so is one that was logged out.\<close>

lemma VerifySession_unknown:
  assumes "run_state (VerifySession repo now token) w = (res, w')"
    and "sha256_hex token \<notin> session_TokenHash ` set (sessions w)"
  shows "\<exists>e. res = Inl e"
  using assms(1) by (cases rule: VerifySession_cases) (use assms(2) in force)+

lemma Logout_sessions:
  assumes "run_state (Logout repo token) w = (Inr u, w')" and "token \<noteq> []"
  shows "sessions w' = filter (\<lambda>s. session_TokenHash s \<noteq> sha256_hex token) (sessions w)" and "accounts w' = accounts w"
  using assms by (auto simp: Logout_def split: sum.splits prod.splits dest!: DeleteSession)

end

end
