(* ===== verification/Repo_Settings.thy ===== *)
theory Repo_Settings
  imports Postgres
begin

text \<open>
  The interface \<^verbatim>\<open>UploadSettingsRepository\<close>, its contract, and its implementation in
  \<^verbatim>\<open>internal/metadata/postgres_repository_uploadsettings.go\<close> over the single row of
  \<^verbatim>\<open>upload_settings\<close>. The two lists travel as JSON: nil is \<^verbatim>\<open>null\<close> and comes back as nil, an empty
  slice is \<^verbatim>\<open>[]\<close> and comes back as an empty slice, so the row holds the slices themselves.
\<close>

record 'w UploadSettingsRepository =
  repo_GetUploadSettings :: "('w, error, UploadSettings) io"
  SeedUploadSettingsIfMissing :: "UploadSettings \<Rightarrow> ('w, error, unit) io"
  repo_UpdateUploadSettings :: "UploadSettings \<Rightarrow> string \<Rightarrow> time \<Rightarrow> ('w, error, unit) io"

definition pg_GetUploadSettings :: "('a pg_scheme, error, UploadSettings) io" where
  "pg_GetUploadSettings =
    find_row (\<lambda>w. case upload_settings w of None \<Rightarrow> [] | Some s \<Rightarrow> [s]) ErrUploadSettingsNotFound ''scan upload settings''"

definition pg_SeedUploadSettingsIfMissing :: "UploadSettings \<Rightarrow> ('a pg_scheme, error, unit) io" where
  "pg_SeedUploadSettingsIfMissing s =
    exec_update (\<lambda>w. case upload_settings w of
       Some _ \<Rightarrow> w
     | None \<Rightarrow> w\<lparr>upload_settings := Some (s\<lparr>settings_UpdatedBy := None\<rparr>)\<rparr>) ''seed upload settings''"

definition update_settings_stmt :: "UploadSettings \<Rightarrow> string \<Rightarrow> time \<Rightarrow> ('a pg_scheme, nat) stmt" where
  "update_settings_stmt s updatedBy now w =
    (case upload_settings w of
       None \<Rightarrow> Inr (0, w)
     | Some _ \<Rightarrow>
         if updatedBy \<notin> admin_ID ` set (admins w) then Inl foreign_key_violation
         else Inr (1, w\<lparr>upload_settings :=
           Some (s\<lparr>settings_UpdatedAt := now, settings_UpdatedBy := Some updatedBy\<rparr>)\<rparr>))"

definition pg_UpdateUploadSettings :: "UploadSettings \<Rightarrow> string \<Rightarrow> time \<Rightarrow> ('a pg_scheme, error, unit) io" where
  "pg_UpdateUploadSettings s updatedBy now =
    tryE (pg_exec (update_settings_stmt s updatedBy now)) (Wrap ''update upload settings'') (\<lambda>rowsAffected.
    State_Monad.return (if rowsAffected = 0 then Inl ErrUploadSettingsNotFound else Inr ()))"

definition PostgresSettings :: "('a pg_scheme) UploadSettingsRepository" where
  "PostgresSettings = \<lparr>repo_GetUploadSettings = pg_GetUploadSettings,
     SeedUploadSettingsIfMissing = pg_SeedUploadSettingsIfMissing,
     repo_UpdateUploadSettings = pg_UpdateUploadSettings\<rparr>"

locale settings_repository =
  fixes repo :: "'w UploadSettingsRepository"
    and row :: "'w \<Rightarrow> UploadSettings option"
    and up :: "'w \<Rightarrow> bool"
  assumes GetSettings: "run_state (repo_GetUploadSettings repo) w = (found, w') \<Longrightarrow> row w' = row w \<and>
      (case found of Inr s \<Rightarrow> row w = Some s | Inl e \<Rightarrow> True)"
    and UpdateSettings: "run_state (repo_UpdateUploadSettings repo s by_admin now) w = (done', w') \<Longrightarrow>
      (case done' of
         Inr _ \<Rightarrow> row w \<noteq> None \<and> row w' = Some (s\<lparr>settings_UpdatedAt := now, settings_UpdatedBy := Some by_admin\<rparr>)
       | Inl _ \<Rightarrow> row w' = row w \<or>
           row w \<noteq> None \<and> row w' = Some (s\<lparr>settings_UpdatedAt := now, settings_UpdatedBy := Some by_admin\<rparr>))"
    and SeedSettings: "run_state (SeedUploadSettingsIfMissing repo s) w = (done', w') \<Longrightarrow>
      (row w' = row w \<or> row w = None \<and> row w' = Some (s\<lparr>settings_UpdatedBy := None\<rparr>)) \<and>
      (done' = Inr () \<longrightarrow> row w' \<noteq> None)"
    and GetSettings_up: "up w \<Longrightarrow> row w = Some s \<Longrightarrow>
      \<exists>w'. run_state (repo_GetUploadSettings repo) w = (Inr s, w') \<and> up w'"

lemma pg_UpdateUploadSettings_cases:
  assumes "run_state (pg_UpdateUploadSettings s by_admin now) w = (res, w')"
  shows "case res of
         Inr _ \<Rightarrow> upload_settings w \<noteq> None \<and>
           upload_settings w' = Some (s\<lparr>settings_UpdatedAt := now, settings_UpdatedBy := Some by_admin\<rparr>)
       | Inl _ \<Rightarrow> upload_settings w' = upload_settings w \<or> upload_settings w \<noteq> None \<and>
           upload_settings w' = Some (s\<lparr>settings_UpdatedAt := now, settings_UpdatedBy := Some by_admin\<rparr>)"
  using assms unfolding pg_UpdateUploadSettings_def
  by (auto simp: update_settings_stmt_def split: prod.splits sum.splits if_splits option.splits elim!: pg_exec_cases)

interpretation pgsettings: settings_repository PostgresSettings upload_settings "\<lambda>w. db_faults w = []"
proof (unfold_locales, goal_cases)
  case (1 w res w') then show ?case
    by (auto simp: PostgresSettings_def pg_GetUploadSettings_def elim!: find_row_cases split: option.splits)
next
  case (2 s i now w res w') then show ?case
    using pg_UpdateUploadSettings_cases [of s i now w res w'] by (simp add: PostgresSettings_def)
next
  case (3 s w res w') then show ?case
    by (cases "upload_settings w")
      (auto simp: PostgresSettings_def pg_SeedUploadSettingsIfMissing_def elim!: exec_update_cases split: option.splits)
next
  case (4 w s) then show ?case
    by (simp add: PostgresSettings_def pg_GetUploadSettings_def find_row_up)
qed

end
