(* ===== verification/Bootstrap.thy ===== *)
theory Bootstrap
  imports Admin_Auth Repo_Settings
begin

text \<open>
  The first admin account and the first upload settings, from \<^verbatim>\<open>internal/admin/bootstrap.go\<close>. \<open>gen\<close> is
  \<^verbatim>\<open>bcrypt.GenerateFromPassword\<close> at the default cost, \<open>uuid\<close> the id \<^verbatim>\<open>idgen.NewAdminID\<close> draws.
\<close>

definition minPasswordLength :: int where
  "minPasswordLength = 12"

record BootstrapConfig =
  boot_Username :: string
  boot_Password :: string

definition bootstrap_admin :: "string \<Rightarrow> string \<Rightarrow> string \<Rightarrow> time \<Rightarrow> Admin" where
  "bootstrap_admin uuid username passwordHash now = \<lparr>admin_ID = uuid, Username = username,
     PasswordHash = passwordHash, admin_CreatedAt = now, LastLoginAt = None\<rparr>"

definition Bootstrap ::
  "(string \<Rightarrow> error + string) \<Rightarrow> 'w AdminRepository \<Rightarrow> time \<Rightarrow> string \<Rightarrow> BootstrapConfig \<Rightarrow> ('w, error, unit) io" where
  "Bootstrap gen repo now uuid cfg =
    tryE (CountAdmins repo) (Wrap ''count existing admins'') (\<lambda>count.
    if count > 0 then State_Monad.return (Inr ())
    else if boot_Username cfg = [] \<or> boot_Password cfg = []
    then State_Monad.return (Inl (Errorf ''no admin accounts exist and ADMIN_BOOTSTRAP_USERNAME/ADMIN_BOOTSTRAP_PASSWORD are not set: set both to create the first admin account, or insert one directly if you're restoring from a backup''))
    else if int (length (boot_Password cfg)) < minPasswordLength
    then State_Monad.return (Inl (Errorf (''ADMIN_BOOTSTRAP_PASSWORD must be at least '' @ show_int minPasswordLength @ '' characters'')))
    else case gen (boot_Password cfg) of
        Inl err \<Rightarrow> State_Monad.return (Inl (Wrap ''hash bootstrap admin password'' err))
      | Inr passwordHash \<Rightarrow> do {
          res \<leftarrow> InsertAdmin repo (bootstrap_admin uuid (boot_Username cfg) passwordHash now);
          State_Monad.return (case res of
            Inl err \<Rightarrow> if errors_Is err ErrAdminUsernameTaken then Inr () else Inl (Wrap ''insert bootstrap admin'' err)
          | Inr _ \<Rightarrow> Inr ())
        })"

record UploadSettingsDefaults =
  def_MaxUploadSizeMB :: int
  def_AllowedMimeTypes :: "string slice"
  def_BlockedExtensions :: "string slice"

definition SeedUploadSettings ::
  "'w UploadSettingsRepository \<Rightarrow> time \<Rightarrow> UploadSettingsDefaults \<Rightarrow> ('w, error, unit) io" where
  "SeedUploadSettings repo now defaults =
    SeedUploadSettingsIfMissing repo \<lparr>MaxUploadSizeMB = def_MaxUploadSizeMB defaults,
      AllowedMimeTypes = def_AllowedMimeTypes defaults, BlockedExtensions = def_BlockedExtensions defaults,
      settings_UpdatedAt = now, settings_UpdatedBy = None\<rparr>"

context admin_repository
begin

text \<open>Bootstrapping adds at most the one account, only to an empty table, and only with a long password.\<close>

lemma Bootstrap_cases:
  assumes "run_state (Bootstrap gen repo now uuid cfg) w = (res, w')"
  obtains
    (kept) "accounts w' = accounts w" and "sessions w' = sessions w"
      and "res = Inr () \<Longrightarrow> accounts w \<noteq> []"
  | (added) h where "accounts w = []" and "gen (boot_Password cfg) = Inr h"
      and "minPasswordLength \<le> int (length (boot_Password cfg))" and "boot_Username cfg \<noteq> []"
      and "accounts w' = [bootstrap_admin uuid (boot_Username cfg) h now]" and "sessions w' = sessions w"
proof -
  obtain c w1 where c: "run_state (CountAdmins repo) w = (c, w1)" by force
  note count = Count [OF c]
  note run = assms [unfolded Bootstrap_def]
  show thesis
  proof (cases "\<exists>h. c = Inr 0 \<and> boot_Username cfg \<noteq> [] \<and> boot_Password cfg \<noteq> [] \<and>
      minPasswordLength \<le> int (length (boot_Password cfg)) \<and> gen (boot_Password cfg) = Inr h")
    case False
    then have "w' = w1 \<and> (res = Inr () \<longrightarrow> (\<exists>n. c = Inr n \<and> 0 < n))"
      using run c count by (cases c) (auto split: if_splits sum.splits)
    then show thesis using kept count by auto
  next
    case True
    then obtain h where h: "c = Inr 0" "boot_Username cfg \<noteq> []" "boot_Password cfg \<noteq> []"
      "minPasswordLength \<le> int (length (boot_Password cfg))" "gen (boot_Password cfg) = Inr h" by blast
    let ?a = "bootstrap_admin uuid (boot_Username cfg) h now"
    obtain i w2 where i: "run_state (InsertAdmin repo ?a) w1 = (i, w2)" by force
    have w': "w' = w2"
      and res: "res = Inr () \<Longrightarrow> i = Inr () \<or> (\<exists>e. i = Inl e \<and> errors_Is e ErrAdminUsernameTaken)"
      using run c h i by (auto split: sum.splits if_splits)
    have none: "accounts w = []" using count h(1) by simp
    show thesis
    proof (cases "accounts w2 = accounts w1")
      case True
      then show thesis using kept [OF _ _] NewAdmin [OF i] count w' res i by (cases i) auto
    next
      case False
      then have "accounts w2 = accounts w1 @ [?a]" using NewAdmin [OF i] by (cases i) auto
      then show thesis using added [OF none h(5,4,2)] NewAdmin [OF i] count none w' by simp
    qed
  qed
qed

lemma Bootstrap_up:
  assumes "up w" and "accounts w = []" and "boot_Username cfg \<noteq> []"
    and "minPasswordLength \<le> int (length (boot_Password cfg))" and "gen (boot_Password cfg) = Inr h"
  shows "\<exists>w'. run_state (Bootstrap gen repo now uuid cfg) w = (Inr (), w') \<and> up w' \<and>
    accounts w' = [bootstrap_admin uuid (boot_Username cfg) h now] \<and> sessions w' = sessions w"
proof -
  obtain w1 where c: "run_state (CountAdmins repo) w = (Inr 0, w1)" "up w1"
    using Count_up [OF assms(1)] assms(2) by auto
  note same = Count [OF c(1)]
  let ?a = "bootstrap_admin uuid (boot_Username cfg) h now"
  obtain w2 where i: "run_state (InsertAdmin repo ?a) w1 = (Inr (), w2)" "up w2"
    using NewAdmin_up [OF c(2), of ?a] same assms(2) by auto
  have "boot_Password cfg \<noteq> []" using assms(4) by (auto simp: minPasswordLength_def)
  then show ?thesis using c i assms NewAdmin [OF i(1)] same by (simp add: Bootstrap_def)
qed

end

end
