(* ===== verification/Repo_APIKeys.thy ===== *)
theory Repo_APIKeys
  imports Postgres
begin

text \<open>
  The interface \<^verbatim>\<open>APIKeyRepository\<close>, its contract, and its implementation in
  \<^verbatim>\<open>internal/metadata/postgres_repository_apikeys.go\<close> over the table \<^verbatim>\<open>api_keys\<close> (unique ids and
  unique token hashes).
\<close>

record 'w APIKeyRepository =
  InsertAPIKey :: "APIKey \<Rightarrow> ('w, error, unit) io"
  FindAPIKeyByTokenHash :: "string \<Rightarrow> ('w, error, APIKey) io"
  repo_ListAPIKeys :: "('w, error, APIKey list) io"
  TouchAPIKey :: "string \<Rightarrow> time \<Rightarrow> ('w, error, unit) io"
  repo_RevokeAPIKey :: "string \<Rightarrow> time \<Rightarrow> ('w, error, unit) io"

definition touch_key :: "string \<Rightarrow> time \<Rightarrow> APIKey list \<Rightarrow> APIKey list" where
  "touch_key i now = map (\<lambda>k. if key_ID k = i then k\<lparr>key_LastUsedAt := Some now\<rparr> else k)"

definition revoke_key :: "string \<Rightarrow> time \<Rightarrow> APIKey list \<Rightarrow> APIKey list" where
  "revoke_key i now = map (\<lambda>k. if key_ID k = i \<and> RevokedAt k = None then k\<lparr>RevokedAt := Some now\<rparr> else k)"

definition insert_key_stmt :: "APIKey \<Rightarrow> ('a pg_scheme, unit) stmt" where
  "insert_key_stmt k w =
    (if key_ID k \<in> key_ID ` set (api_keys w) \<or> key_TokenHash k \<in> key_TokenHash ` set (api_keys w)
     then Inl unique_violation else Inr ((), w\<lparr>api_keys := api_keys w @ [k]\<rparr>))"

definition pg_InsertAPIKey :: "APIKey \<Rightarrow> ('a pg_scheme, error, unit) io" where
  "pg_InsertAPIKey k =
    tryE (pg_exec (insert_key_stmt k)) (Wrap ''insert api key'') (\<lambda>_. State_Monad.return (Inr ()))"

definition pg_FindAPIKeyByTokenHash :: "string \<Rightarrow> ('a pg_scheme, error, APIKey) io" where
  "pg_FindAPIKeyByTokenHash h =
    find_row (\<lambda>w. filter (\<lambda>k. key_TokenHash k = h) (api_keys w)) ErrAPIKeyNotFound ''scan api key''"

definition pg_ListAPIKeys :: "('a pg_scheme, error, APIKey list) io" where
  "pg_ListAPIKeys = list_rows (\<lambda>w. sort_key (\<lambda>k. - key_CreatedAt k) (api_keys w)) ''query api keys'' ''iterate api key rows''"

definition pg_TouchAPIKey :: "string \<Rightarrow> time \<Rightarrow> ('a pg_scheme, error, unit) io" where
  "pg_TouchAPIKey i now = exec_update (\<lambda>w. w\<lparr>api_keys := touch_key i now (api_keys w)\<rparr>) ''touch api key''"

definition pg_RevokeAPIKey :: "string \<Rightarrow> time \<Rightarrow> ('a pg_scheme, error, unit) io" where
  "pg_RevokeAPIKey i now = exec_update (\<lambda>w. w\<lparr>api_keys := revoke_key i now (api_keys w)\<rparr>) ''revoke api key''"

definition PostgresKeys :: "('a pg_scheme) APIKeyRepository" where
  "PostgresKeys = \<lparr>InsertAPIKey = pg_InsertAPIKey, FindAPIKeyByTokenHash = pg_FindAPIKeyByTokenHash,
     repo_ListAPIKeys = pg_ListAPIKeys, TouchAPIKey = pg_TouchAPIKey, repo_RevokeAPIKey = pg_RevokeAPIKey\<rparr>"

locale api_key_repository =
  fixes repo :: "'w APIKeyRepository"
    and keys :: "'w \<Rightarrow> APIKey list"
    and up :: "'w \<Rightarrow> bool"
  assumes InsertKey: "run_state (InsertAPIKey repo k) w = (done', w') \<Longrightarrow>
      (case done' of Inr _ \<Rightarrow> key_ID k \<notin> key_ID ` set (keys w) \<and>
           key_TokenHash k \<notin> key_TokenHash ` set (keys w) \<and> keys w' = keys w @ [k]
       | Inl _ \<Rightarrow> keys w' = keys w \<or> key_ID k \<notin> key_ID ` set (keys w) \<and>
           key_TokenHash k \<notin> key_TokenHash ` set (keys w) \<and> keys w' = keys w @ [k])"
    and FindKey: "run_state (FindAPIKeyByTokenHash repo h) w = (found, w') \<Longrightarrow> keys w' = keys w \<and>
      (case found of Inr k \<Rightarrow> k \<in> set (keys w) \<and> key_TokenHash k = h
       | Inl e \<Rightarrow> errors_Is e ErrAPIKeyNotFound \<longrightarrow> h \<notin> key_TokenHash ` set (keys w))"
    and ListKeys: "run_state (repo_ListAPIKeys repo) w = (listed, w') \<Longrightarrow> keys w' = keys w \<and>
      (case listed of Inr ks \<Rightarrow> set ks = set (keys w) \<and> sorted (map (\<lambda>k. - key_CreatedAt k) ks) | Inl _ \<Rightarrow> True)"
    and TouchKey: "run_state (TouchAPIKey repo i now) w = (done', w') \<Longrightarrow>
      keys w' = keys w \<or> keys w' = touch_key i now (keys w)"
    and RevokeKey: "run_state (repo_RevokeAPIKey repo i now) w = (done', w') \<Longrightarrow>
      (case done' of Inr _ \<Rightarrow> keys w' = revoke_key i now (keys w)
       | Inl _ \<Rightarrow> keys w' = keys w \<or> keys w' = revoke_key i now (keys w))"
    and FindKey_up: "up w \<Longrightarrow> h \<in> key_TokenHash ` set (keys w) \<Longrightarrow>
      \<exists>k w'. run_state (FindAPIKeyByTokenHash repo h) w = (Inr k, w') \<and> up w'"
    and TouchKey_up: "up w \<Longrightarrow> \<exists>w'. run_state (TouchAPIKey repo i now) w = (Inr (), w') \<and> up w'"

interpretation pgkeys: api_key_repository PostgresKeys api_keys "\<lambda>w. db_faults w = []"
proof (unfold_locales, goal_cases)
  case (1 k w res w') then show ?case
    unfolding PostgresKeys_def pg_InsertAPIKey_def
    by (auto simp: insert_key_stmt_def split: prod.splits sum.splits if_splits elim!: pg_exec_cases)
next
  case (2 h w res w') then show ?case
    by (auto simp: PostgresKeys_def pg_FindAPIKeyByTokenHash_def filter_empty_conv elim!: find_row_cases
        dest: filter_eq_ConsD)
next
  case (3 w res w')
  then have run: "run_state (list_rows (\<lambda>w. sort_key (\<lambda>k. - key_CreatedAt k) (api_keys w)) ''query api keys''
      ''iterate api key rows'') w = (res, w')"
    by (simp add: PostgresKeys_def pg_ListAPIKeys_def)
  obtain fs where "w' = w\<lparr>db_faults := fs\<rparr>" using list_rows_cases(1) [OF run] by auto
  moreover have "ks = sort_key (\<lambda>k. - key_CreatedAt k) (api_keys w)" if "res = Inr ks" for ks
    using list_rows_cases(2) [OF run _ that] by simp
  ultimately show ?case by (cases res) auto
next
  case (4 i now w res w') then show ?case
    by (auto simp: PostgresKeys_def pg_TouchAPIKey_def elim!: exec_update_cases)
next
  case (5 i now w res w') then show ?case
    by (auto simp: PostgresKeys_def pg_RevokeAPIKey_def elim!: exec_update_cases)
next
  case (6 w h) then show ?case
    by (auto simp: PostgresKeys_def pg_FindAPIKeyByTokenHash_def find_row_up filter_empty_conv split: list.splits)
qed (simp_all add: PostgresKeys_def pg_TouchAPIKey_def)

end
