(* ===== verification/Admin_Keys.thy ===== *)
theory Admin_Keys
  imports Repo_APIKeys Idgen
begin

text \<open>
  The API keys of \<^verbatim>\<open>internal/admin/service.go\<close>: create, list, revoke and verify.
\<close>

record CreateAPIKeyResult =
  created_Key :: string
  created_Record :: APIKey

definition CreateAPIKey ::
  "'w APIKeyRepository \<Rightarrow> time \<Rightarrow> string \<Rightarrow> error + bytes \<Rightarrow> string \<Rightarrow> ('w, error, CreateAPIKeyResult) io" where
  "CreateAPIKey repo now uuid rand rawName =
    (let name = TrimSpace rawName
     in if name = [] then State_Monad.return (Inl (Errorf ''api key name must not be empty''))
        else case NewAPIKey rand of
            Inl err \<Rightarrow> State_Monad.return (Inl (Wrap ''generate api key'' err))
          | Inr key \<Rightarrow>
              let record = \<lparr>key_ID = uuid, key_Name = name, key_TokenHash = HashAPIKey key, key_CreatedAt = now,
                    key_LastUsedAt = None, RevokedAt = None\<rparr>
              in tryE (InsertAPIKey repo record) (Wrap ''persist api key'') (\<lambda>_.
                 State_Monad.return (Inr \<lparr>created_Key = key, created_Record = record\<rparr>)))"

definition ListAPIKeys :: "'w APIKeyRepository \<Rightarrow> ('w, error, APIKey list) io" where
  "ListAPIKeys repo =
    tryE (repo_ListAPIKeys repo) (Wrap ''list api keys'') (\<lambda>keys. State_Monad.return (Inr keys))"

definition RevokeAPIKey :: "'w APIKeyRepository \<Rightarrow> time \<Rightarrow> string \<Rightarrow> ('w, error, unit) io" where
  "RevokeAPIKey repo now i =
    tryE (repo_RevokeAPIKey repo i now) (Wrap ''revoke api key'') (\<lambda>_. State_Monad.return (Inr ()))"

definition VerifyAPIKey :: "'w APIKeyRepository \<Rightarrow> time \<Rightarrow> string \<Rightarrow> ('w, error, APIKey) io" where
  "VerifyAPIKey repo now key =
    (if key = [] then State_Monad.return (Inl ErrAPIKeyInvalid)
     else tryE (FindAPIKeyByTokenHash repo (HashAPIKey key))
       (\<lambda>err. if errors_Is err ErrAPIKeyNotFound then ErrAPIKeyInvalid else Wrap ''look up api key'' err) (\<lambda>record.
       if IsRevoked record then State_Monad.return (Inl ErrAPIKeyInvalid)
       else tryE (TouchAPIKey repo (key_ID record) now) (Wrap ''touch api key'') (\<lambda>_.
            State_Monad.return (Inr record))))"

section \<open>What keys guarantee\<close>

lemma touch_key_map [simp]: "map key_TokenHash (touch_key i now ks) = map key_TokenHash ks"
  "map RevokedAt (touch_key i now ks) = map RevokedAt ks" "map key_ID (touch_key i now ks) = map key_ID ks"
  by (induction ks) (auto simp: touch_key_def)

lemma revoke_key_map [simp]: "map key_TokenHash (revoke_key i now ks) = map key_TokenHash ks"
  "map key_ID (revoke_key i now ks) = map key_ID ks"
  by (induction ks) (auto simp: revoke_key_def)

text \<open>A revocation and its time stay for good: the table only grows, and no entry loses its mark.\<close>

definition revocations_kept :: "APIKey list \<Rightarrow> APIKey list \<Rightarrow> bool" where
  "revocations_kept ks ks' \<longleftrightarrow> length ks \<le> length ks' \<and>
     (\<forall>n < length ks. key_TokenHash (ks' ! n) = key_TokenHash (ks ! n) \<and>
        (RevokedAt (ks ! n) \<noteq> None \<longrightarrow> RevokedAt (ks' ! n) = RevokedAt (ks ! n)))"

lemma revocations_kept_refl [simp]: "revocations_kept ks ks"
  by (simp add: revocations_kept_def)

lemma revocations_kept_append [simp]: "revocations_kept ks (ks @ [k])"
  by (simp add: revocations_kept_def nth_append)

lemma revocations_kept_touch [simp]: "revocations_kept ks (touch_key i now ks)"
  by (simp add: revocations_kept_def touch_key_def)

lemma revocations_kept_revoke [simp]: "revocations_kept ks (revoke_key i now ks)"
  by (simp add: revocations_kept_def revoke_key_def)

lemma revocations_kept_trans: "revocations_kept a b \<Longrightarrow> revocations_kept b c \<Longrightarrow> revocations_kept a c"
  unfolding revocations_kept_def by (metis order_less_le_trans order_trans)

context api_key_repository
begin

lemma CreateAPIKey_cases:
  assumes "run_state (CreateAPIKey repo now uuid rand name) w = (res, w')"
  obtains
    (refused) e where "res = Inl e" and "keys w' = keys w"
  | (stored) k e where "res = Inl e" and "keys w' = keys w @ [k]"
  | (ok) buf k where "rand = Inr buf" and "TrimSpace name \<noteq> []"
      and "k = \<lparr>key_ID = uuid, key_Name = TrimSpace name, key_TokenHash = sha256_hex (apiKeyPrefix @ EncodeToString buf),
            key_CreatedAt = now, key_LastUsedAt = None, RevokedAt = None\<rparr>"
      and "res = Inr \<lparr>created_Key = apiKeyPrefix @ EncodeToString buf, created_Record = k\<rparr>"
      and "key_TokenHash k \<notin> key_TokenHash ` set (keys w)" and "keys w' = keys w @ [k]"
proof (cases "TrimSpace name = [] \<or> (\<exists>e. rand = Inl e)")
  case True
  then have "w' = w \<and> (\<exists>e. res = Inl e)"
    using assms by (auto simp: CreateAPIKey_def NewAPIKey_def Let_def split: if_splits)
  then show thesis using refused by metis
next
  case False
  then obtain buf where buf: "rand = Inr buf" by (cases rand) auto
  let ?k = "\<lparr>key_ID = uuid, key_Name = TrimSpace name, key_TokenHash = sha256_hex (apiKeyPrefix @ EncodeToString buf),
            key_CreatedAt = now, key_LastUsedAt = None, RevokedAt = None\<rparr>"
  obtain i w1 where i: "run_state (InsertAPIKey repo ?k) w = (i, w1)" by force
  show thesis
  proof (cases i)
    case (Inl e)
    then have "w' = w1 \<and> (\<exists>e. res = Inl e)"
      using assms False buf i by (auto simp: CreateAPIKey_def NewAPIKey_def Let_def)
    then show thesis using InsertKey [OF i] Inl refused stored by auto
  next
    case (Inr u)
    then have "w' = w1" "res = Inr \<lparr>created_Key = apiKeyPrefix @ EncodeToString buf, created_Record = ?k\<rparr>"
      using assms False buf i by (simp_all add: CreateAPIKey_def NewAPIKey_def Let_def)
    then show thesis using ok [OF buf _ refl] InsertKey [OF i] Inr False by simp
  qed
qed

lemma VerifyAPIKey_cases:
  assumes "run_state (VerifyAPIKey repo now key) w = (res, w')"
  obtains
    (refused) e where "res = Inl e" and "revocations_kept (keys w) (keys w')"
  | (ok) k where "key \<noteq> []" and "res = Inr k" and "k \<in> set (keys w)" and "key_TokenHash k = sha256_hex key"
      and "RevokedAt k = None" and "keys w' = keys w \<or> keys w' = touch_key (key_ID k) now (keys w)"
proof (cases "key = []")
  case True
  then show thesis using refused assms by (auto simp: VerifyAPIKey_def)
next
  case False
  obtain f w1 where f: "run_state (FindAPIKeyByTokenHash repo (sha256_hex key)) w = (f, w1)" by force
  have same: "keys w1 = keys w" using FindKey [OF f] by simp
  show thesis
  proof (cases "\<exists>k. f = Inr k \<and> RevokedAt k = None")
    case nope: False
    then have "w' = w1 \<and> (\<exists>e. res = Inl e)"
      using assms f False by (auto simp: VerifyAPIKey_def IsRevoked_def split: sum.splits)
    then show thesis using refused same by (metis revocations_kept_refl)
  next
    case True
    then obtain k where k: "f = Inr k" "RevokedAt k = None" by blast
    obtain t w2 where t: "run_state (TouchAPIKey repo (key_ID k) now) w1 = (t, w2)" by force
    have touched: "keys w2 = keys w \<or> keys w2 = touch_key (key_ID k) now (keys w)" using TouchKey [OF t] same by simp
    show thesis
    proof (cases t)
      case (Inl e)
      then have "w' = w2 \<and> (\<exists>e. res = Inl e)"
        using assms f False k t by (auto simp: VerifyAPIKey_def IsRevoked_def)
      then show thesis using refused touched by (metis revocations_kept_refl revocations_kept_touch)
    next
      case (Inr u)
      then have "w' = w2 \<and> res = Inr k"
        using assms f False k t by (simp add: VerifyAPIKey_def IsRevoked_def)
      then show thesis using ok [OF False _ _ _ k(2)] FindKey [OF f] k(1) touched by simp
    qed
  qed
qed

lemma RevokeAPIKey_cases:
  assumes "run_state (RevokeAPIKey repo now i) w = (res, w')"
  shows "case res of Inr _ \<Rightarrow> keys w' = revoke_key i now (keys w)
    | Inl _ \<Rightarrow> keys w' = keys w \<or> keys w' = revoke_key i now (keys w)"
  using assms by (auto simp: RevokeAPIKey_def split: sum.splits prod.splits dest!: RevokeKey)

lemma VerifyAPIKey_up:
  assumes "up w" and "distinct (map key_TokenHash (keys w))" and "k \<in> set (keys w)"
    and "key_TokenHash k = sha256_hex key" and "RevokedAt k = None" and "key \<noteq> []"
  shows "\<exists>w'. run_state (VerifyAPIKey repo now key) w = (Inr k, w') \<and> up w'"
proof -
  have "sha256_hex key \<in> key_TokenHash ` set (keys w)" using assms(3,4) by force
  then obtain k' w1 where f: "run_state (FindAPIKeyByTokenHash repo (sha256_hex key)) w = (Inr k', w1)" "up w1"
    using FindKey_up [OF assms(1)] by blast
  have "k' = k" using FindKey [OF f(1)] assms(3,4) distinct_map_eq [OF assms(2)] by auto
  moreover obtain w2 where "run_state (TouchAPIKey repo (key_ID k) now) w1 = (Inr (), w2)" "up w2"
    using TouchKey_up [OF f(2)] by blast
  ultimately show ?thesis using f(1) assms(5,6) by (simp add: VerifyAPIKey_def IsRevoked_def)
qed

end

end
