(* ===== verification/Legal.thy ===== *)
theory Legal
  imports Postgres Response Go_Time
begin

text \<open>
  The legal documents: the interface \<^verbatim>\<open>LegalDocumentRepository\<close> with its contract, its implementation
  in \<^verbatim>\<open>postgres_repository_legal.go\<close> (one row per \<^verbatim>\<open>doc_type\<close>, which must be terms or privacy), the
  service methods of \<^verbatim>\<open>internal/admin/service.go\<close>, the seeding of \<^verbatim>\<open>bootstrap.go\<close> and the public
  handler of \<^verbatim>\<open>internal/legal/handler.go\<close>.
\<close>

record 'w LegalDocumentRepository =
  repo_GetLegalDocument :: "string \<Rightarrow> ('w, error, LegalDocument) io"
  SeedLegalDocumentIfMissing :: "LegalDocument \<Rightarrow> ('w, error, unit) io"
  repo_UpdateLegalDocument :: "string \<Rightarrow> string \<Rightarrow> string \<Rightarrow> time \<Rightarrow> ('w, error, LegalDocument) io"

definition pg_GetLegalDocument :: "string \<Rightarrow> ('a pg_scheme, error, LegalDocument) io" where
  "pg_GetLegalDocument docType =
    find_row (\<lambda>w. filter (\<lambda>d. DocType d = docType) (legal_documents w)) ErrLegalDocumentNotFound ''scan legal document''"

definition seed_legal_stmt :: "LegalDocument \<Rightarrow> ('a pg_scheme, unit) stmt" where
  "seed_legal_stmt doc w =
    (if DocType doc \<notin> {LegalDocTerms, LegalDocPrivacy} then Inl (PgError ''23514'')
     else if DocType doc \<in> DocType ` set (legal_documents w) then Inr ((), w)
     else Inr ((), w\<lparr>legal_documents := legal_documents w @ [doc\<lparr>legal_UpdatedBy := None\<rparr>]\<rparr>))"

definition pg_SeedLegalDocumentIfMissing :: "LegalDocument \<Rightarrow> ('a pg_scheme, error, unit) io" where
  "pg_SeedLegalDocumentIfMissing doc =
    tryE (pg_exec (seed_legal_stmt doc)) (Wrap ''seed legal document'') (\<lambda>_. State_Monad.return (Inr ()))"

definition set_document :: "string \<Rightarrow> string \<Rightarrow> string \<Rightarrow> time \<Rightarrow> LegalDocument list \<Rightarrow> LegalDocument list" where
  "set_document docType body by_admin now = map (\<lambda>d. if DocType d = docType
     then d\<lparr>Content := body, legal_UpdatedAt := now, legal_UpdatedBy := Some by_admin\<rparr> else d)"

text \<open>\<^verbatim>\<open>UPDATE ... RETURNING\<close>: the updated rows, of which the first is read.\<close>

definition update_legal_stmt :: "string \<Rightarrow> string \<Rightarrow> string \<Rightarrow> time \<Rightarrow> ('a pg_scheme, LegalDocument) stmt" where
  "update_legal_stmt docType body by_admin now w =
    (let docs = set_document docType body by_admin now (legal_documents w)
     in case filter (\<lambda>d. DocType d = docType) docs of
          [] \<Rightarrow> Inl ErrNoRows
        | d # _ \<Rightarrow> if by_admin \<notin> admin_ID ` set (admins w) then Inl foreign_key_violation
                   else Inr (d, w\<lparr>legal_documents := docs\<rparr>))"

definition pg_UpdateLegalDocument :: "string \<Rightarrow> string \<Rightarrow> string \<Rightarrow> time \<Rightarrow> ('a pg_scheme, error, LegalDocument) io" where
  "pg_UpdateLegalDocument docType body by_admin now =
    tryE (pg_exec (update_legal_stmt docType body by_admin now))
      (\<lambda>err. if errors_Is err ErrNoRows then ErrLegalDocumentNotFound else Wrap ''update legal document'' err)
      (\<lambda>d. State_Monad.return (Inr d))"

definition PostgresLegal :: "('a pg_scheme) LegalDocumentRepository" where
  "PostgresLegal = \<lparr>repo_GetLegalDocument = pg_GetLegalDocument,
     SeedLegalDocumentIfMissing = pg_SeedLegalDocumentIfMissing,
     repo_UpdateLegalDocument = pg_UpdateLegalDocument\<rparr>"

section \<open>Service, seeding and public handler\<close>

definition isValidLegalDocType :: "string \<Rightarrow> bool" where
  "isValidLegalDocType docType \<longleftrightarrow> docType = LegalDocTerms \<or> docType = LegalDocPrivacy"

definition GetLegalDocument :: "'w LegalDocumentRepository \<Rightarrow> string \<Rightarrow> ('w, error, LegalDocument) io" where
  "GetLegalDocument repo docType =
    (if \<not> isValidLegalDocType docType then State_Monad.return (Inl ErrInvalidLegalDocType)
     else tryE (repo_GetLegalDocument repo docType) (Wrap ''get legal document'') (\<lambda>d. State_Monad.return (Inr d)))"

definition UpdateLegalDocument ::
  "'w LegalDocumentRepository \<Rightarrow> time \<Rightarrow> string \<Rightarrow> string \<Rightarrow> string \<Rightarrow> ('w, error, LegalDocument) io" where
  "UpdateLegalDocument repo now docType body adminID =
    (if \<not> isValidLegalDocType docType then State_Monad.return (Inl ErrInvalidLegalDocType)
     else if TrimSpace body = [] then State_Monad.return (Inl ErrLegalDocumentContentEmpty)
     else tryE (repo_UpdateLegalDocument repo docType body adminID now) (Wrap ''update legal document'')
            (\<lambda>d. State_Monad.return (Inr d)))"

definition defaultTermsContent :: string where
  "defaultTermsContent = ''No terms of service have been configured yet.''"

definition defaultPrivacyContent :: string where
  "defaultPrivacyContent = ''No privacy policy has been configured yet.''"

definition SeedLegalDocuments :: "'w LegalDocumentRepository \<Rightarrow> time \<Rightarrow> ('w, error, unit) io" where
  "SeedLegalDocuments repo now =
    tryE (SeedLegalDocumentIfMissing repo \<lparr>DocType = LegalDocTerms, Content = defaultTermsContent,
        legal_UpdatedAt = now, legal_UpdatedBy = None\<rparr>) (Wrap ''seed terms document'') (\<lambda>_.
    tryE (SeedLegalDocumentIfMissing repo \<lparr>DocType = LegalDocPrivacy, Content = defaultPrivacyContent,
        legal_UpdatedAt = now, legal_UpdatedBy = None\<rparr>) (Wrap ''seed privacy document'') (\<lambda>_.
    State_Monad.return (Inr ())))"

definition json_optional :: "string \<Rightarrow> string option \<Rightarrow> (string \<times> json) list" where
  "json_optional key v = (case v of None \<Rightarrow> [] | Some s \<Rightarrow> [(key, JString s)])"

definition legal_body :: "int \<Rightarrow> LegalDocument \<Rightarrow> json" where
  "legal_body zone d = JObject ([(''doc_type'', JString (DocType d)), (''content'', JString (Content d)),
     (''updated_at'', JString (Format zone (legal_UpdatedAt d)))] @ json_optional ''updated_by'' (legal_UpdatedBy d))"

definition legal_serve :: "'w LegalDocumentRepository \<Rightarrow> int \<Rightarrow> string \<Rightarrow> ('w, http_response) state" where
  "legal_serve repo zone docType = do {
     found \<leftarrow> repo_GetLegalDocument repo docType;
     State_Monad.return (case found of
       Inl err \<Rightarrow>
         if errors_Is err ErrLegalDocumentNotFound then response_Error 404 ''legal document not found''
         else response_Error 500 ''failed to get legal document''
     | Inr d \<Rightarrow> response_JSON 200 (Some (legal_body zone d)))
   }"

definition legal_Terms :: "'w LegalDocumentRepository \<Rightarrow> int \<Rightarrow> ('w, http_response) state" where
  "legal_Terms repo zone = legal_serve repo zone LegalDocTerms"

definition legal_Privacy :: "'w LegalDocumentRepository \<Rightarrow> int \<Rightarrow> ('w, http_response) state" where
  "legal_Privacy repo zone = legal_serve repo zone LegalDocPrivacy"

section \<open>The contract\<close>

locale legal_repository =
  fixes repo :: "'w LegalDocumentRepository"
    and docs :: "'w \<Rightarrow> LegalDocument list"
    and up :: "'w \<Rightarrow> bool"
  assumes GetDoc: "run_state (repo_GetLegalDocument repo t) w = (found, w') \<Longrightarrow> docs w' = docs w \<and>
      (case found of Inr d \<Rightarrow> d \<in> set (docs w) \<and> DocType d = t
       | Inl e \<Rightarrow> errors_Is e ErrLegalDocumentNotFound \<longrightarrow> t \<notin> DocType ` set (docs w))"
    and SeedDoc: "run_state (SeedLegalDocumentIfMissing repo d) w = (done', w') \<Longrightarrow>
      (docs w' = docs w \<or> DocType d \<notin> DocType ` set (docs w) \<and> docs w' = docs w @ [d\<lparr>legal_UpdatedBy := None\<rparr>]) \<and>
      (done' = Inr () \<longrightarrow> DocType d \<in> DocType ` set (docs w'))"
    and UpdateDoc: "run_state (repo_UpdateLegalDocument repo t body i now) w = (found, w') \<Longrightarrow>
      (case found of
         Inr d \<Rightarrow> docs w' = set_document t body i now (docs w) \<and> d \<in> set (docs w') \<and> DocType d = t \<and> Content d = body
       | Inl _ \<Rightarrow> docs w' = docs w \<or> docs w' = set_document t body i now (docs w))"
    and GetDoc_up: "up w \<Longrightarrow> t \<in> DocType ` set (docs w) \<Longrightarrow>
      \<exists>d w'. run_state (repo_GetLegalDocument repo t) w = (Inr d, w') \<and> up w'"

lemma set_document_content: "d \<in> set (set_document t body i now ds) \<Longrightarrow> DocType d = t \<Longrightarrow> Content d = body"
proof -
  assume d: "d \<in> set (set_document t body i now ds)" and t: "DocType d = t"
  obtain x where "d = (if DocType x = t
      then x\<lparr>Content := body, legal_UpdatedAt := now, legal_UpdatedBy := Some i\<rparr> else x)"
    using d unfolding set_document_def set_map by blast
  then show "Content d = body" using t by (cases "DocType x = t") simp_all
qed

lemma update_legal_stmt_ok:
  assumes "update_legal_stmt t body i now w = Inr (d, w')"
  shows "legal_documents w' = set_document t body i now (legal_documents w) \<and> d \<in> set (legal_documents w') \<and>
    DocType d = t \<and> Content d = body"
proof (cases "filter (\<lambda>d. DocType d = t) (set_document t body i now (legal_documents w))")
  case Nil
  then show ?thesis using assms by (simp add: update_legal_stmt_def)
next
  case (Cons x ds)
  then have "x \<in> set (set_document t body i now (legal_documents w))" "DocType x = t"
    by (auto dest: filter_eq_ConsD)
  moreover have "d = x" "legal_documents w' = set_document t body i now (legal_documents w)"
    using assms Cons by (auto simp: update_legal_stmt_def split: if_splits)
  ultimately show ?thesis using set_document_content by auto
qed

lemma pg_UpdateLegalDocument_cases:
  assumes "run_state (pg_UpdateLegalDocument t body i now) w = (res, w')"
  shows "case res of
         Inr d \<Rightarrow> legal_documents w' = set_document t body i now (legal_documents w) \<and> d \<in> set (legal_documents w')
           \<and> DocType d = t \<and> Content d = body
       | Inl _ \<Rightarrow> legal_documents w' = legal_documents w \<or>
           legal_documents w' = set_document t body i now (legal_documents w)"
  using assms unfolding pg_UpdateLegalDocument_def
  by (auto split: prod.splits sum.splits if_splits elim!: pg_exec_cases dest!: update_legal_stmt_ok)

interpretation pglegal: legal_repository PostgresLegal legal_documents "\<lambda>w. db_faults w = []"
proof (unfold_locales, goal_cases)
  case (1 t w res w') then show ?case
    by (auto simp: PostgresLegal_def pg_GetLegalDocument_def filter_empty_conv elim!: find_row_cases
        dest: filter_eq_ConsD)
next
  case (2 d w res w') then show ?case
    unfolding PostgresLegal_def pg_SeedLegalDocumentIfMissing_def
    by (auto simp: seed_legal_stmt_def split: prod.splits sum.splits if_splits elim!: pg_exec_cases)
next
  case (3 t body i now w res w') then show ?case
    using pg_UpdateLegalDocument_cases [of t body i now w res w'] by (simp add: PostgresLegal_def)
next
  case (4 w t) then show ?case
    by (auto simp: PostgresLegal_def pg_GetLegalDocument_def find_row_up filter_empty_conv split: list.splits)
qed

context legal_repository
begin

text \<open>Seeding makes both documents exist and overwrites neither.\<close>

lemma SeedLegalDocuments_ok:
  assumes "run_state (SeedLegalDocuments repo now) w = (Inr (), w')"
  shows "LegalDocTerms \<in> DocType ` set (docs w') \<and> LegalDocPrivacy \<in> DocType ` set (docs w') \<and>
    set (docs w) \<subseteq> set (docs w')"
proof -
  obtain w1 where a: "run_state (SeedLegalDocumentIfMissing repo \<lparr>DocType = LegalDocTerms, Content = defaultTermsContent,
        legal_UpdatedAt = now, legal_UpdatedBy = None\<rparr>) w = (Inr (), w1)"
    and b: "run_state (SeedLegalDocumentIfMissing repo \<lparr>DocType = LegalDocPrivacy, Content = defaultPrivacyContent,
        legal_UpdatedAt = now, legal_UpdatedBy = None\<rparr>) w1 = (Inr (), w')"
    using assms by (auto simp: SeedLegalDocuments_def split: prod.splits sum.splits)
  show ?thesis using SeedDoc [OF a] SeedDoc [OF b] by (auto simp: image_iff)
qed

lemma SeedLegalDocuments_keeps:
  assumes "run_state (SeedLegalDocuments repo now) w = (res, w')"
  shows "set (docs w) \<subseteq> set (docs w')"
  using assms by (auto simp: SeedLegalDocuments_def split: prod.splits sum.splits dest!: SeedDoc)

end

end
