(* ===== verification/Nodes.thy ===== *)
theory Nodes
  imports Postgres Go_Crypto
begin

text \<open>
  The liveness of instances: the table \<^verbatim>\<open>node_status\<close> of \<^verbatim>\<open>postgres_repository_nodestatus.go\<close> and the
  reporter, the janitor and the node id of \<^verbatim>\<open>internal/nodestatus\<close>.
\<close>

record 'w NodeStatusRepository =
  Heartbeat :: "string \<Rightarrow> string \<Rightarrow> time \<Rightarrow> time \<Rightarrow> ('w, error, unit) io"
  MarkStaleOffline :: "time \<Rightarrow> time \<Rightarrow> ('w, error, string list) io"
  ListNodeStatus :: "('w, error, NodeStatus list) io"

definition heartbeat_row :: "string \<Rightarrow> string \<Rightarrow> time \<Rightarrow> NodeStatus \<Rightarrow> NodeStatus" where
  "heartbeat_row nodeID hostname now n = (if NodeID n = nodeID
     then n\<lparr>Hostname := hostname, Status := NodeStatusOnline, LastHeartbeatAt := now, MarkedOfflineAt := None\<rparr> else n)"

definition upsert_node :: "string \<Rightarrow> string \<Rightarrow> time \<Rightarrow> time \<Rightarrow> NodeStatus list \<Rightarrow> NodeStatus list" where
  "upsert_node nodeID hostname startedAt now ns =
    (if nodeID \<in> NodeID ` set ns then map (heartbeat_row nodeID hostname now) ns
     else ns @ [\<lparr>NodeID = nodeID, Hostname = hostname, Status = NodeStatusOnline, StartedAt = startedAt,
        LastHeartbeatAt = now, MarkedOfflineAt = None\<rparr>])"

definition pg_Heartbeat :: "string \<Rightarrow> string \<Rightarrow> time \<Rightarrow> time \<Rightarrow> ('a pg_scheme, error, unit) io" where
  "pg_Heartbeat nodeID hostname startedAt now =
    exec_update (\<lambda>w. w\<lparr>node_status := upsert_node nodeID hostname startedAt now (node_status w)\<rparr>) ''upsert node heartbeat''"

definition is_stale :: "time \<Rightarrow> NodeStatus \<Rightarrow> bool" where
  "is_stale cutoff n \<longleftrightarrow> Status n = NodeStatusOnline \<and> LastHeartbeatAt n \<le> cutoff"

definition mark_stale :: "time \<Rightarrow> time \<Rightarrow> NodeStatus list \<Rightarrow> NodeStatus list" where
  "mark_stale cutoff now = map (\<lambda>n. if is_stale cutoff n
     then n\<lparr>Status := NodeStatusOffline, MarkedOfflineAt := Some now\<rparr> else n)"

definition pg_MarkStaleOffline :: "time \<Rightarrow> time \<Rightarrow> ('a pg_scheme, error, string list) io" where
  "pg_MarkStaleOffline cutoff now =
    tryE (pg_exec (\<lambda>w. Inr (map NodeID (filter (is_stale cutoff) (node_status w)),
        w\<lparr>node_status := mark_stale cutoff now (node_status w)\<rparr>))) (Wrap ''mark stale nodes offline'') (\<lambda>ids.
    tryE (pg_query (\<lambda>_. ())) (Wrap ''iterate marked-offline node ids'') (\<lambda>_.
    State_Monad.return (Inr ids)))"

definition pg_ListNodeStatus :: "('a pg_scheme, error, NodeStatus list) io" where
  "pg_ListNodeStatus =
    list_rows (\<lambda>w. sort_key (\<lambda>n. - LastHeartbeatAt n) (node_status w)) ''query node status'' ''iterate node status rows''"

definition PostgresNodes :: "('a pg_scheme) NodeStatusRepository" where
  "PostgresNodes = \<lparr>Heartbeat = pg_Heartbeat, MarkStaleOffline = pg_MarkStaleOffline, ListNodeStatus = pg_ListNodeStatus\<rparr>"

section \<open>Reporter, janitor and node id\<close>

record 'w Reporter =
  rep_repository :: "'w NodeStatusRepository"
  rep_nodeID :: string
  rep_hostname :: string
  rep_interval :: duration
  rep_startedAt :: time

definition NewReporter :: "'w NodeStatusRepository \<Rightarrow> string \<Rightarrow> string \<Rightarrow> duration \<Rightarrow> time \<Rightarrow> 'w Reporter" where
  "NewReporter repo nodeID hostname interval now = \<lparr>rep_repository = repo, rep_nodeID = nodeID, rep_hostname = hostname,
     rep_interval = interval, rep_startedAt = now\<rparr>"

definition Reporter_beat :: "'w Reporter \<Rightarrow> time \<Rightarrow> ('w, unit) state" where
  "Reporter_beat r now = do {
     _ \<leftarrow> Heartbeat (rep_repository r) (rep_nodeID r) (rep_hostname r) (rep_startedAt r) now;
     State_Monad.return ()
   }"

record 'w Janitor =
  jan_repository :: "'w NodeStatusRepository"
  jan_interval :: duration
  jan_staleAfter :: duration

definition NewJanitor :: "'w NodeStatusRepository \<Rightarrow> duration \<Rightarrow> duration \<Rightarrow> 'w Janitor" where
  "NewJanitor repo interval staleAfter = \<lparr>jan_repository = repo, jan_interval = interval, jan_staleAfter = staleAfter\<rparr>"

definition Janitor_sweepOnce :: "'w Janitor \<Rightarrow> time \<Rightarrow> ('w, string list) state" where
  "Janitor_sweepOnce j now = do {
     marked \<leftarrow> MarkStaleOffline (jan_repository j) (now - jan_staleAfter j) now;
     State_Monad.return (case marked of Inl _ \<Rightarrow> [] | Inr ids \<Rightarrow> ids)
   }"

text \<open>\<^verbatim>\<open>Run\<close> of both: once at the start, then at every tick.\<close>

fun Reporter_ticks :: "'w Reporter \<Rightarrow> time list \<Rightarrow> ('w, unit) state" where
  "Reporter_ticks r [] = State_Monad.return ()"
| "Reporter_ticks r (now # ticks) = do { _ \<leftarrow> Reporter_beat r now; Reporter_ticks r ticks }"

definition Reporter_Run :: "'w Reporter \<Rightarrow> time \<Rightarrow> time list \<Rightarrow> ('w, unit) state" where
  "Reporter_Run r started ticks = do { _ \<leftarrow> Reporter_beat r started; Reporter_ticks r ticks }"

fun Janitor_ticks :: "'w Janitor \<Rightarrow> time list \<Rightarrow> ('w, unit) state" where
  "Janitor_ticks j [] = State_Monad.return ()"
| "Janitor_ticks j (now # ticks) = do { _ \<leftarrow> Janitor_sweepOnce j now; Janitor_ticks j ticks }"

definition Janitor_Run :: "'w Janitor \<Rightarrow> time \<Rightarrow> time list \<Rightarrow> ('w, unit) state" where
  "Janitor_Run j started ticks = do { _ \<leftarrow> Janitor_sweepOnce j started; Janitor_ticks j ticks }"

definition randomHex :: "error + bytes \<Rightarrow> error + string" where
  "randomHex rand = (case rand of Inl err \<Rightarrow> Inl err | Inr buf \<Rightarrow> Inr (EncodeToString buf))"

definition ResolveNodeID :: "error + bytes \<Rightarrow> string \<Rightarrow> string \<Rightarrow> error + string" where
  "ResolveNodeID rand configured hostname =
    (if configured \<noteq> [] then Inr configured
     else case randomHex rand of
         Inl err \<Rightarrow> Inl (Wrap ''generate random node id suffix'' err)
       | Inr suffix \<Rightarrow> Inr ((if hostname = [] then ''node'' else hostname) @ ''-'' @ suffix))"

section \<open>The contract\<close>

locale node_repository =
  fixes repo :: "'w NodeStatusRepository"
    and nodes :: "'w \<Rightarrow> NodeStatus list"
    and up :: "'w \<Rightarrow> bool"
  assumes Beat: "run_state (Heartbeat repo i h st now) w = (done', w') \<Longrightarrow>
      (case done' of Inr _ \<Rightarrow> nodes w' = upsert_node i h st now (nodes w)
       | Inl _ \<Rightarrow> nodes w' = nodes w \<or> nodes w' = upsert_node i h st now (nodes w))"
    and Mark: "run_state (MarkStaleOffline repo cutoff now) w = (marked, w') \<Longrightarrow>
      (case marked of Inr ids \<Rightarrow> ids = map NodeID (filter (is_stale cutoff) (nodes w)) \<and> nodes w' = mark_stale cutoff now (nodes w)
       | Inl _ \<Rightarrow> nodes w' = nodes w \<or> nodes w' = mark_stale cutoff now (nodes w))"
    and Beat_up: "up w \<Longrightarrow> \<exists>w'. run_state (Heartbeat repo i h st now) w = (Inr (), w') \<and> up w'"
    and Mark_up: "up w \<Longrightarrow> \<exists>ids w'. run_state (MarkStaleOffline repo cutoff now) w = (Inr ids, w') \<and> up w'"

interpretation pgnodes: node_repository PostgresNodes node_status "\<lambda>w. db_faults w = []"
proof (unfold_locales, goal_cases)
  case (1 i h st now w res w') then show ?case
    by (auto simp: PostgresNodes_def pg_Heartbeat_def elim!: exec_update_cases)
next
  case (2 cutoff now w res w') then show ?case
    unfolding PostgresNodes_def pg_MarkStaleOffline_def
    by (auto split: prod.splits sum.splits elim!: pg_exec_cases dest!: pg_query_world)
next
  case (3 w i h st now) then show ?case by (simp add: PostgresNodes_def pg_Heartbeat_def)
next
  case (4 w cutoff now) then show ?case by (simp add: PostgresNodes_def pg_MarkStaleOffline_def run_pg_exec_ok)
qed

lemma upsert_node_ids:
  "distinct (map NodeID ns) \<Longrightarrow> distinct (map NodeID (upsert_node i h st now ns))"
proof -
  have "map NodeID (map (heartbeat_row i h now) ns) = map NodeID ns"
    by (induction ns) (auto simp: heartbeat_row_def)
  then show "distinct (map NodeID ns) \<Longrightarrow> distinct (map NodeID (upsert_node i h st now ns))"
    by (auto simp: upsert_node_def simp del: map_map)
qed

lemma upsert_node_online:
  "\<exists>n \<in> set (upsert_node i h st now ns). NodeID n = i \<and> Status n = NodeStatusOnline \<and> LastHeartbeatAt n = now"
proof (cases "i \<in> NodeID ` set ns")
  case True
  then obtain n where "n \<in> set ns" "NodeID n = i" by auto
  then show ?thesis using True
    by (intro bexI [of _ "heartbeat_row i h now n"]) (auto simp: upsert_node_def heartbeat_row_def)
qed (simp add: upsert_node_def)

lemma upsert_node_others:
  "n \<in> set ns \<Longrightarrow> NodeID n \<noteq> i \<Longrightarrow> n \<in> set (upsert_node i h st now ns)"
  by (force simp: upsert_node_def heartbeat_row_def)

end
