(* ===== verification/Schema.thy ===== *)
theory Schema
  imports Repo_Files Admin_Auth Admin_Keys Repo_Settings Legal Nodes
begin

text \<open>
  The constraints of \<^verbatim>\<open>postgres_migrations\<close> as an invariant of the tables, and the relation \<open>db_call\<close>: one
  call of any repository method, by whatever instance, with whatever outcome.
\<close>

section \<open>Keeping a property\<close>

definition keeps :: "('w \<Rightarrow> bool) \<Rightarrow> ('w, 'r) state \<Rightarrow> bool" where
  "keeps P m \<longleftrightarrow> (\<forall>w r w'. run_state m w = (r, w') \<longrightarrow> P w \<longrightarrow> P w')"

named_theorems keep

lemma keepsD: "keeps P m \<Longrightarrow> run_state m w = (r, w') \<Longrightarrow> P w \<Longrightarrow> P w'"
  by (auto simp: keeps_def)

lemma keeps_return [keep]: "keeps P (State_Monad.return x)"
  by (simp add: keeps_def)

lemma keeps_gets [keep]: "keeps P (gets f)"
  by (simp add: keeps_def)

lemma keeps_modify: "(\<And>w. P w \<Longrightarrow> P (f w)) \<Longrightarrow> keeps P (modify f)"
  by (simp add: keeps_def)

lemma keeps_bind [keep]:
  "keeps P m \<Longrightarrow> (\<And>x. keeps P (k x)) \<Longrightarrow> keeps P (State_Monad.bind m k)"
  unfolding keeps_def by (auto split: prod.splits)

lemma keeps_tryE [keep]:
  "keeps P m \<Longrightarrow> (\<And>x. keeps P (k x)) \<Longrightarrow> keeps P (tryE m h k)"
  unfolding tryE_def by (rule keeps_bind) (auto split: sum.split simp: keep)

lemma keeps_prod [keep]: "(\<And>a b. x = (a, b) \<Longrightarrow> keeps P (f a b)) \<Longrightarrow> keeps P (case x of (a, b) \<Rightarrow> f a b)"
  by (cases x) simp

lemma keeps_pg_exec [keep]:
  assumes "\<And>w x w'. P w \<Longrightarrow> stmt w = Inr (x, w') \<Longrightarrow> P w'" and "\<And>w fs. P (w\<lparr>db_faults := fs\<rparr>) = P w"
  shows "keeps P (pg_exec stmt)"
  unfolding keeps_def
proof (intro allI impI)
  fix w r w'
  assume run: "run_state (pg_exec stmt) w = (r, w')" and P: "P w"
  have P0: "P (popped w)" using P assms(2) by simp
  from run show "P w'"
    by (rule pg_exec_cases) (use P0 assms(1) in auto)
qed

lemma keeps_pg_query [keep]: "(\<And>w fs. P (w\<lparr>db_faults := fs\<rparr>) = P w) \<Longrightarrow> keeps P (pg_query q)"
  unfolding pg_query_def by (rule keeps_pg_exec) auto

lemma keeps_exec_update [keep]:
  "(\<And>w. P w \<Longrightarrow> P (f w)) \<Longrightarrow> (\<And>w fs. P (w\<lparr>db_faults := fs\<rparr>) = P w) \<Longrightarrow> keeps P (exec_update f msg)"
  unfolding exec_update_def by (intro keep) auto

lemma keeps_pg_query_row [keep]: "(\<And>w fs. P (w\<lparr>db_faults := fs\<rparr>) = P w) \<Longrightarrow> keeps P (pg_query_row q)"
  unfolding pg_query_row_def by (rule keeps_pg_exec) (auto split: list.splits)

lemma keeps_find_row [keep]: "(\<And>w fs. P (w\<lparr>db_faults := fs\<rparr>) = P w) \<Longrightarrow> keeps P (find_row q nf msg)"
  unfolding find_row_def by (intro keep)

lemma keeps_list_rows [keep]: "(\<And>w fs. P (w\<lparr>db_faults := fs\<rparr>) = P w) \<Longrightarrow> keeps P (list_rows q msg msg')"
  unfolding list_rows_def by (intro keep)

section \<open>The constraints\<close>

definition accounts_ok :: "'a pg_scheme \<Rightarrow> bool" where
  "accounts_ok w \<longleftrightarrow> distinct (map admin_ID (admins w)) \<and> distinct (map Username (admins w)) \<and>
     distinct (map session_TokenHash (admin_sessions w)) \<and> AdminID ` set (admin_sessions w) \<subseteq> admin_ID ` set (admins w)"

definition keys_ok :: "'a pg_scheme \<Rightarrow> bool" where
  "keys_ok w \<longleftrightarrow> distinct (map key_ID (api_keys w)) \<and> distinct (map key_TokenHash (api_keys w))"

definition updater_ok :: "'a pg_scheme \<Rightarrow> string option \<Rightarrow> bool" where
  "updater_ok w updatedBy \<longleftrightarrow> set_option updatedBy \<subseteq> admin_ID ` set (admins w)"

definition documents_ok :: "'a pg_scheme \<Rightarrow> bool" where
  "documents_ok w \<longleftrightarrow> distinct (map DocType (legal_documents w)) \<and>
     DocType ` set (legal_documents w) \<subseteq> {LegalDocTerms, LegalDocPrivacy} \<and>
     (\<forall>d \<in> set (legal_documents w). updater_ok w (legal_UpdatedBy d))"

definition schema_ok :: "'a pg_scheme \<Rightarrow> bool" where
  "schema_ok w \<longleftrightarrow> distinct (map file_ID (files w)) \<and> accounts_ok w \<and> keys_ok w \<and>
     (\<forall>s. upload_settings w = Some s \<longrightarrow> updater_ok w (settings_UpdatedBy s)) \<and> documents_ok w \<and>
     distinct (map NodeID (node_status w))"

lemma schema_faults [simp]: "schema_ok (w\<lparr>db_faults := fs\<rparr>) = schema_ok w"
  by (simp add: schema_ok_def accounts_ok_def keys_ok_def updater_ok_def documents_ok_def)

lemma schema_locks [simp]: "schema_ok (w\<lparr>file_locks := l\<rparr>) = schema_ok w"
  by (simp add: schema_ok_def accounts_ok_def keys_ok_def updater_ok_def documents_ok_def)

lemmas constraint_defs = schema_ok_def accounts_ok_def keys_ok_def updater_ok_def documents_ok_def

lemma updater_None [simp]: "updater_ok w None"
  by (simp add: updater_ok_def)

lemma schema_D:
  "schema_ok w \<Longrightarrow> distinct (map file_ID (files w))"
  "schema_ok w \<Longrightarrow> distinct (map admin_ID (admins w))"
  "schema_ok w \<Longrightarrow> distinct (map Username (admins w))"
  "schema_ok w \<Longrightarrow> distinct (map session_TokenHash (admin_sessions w))"
  "schema_ok w \<Longrightarrow> distinct (map key_ID (api_keys w))"
  "schema_ok w \<Longrightarrow> distinct (map key_TokenHash (api_keys w))"
  "schema_ok w \<Longrightarrow> distinct (map DocType (legal_documents w))"
  "schema_ok w \<Longrightarrow> distinct (map NodeID (node_status w))"
  by (simp_all add: constraint_defs)

lemma schema_session_admin:
  "schema_ok w \<Longrightarrow> s \<in> set (admin_sessions w) \<Longrightarrow> AdminID s \<in> admin_ID ` set (admins w)"
  unfolding schema_ok_def accounts_ok_def by blast

lemma schema_document:
  "schema_ok w \<Longrightarrow> d \<in> set (legal_documents w) \<Longrightarrow> DocType d \<in> {LegalDocTerms, LegalDocPrivacy} \<and> updater_ok w (legal_UpdatedBy d)"
  unfolding schema_ok_def documents_ok_def by blast

text \<open>Tables that change: what a statement has to show.\<close>

lemma schema_files: "schema_ok w \<Longrightarrow> distinct (map file_ID rs) \<Longrightarrow> schema_ok (w\<lparr>files := rs\<rparr>)"
  by (simp add: constraint_defs)

lemma schema_admins:
  assumes "schema_ok w" and "distinct (map admin_ID as)" and "distinct (map Username as)"
    and "admin_ID ` set (admins w) \<subseteq> admin_ID ` set as"
  shows "schema_ok (w\<lparr>admins := as\<rparr>)"
proof -
  have more: "updater_ok w u \<Longrightarrow> updater_ok (w\<lparr>admins := as\<rparr>) u" for u
    unfolding updater_ok_def by (cases u) (use assms(4) in auto)
  have "accounts_ok (w\<lparr>admins := as\<rparr>)"
  proof -
    have "AdminID ` set (admin_sessions w) \<subseteq> admin_ID ` set as"
      using assms(1,4) unfolding schema_ok_def accounts_ok_def by (blast intro: order_trans)
    then show ?thesis using assms by (simp add: schema_ok_def accounts_ok_def)
  qed
  moreover have "documents_ok (w\<lparr>admins := as\<rparr>)"
    using assms(1) more by (simp add: schema_ok_def documents_ok_def)
  ultimately show ?thesis using assms(1) more by (simp add: schema_ok_def keys_ok_def)
qed

lemma schema_sessions:
  "schema_ok w \<Longrightarrow> distinct (map session_TokenHash ss) \<Longrightarrow>
    (\<And>s. s \<in> set ss \<Longrightarrow> AdminID s \<in> admin_ID ` set (admins w)) \<Longrightarrow> schema_ok (w\<lparr>admin_sessions := ss\<rparr>)"
  unfolding constraint_defs by (simp, blast)

lemma schema_keys:
  "schema_ok w \<Longrightarrow> distinct (map key_ID ks) \<Longrightarrow> distinct (map key_TokenHash ks) \<Longrightarrow> schema_ok (w\<lparr>api_keys := ks\<rparr>)"
  by (simp add: constraint_defs)

lemma schema_settings:
  "schema_ok w \<Longrightarrow> updater_ok w (settings_UpdatedBy s) \<Longrightarrow> schema_ok (w\<lparr>upload_settings := Some s\<rparr>)"
  by (simp add: constraint_defs)

lemma schema_documents:
  "schema_ok w \<Longrightarrow> distinct (map DocType ds) \<Longrightarrow>
    (\<And>d. d \<in> set ds \<Longrightarrow> DocType d \<in> {LegalDocTerms, LegalDocPrivacy} \<and> updater_ok w (legal_UpdatedBy d)) \<Longrightarrow>
    schema_ok (w\<lparr>legal_documents := ds\<rparr>)"
  unfolding constraint_defs by (simp, blast)

lemma schema_nodes:
  "schema_ok w \<Longrightarrow> distinct (map NodeID ns) \<Longrightarrow> schema_ok (w\<lparr>node_status := ns\<rparr>)"
  by (simp add: constraint_defs)

section \<open>Every method keeps them\<close>

lemma schema_insert_file: "schema_ok w \<Longrightarrow> insert_file_stmt r w = Inr (x, w') \<Longrightarrow> schema_ok w'"
  by (auto simp: insert_file_stmt_def schema_D intro!: schema_files split: if_splits)

lemma schema_delete_file: "schema_ok w \<Longrightarrow> delete_file_stmt i w = Inr (x, w') \<Longrightarrow> schema_ok w'"
  by (auto simp: delete_file_stmt_def schema_D delete_rows_def intro!: schema_files)

lemma keeps_files:
  "keeps schema_ok (pg_Insert r)" "keeps schema_ok (pg_FindActiveByChecksum c now)" "keeps schema_ok (pg_FindByID i)"
  "keeps schema_ok (pg_DeleteByID i)" "keeps schema_ok (pg_FindExpired now n)" "keeps schema_ok (pg_Stats now)"
proof -
  show "keeps schema_ok (pg_Insert r)" unfolding pg_Insert_def
    by (intro keep) (auto dest: schema_insert_file)
  show "keeps schema_ok (pg_FindActiveByChecksum c now)" "keeps schema_ok (pg_FindByID i)"
    unfolding pg_FindActiveByChecksum_def pg_FindByID_def pgScanFileRecord_def by (intro keep; simp)+
  show "keeps schema_ok (pg_DeleteByID i)" unfolding pg_DeleteByID_def
    by (intro keep) (auto dest: schema_delete_file)
  show "keeps schema_ok (pg_FindExpired now n)" unfolding pg_FindExpired_def find_expired_tx_def
    by (intro keep keeps_modify) (auto simp: select_expired_stmt_def Let_def split: if_splits)
  show "keeps schema_ok (pg_Stats now)" unfolding pg_Stats_def
    by (intro keep) (auto simp: summary_stmt_def Let_def split: if_splits)
qed

text \<open>The uniqueness and reference checks of each insertion and update are what the constraint needs.\<close>

lemma schema_insert_admin: "schema_ok w \<Longrightarrow> insert_admin_stmt a w = Inr (x, w') \<Longrightarrow> schema_ok w'"
  by (auto simp: insert_admin_stmt_def schema_D intro!: schema_admins split: if_splits)

lemma schema_insert_session: "schema_ok w \<Longrightarrow> insert_session_stmt s w = Inr (x, w') \<Longrightarrow> schema_ok w'"
  by (auto simp: insert_session_stmt_def schema_D schema_session_admin intro!: schema_sessions split: if_splits)

lemma schema_insert_key: "schema_ok w \<Longrightarrow> insert_key_stmt k w = Inr (x, w') \<Longrightarrow> schema_ok w'"
  by (auto simp: insert_key_stmt_def schema_D intro!: schema_keys split: if_splits)

lemma schema_update_settings: "schema_ok w \<Longrightarrow> update_settings_stmt s i now w = Inr (x, w') \<Longrightarrow> schema_ok w'"
  by (auto simp: update_settings_stmt_def updater_ok_def intro!: schema_settings split: if_splits option.splits)

lemma schema_seed_legal: "schema_ok w \<Longrightarrow> seed_legal_stmt d w = Inr (x, w') \<Longrightarrow> schema_ok w'"
  by (auto simp: seed_legal_stmt_def schema_D intro!: schema_documents split: if_splits dest: schema_document)

lemma schema_set_document:
  assumes "schema_ok w" and "i \<in> admin_ID ` set (admins w)"
  shows "schema_ok (w\<lparr>legal_documents := set_document t body i now (legal_documents w)\<rparr>)"
proof (rule schema_documents [OF assms(1)])
  have types: "map DocType (set_document t body i now ds) = map DocType ds" for ds
    by (induction ds) (simp_all add: set_document_def)
  show "distinct (map DocType (set_document t body i now (legal_documents w)))"
    using schema_D(7) [OF assms(1)] by (simp only: types)
  fix d
  assume "d \<in> set (set_document t body i now (legal_documents w))"
  then obtain x where x: "x \<in> set (legal_documents w)"
    and d: "d = (if DocType x = t then x\<lparr>Content := body, legal_UpdatedAt := now, legal_UpdatedBy := Some i\<rparr> else x)"
    unfolding set_document_def set_map by blast
  show "DocType d \<in> {LegalDocTerms, LegalDocPrivacy} \<and> updater_ok w (legal_UpdatedBy d)"
    using schema_document [OF assms(1) x] assms(2) d by (cases "DocType x = t") (simp_all add: updater_ok_def)
qed

lemma schema_update_legal: "schema_ok w \<Longrightarrow> update_legal_stmt t body i now w = Inr (x, w') \<Longrightarrow> schema_ok w'"
  by (auto simp: update_legal_stmt_def Let_def schema_set_document split: list.splits if_splits)

lemma keeps_admins:
  "keeps schema_ok (pg_InsertAdmin a)" "keeps schema_ok (pg_FindAdminByUsername u)" "keeps schema_ok (pg_FindAdminByID i)"
  "keeps schema_ok pg_CountAdmins" "keeps schema_ok (pg_TouchAdminLastLogin i now)"
proof -
  show "keeps schema_ok (pg_InsertAdmin a)" unfolding pg_InsertAdmin_def
    by (intro keep) (auto dest: schema_insert_admin)
  show "keeps schema_ok (pg_FindAdminByUsername u)" "keeps schema_ok (pg_FindAdminByID i)" "keeps schema_ok pg_CountAdmins"
    unfolding pg_FindAdminByUsername_def pg_FindAdminByID_def pg_CountAdmins_def by (intro keep; simp)+
  show "keeps schema_ok (pg_TouchAdminLastLogin i now)" unfolding pg_TouchAdminLastLogin_def
    by (intro keep) (auto simp: schema_D intro!: schema_admins)
qed

lemma keeps_sessions:
  "keeps schema_ok (pg_InsertAdminSession s)" "keeps schema_ok (pg_FindAdminSessionByTokenHash h)"
  "keeps schema_ok (pg_TouchAdminSession h now)" "keeps schema_ok (pg_DeleteAdminSession h)"
  "keeps schema_ok (pg_DeleteExpiredAdminSessions now)"
proof -
  show "keeps schema_ok (pg_InsertAdminSession s)" unfolding pg_InsertAdminSession_def
    by (intro keep) (auto dest: schema_insert_session)
  show "keeps schema_ok (pg_FindAdminSessionByTokenHash h)"
    unfolding pg_FindAdminSessionByTokenHash_def by (intro keep; simp)
  show "keeps schema_ok (pg_TouchAdminSession h now)" unfolding pg_TouchAdminSession_def
    by (intro keep) (auto simp: schema_D set_touch_session schema_session_admin intro!: schema_sessions)
  show "keeps schema_ok (pg_DeleteAdminSession h)" unfolding pg_DeleteAdminSession_def
    by (intro keep) (auto simp: schema_D schema_session_admin intro!: schema_sessions)
  show "keeps schema_ok (pg_DeleteExpiredAdminSessions now)" unfolding pg_DeleteExpiredAdminSessions_def
    by (intro keep) (auto simp: schema_D schema_session_admin intro!: schema_sessions)
qed

lemma keeps_keys:
  "keeps schema_ok (pg_InsertAPIKey k)" "keeps schema_ok (pg_FindAPIKeyByTokenHash h)" "keeps schema_ok pg_ListAPIKeys"
  "keeps schema_ok (pg_TouchAPIKey i now)" "keeps schema_ok (pg_RevokeAPIKey i now)"
proof -
  show "keeps schema_ok (pg_InsertAPIKey k)" unfolding pg_InsertAPIKey_def
    by (intro keep) (auto dest: schema_insert_key)
  show "keeps schema_ok (pg_FindAPIKeyByTokenHash h)" "keeps schema_ok pg_ListAPIKeys"
    unfolding pg_FindAPIKeyByTokenHash_def pg_ListAPIKeys_def by (intro keep; simp)+
  show "keeps schema_ok (pg_TouchAPIKey i now)" "keeps schema_ok (pg_RevokeAPIKey i now)"
    unfolding pg_TouchAPIKey_def pg_RevokeAPIKey_def by (intro keep; auto simp: schema_D intro!: schema_keys)+
qed

lemma keeps_settings:
  "keeps schema_ok pg_GetUploadSettings" "keeps schema_ok (pg_SeedUploadSettingsIfMissing s)"
  "keeps schema_ok (pg_UpdateUploadSettings s i now)"
proof -
  show "keeps schema_ok pg_GetUploadSettings" unfolding pg_GetUploadSettings_def by (intro keep; simp)
  show "keeps schema_ok (pg_SeedUploadSettingsIfMissing s)" unfolding pg_SeedUploadSettingsIfMissing_def
    by (intro keep) (auto intro!: schema_settings split: option.splits)
  show "keeps schema_ok (pg_UpdateUploadSettings s i now)" unfolding pg_UpdateUploadSettings_def
    by (intro keep) (auto dest: schema_update_settings)
qed

lemma keeps_legal:
  "keeps schema_ok (pg_GetLegalDocument t)" "keeps schema_ok (pg_SeedLegalDocumentIfMissing d)"
  "keeps schema_ok (pg_UpdateLegalDocument t body i now)"
proof -
  show "keeps schema_ok (pg_GetLegalDocument t)" unfolding pg_GetLegalDocument_def by (intro keep; simp)
  show "keeps schema_ok (pg_SeedLegalDocumentIfMissing d)" unfolding pg_SeedLegalDocumentIfMissing_def
    by (intro keep) (auto dest: schema_seed_legal)
  show "keeps schema_ok (pg_UpdateLegalDocument t body i now)" unfolding pg_UpdateLegalDocument_def
    by (intro keep) (auto dest: schema_update_legal)
qed

lemma mark_stale_ids [simp]: "map NodeID (mark_stale cutoff now ns) = map NodeID ns"
  by (induction ns) (simp_all add: mark_stale_def)

lemma keeps_nodes:
  "keeps schema_ok (pg_Heartbeat i h st now)" "keeps schema_ok (pg_MarkStaleOffline cutoff now)" "keeps schema_ok pg_ListNodeStatus"
proof -
  show "keeps schema_ok (pg_Heartbeat i h st now)" unfolding pg_Heartbeat_def
    by (intro keep) (auto simp: schema_D upsert_node_ids intro!: schema_nodes)
  show "keeps schema_ok (pg_MarkStaleOffline cutoff now)" unfolding pg_MarkStaleOffline_def
    by (intro keep) (auto simp: schema_D intro!: schema_nodes)
  show "keeps schema_ok pg_ListNodeStatus" unfolding pg_ListNodeStatus_def by (intro keep; simp)
qed

section \<open>Any call\<close>

inductive db_call :: "'a pg_scheme \<Rightarrow> 'a pg_scheme \<Rightarrow> bool" where
  "run_state (pg_Insert r) w = (x1, w') \<Longrightarrow> db_call w w'"
| "run_state (pg_FindActiveByChecksum c now) w = (x2, w') \<Longrightarrow> db_call w w'"
| "run_state (pg_FindByID i) w = (x2, w') \<Longrightarrow> db_call w w'"
| "run_state (pg_DeleteByID i) w = (x1, w') \<Longrightarrow> db_call w w'"
| "run_state (pg_FindExpired now n) w = (x3, w') \<Longrightarrow> db_call w w'"
| "run_state (pg_Stats now) w = (x4, w') \<Longrightarrow> db_call w w'"
| "run_state (pg_InsertAdmin a) w = (x1, w') \<Longrightarrow> db_call w w'"
| "run_state (pg_FindAdminByUsername u) w = (x5, w') \<Longrightarrow> db_call w w'"
| "run_state (pg_FindAdminByID i) w = (x5, w') \<Longrightarrow> db_call w w'"
| "run_state pg_CountAdmins w = (x6, w') \<Longrightarrow> db_call w w'"
| "run_state (pg_TouchAdminLastLogin i now) w = (x1, w') \<Longrightarrow> db_call w w'"
| "run_state (pg_InsertAdminSession s) w = (x1, w') \<Longrightarrow> db_call w w'"
| "run_state (pg_FindAdminSessionByTokenHash h) w = (x7, w') \<Longrightarrow> db_call w w'"
| "run_state (pg_TouchAdminSession h now) w = (x1, w') \<Longrightarrow> db_call w w'"
| "run_state (pg_DeleteAdminSession h) w = (x1, w') \<Longrightarrow> db_call w w'"
| "run_state (pg_DeleteExpiredAdminSessions now) w = (x1, w') \<Longrightarrow> db_call w w'"
| "run_state (pg_InsertAPIKey k) w = (x1, w') \<Longrightarrow> db_call w w'"
| "run_state (pg_FindAPIKeyByTokenHash h) w = (x8, w') \<Longrightarrow> db_call w w'"
| "run_state pg_ListAPIKeys w = (x9, w') \<Longrightarrow> db_call w w'"
| "run_state (pg_TouchAPIKey i now) w = (x1, w') \<Longrightarrow> db_call w w'"
| "run_state (pg_RevokeAPIKey i now) w = (x1, w') \<Longrightarrow> db_call w w'"
| "run_state pg_GetUploadSettings w = (x10, w') \<Longrightarrow> db_call w w'"
| "run_state (pg_SeedUploadSettingsIfMissing st) w = (x1, w') \<Longrightarrow> db_call w w'"
| "run_state (pg_UpdateUploadSettings st i now) w = (x1, w') \<Longrightarrow> db_call w w'"
| "run_state (pg_GetLegalDocument t) w = (x11, w') \<Longrightarrow> db_call w w'"
| "run_state (pg_SeedLegalDocumentIfMissing d) w = (x1, w') \<Longrightarrow> db_call w w'"
| "run_state (pg_UpdateLegalDocument t b i now) w = (x11, w') \<Longrightarrow> db_call w w'"
| "run_state (pg_Heartbeat i h started now) w = (x1, w') \<Longrightarrow> db_call w w'"
| "run_state (pg_MarkStaleOffline cutoff now) w = (x12, w') \<Longrightarrow> db_call w w'"
| "run_state pg_ListNodeStatus w = (x13, w') \<Longrightarrow> db_call w w'"

lemmas schema_kept = keeps_files keeps_admins keeps_sessions keeps_keys keeps_settings keeps_legal keeps_nodes

lemma db_call_schema: "db_call w w' \<Longrightarrow> schema_ok w \<Longrightarrow> schema_ok w'"
  by (induction rule: db_call.induct) (erule schema_kept [THEN keepsD]; assumption)+

lemma db_calls_schema: "db_call\<^sup>*\<^sup>* w w' \<Longrightarrow> schema_ok w \<Longrightarrow> schema_ok w'"
  by (induction rule: rtranclp_induct) (auto dest: db_call_schema)

section \<open>Revocations stay\<close>

lemma revocations_more:
  "revocations_kept ks ks' \<Longrightarrow> revocations_kept ks (ks' @ [k])"
  "revocations_kept ks ks' \<Longrightarrow> revocations_kept ks (touch_key i now ks')"
  "revocations_kept ks ks' \<Longrightarrow> revocations_kept ks (revoke_key i now ks')"
  by (blast intro: revocations_kept_trans revocations_kept_append revocations_kept_touch revocations_kept_revoke)+

abbreviation since :: "APIKey list \<Rightarrow> 'a pg_scheme \<Rightarrow> bool" where
  "since ks \<equiv> (\<lambda>w. revocations_kept ks (api_keys w))"

lemmas statements = insert_file_stmt_def delete_file_stmt_def select_expired_stmt_def summary_stmt_def
  insert_admin_stmt_def insert_session_stmt_def insert_key_stmt_def update_settings_stmt_def seed_legal_stmt_def
  update_legal_stmt_def Let_def

lemma since_files:
  "keeps (since ks) (pg_Insert r)" "keeps (since ks) (pg_FindActiveByChecksum c now)" "keeps (since ks) (pg_FindByID i)"
  "keeps (since ks) (pg_DeleteByID i)" "keeps (since ks) (pg_FindExpired now n)" "keeps (since ks) (pg_Stats now)"
  unfolding pg_Insert_def pg_FindActiveByChecksum_def pg_FindByID_def pgScanFileRecord_def pg_DeleteByID_def
    pg_FindExpired_def find_expired_tx_def pg_Stats_def
  by (intro keep keeps_modify; auto simp: statements split: if_splits)+

lemma since_admins:
  "keeps (since ks) (pg_InsertAdmin a)" "keeps (since ks) (pg_FindAdminByUsername u)" "keeps (since ks) (pg_FindAdminByID i)"
  "keeps (since ks) pg_CountAdmins" "keeps (since ks) (pg_TouchAdminLastLogin i now)"
  "keeps (since ks) (pg_InsertAdminSession s)" "keeps (since ks) (pg_FindAdminSessionByTokenHash h)"
  "keeps (since ks) (pg_TouchAdminSession h now)" "keeps (since ks) (pg_DeleteAdminSession h)"
  "keeps (since ks) (pg_DeleteExpiredAdminSessions now)"
  unfolding pg_InsertAdmin_def pg_FindAdminByUsername_def pg_FindAdminByID_def pg_CountAdmins_def
    pg_TouchAdminLastLogin_def pg_InsertAdminSession_def pg_FindAdminSessionByTokenHash_def pg_TouchAdminSession_def
    pg_DeleteAdminSession_def pg_DeleteExpiredAdminSessions_def
  by (intro keep; auto simp: statements split: if_splits)+

lemma since_keys:
  "keeps (since ks) (pg_InsertAPIKey k)" "keeps (since ks) (pg_FindAPIKeyByTokenHash h)" "keeps (since ks) pg_ListAPIKeys"
  "keeps (since ks) (pg_TouchAPIKey i now)" "keeps (since ks) (pg_RevokeAPIKey i now)"
  unfolding pg_InsertAPIKey_def pg_FindAPIKeyByTokenHash_def pg_ListAPIKeys_def pg_TouchAPIKey_def pg_RevokeAPIKey_def
  by (intro keep; auto simp: statements revocations_more split: if_splits)+

lemma since_settings:
  "keeps (since ks) pg_GetUploadSettings" "keeps (since ks) (pg_SeedUploadSettingsIfMissing s)"
  "keeps (since ks) (pg_UpdateUploadSettings s i now)"
  unfolding pg_GetUploadSettings_def pg_SeedUploadSettingsIfMissing_def pg_UpdateUploadSettings_def
  by (intro keep; auto simp: statements split: if_splits option.splits)+

lemma since_legal:
  "keeps (since ks) (pg_GetLegalDocument t)" "keeps (since ks) (pg_SeedLegalDocumentIfMissing d)"
  "keeps (since ks) (pg_UpdateLegalDocument t b i now)"
  unfolding pg_GetLegalDocument_def pg_SeedLegalDocumentIfMissing_def pg_UpdateLegalDocument_def
  by (intro keep; auto simp: statements split: if_splits list.splits)+

lemma since_nodes:
  "keeps (since ks) (pg_Heartbeat i h st now)" "keeps (since ks) (pg_MarkStaleOffline cutoff now)" "keeps (since ks) pg_ListNodeStatus"
  unfolding pg_Heartbeat_def pg_MarkStaleOffline_def pg_ListNodeStatus_def
  by (intro keep; auto)+

lemmas since_kept = since_files since_admins since_keys since_settings since_legal since_nodes

lemma db_calls_revocations: "db_call\<^sup>*\<^sup>* w w' \<Longrightarrow> revocations_kept (api_keys w) (api_keys w')"
proof (induction rule: rtranclp_induct)
  case (step w' w'')
  from step.hyps(2) have "since (api_keys w) w' \<Longrightarrow> since (api_keys w) w''"
    by (induction rule: db_call.induct) (erule since_kept [THEN keepsD]; assumption)+
  then show ?case using step.IH by simp
qed simp

lemma revoked_entry:
  assumes "revocations_kept ks ks'" and "k \<in> set ks" and "RevokedAt k \<noteq> None"
    and "distinct (map key_TokenHash ks')" and "k' \<in> set ks'" and "key_TokenHash k' = key_TokenHash k"
  shows "RevokedAt k' = RevokedAt k"
proof -
  obtain n where n: "n < length ks" "ks ! n = k" using assms(2) by (auto simp: in_set_conv_nth)
  then have "n < length ks'" "key_TokenHash (ks' ! n) = key_TokenHash k" "RevokedAt (ks' ! n) = RevokedAt k"
    using assms(1,3) by (auto simp: revocations_kept_def)
  moreover from this have "ks' ! n = k'"
    using distinct_map_eq [OF assms(4) nth_mem [of n ks'] assms(5)] assms(6) by simp
  ultimately show ?thesis by simp
qed

end
