(* ===== verification/Admin_Properties.thy ===== *)
theory Admin_Properties
  imports Bootstrap Schema Services
begin

text \<open>
  The properties of admin accounts, sessions and API keys: who gets a session, what a session is good
  for and for how long, and what a revocation means. They rest on \<open>pgadmins\<close> and \<open>pgkeys\<close>, the Postgres
  repository's instances of the contracts. The witnesses run on a database with one account, whose
  password is checked by a stand-in for \<^verbatim>\<open>bcrypt\<close>.
\<close>

section \<open>An example database\<close>

definition example_bcrypt :: "string \<Rightarrow> string \<Rightarrow> error option" where
  "example_bcrypt hashed password = (if hashed = ''hash:'' @ password then None else Some (Errorf ''mismatch''))"

definition example_gen :: "string \<Rightarrow> error + string" where
  "example_gen password = Inr (''hash:'' @ password)"

definition example_password :: string where
  "example_password = ''correct horse''"

definition example_admin :: Admin where
  "example_admin = bootstrap_admin ''admin-1'' ''root'' (''hash:'' @ example_password) 0"

definition admin_world :: world where
  "admin_world = empty_world\<lparr>admins := [example_admin]\<rparr>"

lemma admin_world_sel [simp]:
  "admins admin_world = [example_admin]" "admin_sessions admin_world = []" "api_keys admin_world = []"
  "db_faults admin_world = []" "db_up admin_world" "schema_ok admin_world"
  by (simp_all add: admin_world_def empty_world_def db_up_def constraint_defs)

lemma example_admin_sel [simp]: "admin_ID example_admin = ''admin-1''" "Username example_admin = ''root''"
  "PasswordHash example_admin = ''hash:'' @ example_password"
  by (simp_all add: example_admin_def bootstrap_admin_def)

lemma example_password_sel [simp]: "example_password \<noteq> []"
  by (simp add: example_password_def)

lemma trim_root [simp]: "TrimSpace '' root'' = ''root''" "TrimSpace ''root'' = ''root''"
  by code_simp+

section \<open>Sessions\<close>

text \<open>C12. A login that succeeds was given an account's name and password. It stores one session of that
  account, under the hash of the token it returns, which ends 24 hours later. A login that fails leaves
  the sessions as they were, unless the password was right and only the answer of the database was lost.\<close>

theorem login_needs_password:
  assumes "run_state (Login bcrypt PostgresAdmins now rand user password) w = (res, w')"
  shows "case res of
      Inr r \<Rightarrow> login_Admin r \<in> set (admins w) \<and> Username (login_Admin r) = TrimSpace user \<and> password \<noteq> [] \<and>
        bcrypt (PasswordHash (login_Admin r)) password = None \<and>
        admin_sessions w' = admin_sessions w @ [login_Session r] \<and>
        session_TokenHash (login_Session r) = sha256_hex (login_Token r) \<and>
        AdminID (login_Session r) = admin_ID (login_Admin r) \<and> session_ExpiresAt (login_Session r) = now + 24 * Hour
    | Inl _ \<Rightarrow> admin_sessions w' = admin_sessions w \<or>
        (\<exists>a \<in> set (admins w). Username a = TrimSpace user \<and> bcrypt (PasswordHash a) password = None)"
  using assms by (cases rule: pgadmins.Login_cases) (auto simp: sessionTTL_def)

theorem login_needs_password_witness:
  "\<exists>r w'. run_state (Login example_bcrypt PostgresAdmins 0 (Inr (replicate 32 (CHR 0x2A))) '' root'' example_password)
      admin_world = (Inr r, w') \<and> login_Admin r = example_admin \<and> length (admin_sessions w') = 1"
proof -
  obtain r w' where run: "run_state (Login example_bcrypt PostgresAdmins 0 (Inr (replicate 32 (CHR 0x2A))) '' root''
      example_password) admin_world = (Inr r, w')"
    using pgadmins.Login_up [of admin_world example_admin "'' root''" example_password example_bcrypt
        "replicate 32 (CHR 0x2A)" 0]
    by (auto simp: example_bcrypt_def)
  then show ?thesis using login_needs_password [OF run] by auto
qed

lemma touched_account: "x \<in> set (touch_login i now as) \<Longrightarrow> \<exists>b \<in> set as. admin_ID x = admin_ID b \<and> Username x = Username b"
  by (auto simp: touch_login_def)

text \<open>What a successful login leaves: one more session, by whose token the account is found for 24 hours.\<close>

lemma login_session:
  assumes "db_up w" and "schema_ok w" and "a \<in> set (admins w)" and "Username a = TrimSpace user"
    and "TrimSpace user \<noteq> []" and "password \<noteq> []" and "bcrypt (PasswordHash a) password = None" and "buf \<noteq> []"
    and "sha256_hex (EncodeToString buf) \<notin> session_TokenHash ` set (admin_sessions w)"
  obtains w1 where "run_state (Login bcrypt PostgresAdmins now (Inr buf) user password) w =
      (Inr \<lparr>login_Token = EncodeToString buf, login_Admin = a, login_Session = new_session (EncodeToString buf) (admin_ID a) now\<rparr>, w1)"
    and "admin_sessions w1 = admin_sessions w @ [new_session (EncodeToString buf) (admin_ID a) now]"
    and "distinct (map session_TokenHash (admin_sessions w1))"
    and "\<forall>t \<le> now + 24 * Hour. \<exists>a' w2. run_state (VerifySession PostgresAdmins t (EncodeToString buf)) w1 =
      (Inr \<lparr>sess_Admin = a', sess_Session = new_session (EncodeToString buf) (admin_ID a) now\<rparr>, w2) \<and>
      admin_ID a' = admin_ID a \<and> Username a' = Username a"
proof -
  let ?s = "new_session (EncodeToString buf) (admin_ID a) now"
  let ?r = "\<lparr>login_Token = EncodeToString buf, login_Admin = a, login_Session = ?s\<rparr>"
  obtain w1 where l: "run_state (Login bcrypt PostgresAdmins now (Inr buf) user password) w = (Inr ?r, w1)" "db_up w1"
    using pgadmins.Login_up [of w a user password bcrypt buf now] assms schema_D(3) [OF assms(2)] by blast
  have ss: "admin_sessions w1 = admin_sessions w @ [?s]" and as: "admins w1 = admins w \<or> admins w1 = touch_login (admin_ID a) now (admins w)"
    using l(1) by (cases rule: pgadmins.Login_cases; simp)+
  then have ids: "admin_ID a \<in> admin_ID ` set (admins w1)" using assms(3) by auto
  have dist: "distinct (map session_TokenHash (admin_sessions w1))"
    using schema_D(4) [OF assms(2)] assms(9) ss by simp
  show thesis
  proof (rule that [OF l(1) ss dist], intro allI impI)
    fix t
    assume t: "t \<le> now + 24 * Hour"
    have "EncodeToString buf \<noteq> []" using assms(8) by simp
    then obtain a' w2 where v: "run_state (VerifySession PostgresAdmins t (EncodeToString buf)) w1 =
        (Inr \<lparr>sess_Admin = a', sess_Session = ?s\<rparr>, w2)"
      using pgadmins.VerifySession_up [OF l(2) dist, of "EncodeToString buf" ?s t] ss ids t by (auto simp: sessionTTL_def)
    from v have a': "a' \<in> set (admins w1) \<and> admin_ID a' = admin_ID a"
      by (rule pgadmins.VerifySession_cases) (auto simp: new_session_def)
    have "\<exists>b \<in> set (admins w). admin_ID a' = admin_ID b \<and> Username a' = Username b"
      using as
    proof
      assume "admins w1 = admins w"
      then show ?thesis using a' by (intro bexI [of _ a']) simp_all
    qed (use a' in \<open>intro touched_account [of a' "admin_ID a" now], simp\<close>)
    then obtain b where b: "b \<in> set (admins w)" "admin_ID a' = admin_ID b" "Username a' = Username b" by (elim bexE conjE)
    have "b = a" by (rule distinct_map_eq [OF schema_D(2) [OF assms(2)] b(1) assms(3)]) (simp add: a' flip: b(2))
    then show "\<exists>a' w2. run_state (VerifySession PostgresAdmins t (EncodeToString buf)) w1 = (Inr \<lparr>sess_Admin = a', sess_Session = ?s\<rparr>, w2) \<and>
        admin_ID a' = admin_ID a \<and> Username a' = Username a"
      using v a' b(3) by (intro exI [of _ a'] exI [of _ w2]) simp
  qed
qed

text \<open>C17. While the database answers, whoever knows an account's password can log in, and the token is
  good for exactly 24 hours from then: until that instant it is accepted, with that account, and after it
  refused.\<close>

theorem login_lasts_a_day:
  assumes "db_up w" and "schema_ok w" and "a \<in> set (admins w)" and "Username a = TrimSpace user"
    and "TrimSpace user \<noteq> []" and "password \<noteq> []" and "bcrypt (PasswordHash a) password = None" and "buf \<noteq> []"
    and "sha256_hex (EncodeToString buf) \<notin> session_TokenHash ` set (admin_sessions w)"
  shows "\<exists>r w1 res w2. run_state (Login bcrypt PostgresAdmins now (Inr buf) user password) w = (Inr r, w1) \<and>
    run_state (VerifySession PostgresAdmins t (login_Token r)) w1 = (res, w2) \<and>
    (case res of Inr s \<Rightarrow> t \<le> now + 24 * Hour \<and> admin_ID (sess_Admin s) = admin_ID a
     | Inl _ \<Rightarrow> now + 24 * Hour < t)"
proof -
  let ?s = "new_session (EncodeToString buf) (admin_ID a) now"
  obtain w1 where
      l: "run_state (Login bcrypt PostgresAdmins now (Inr buf) user password) w =
        (Inr \<lparr>login_Token = EncodeToString buf, login_Admin = a, login_Session = ?s\<rparr>, w1)"
    and ss: "admin_sessions w1 = admin_sessions w @ [?s]" and dist: "distinct (map session_TokenHash (admin_sessions w1))"
    and ok: "\<forall>t \<le> now + 24 * Hour. \<exists>a' w2. run_state (VerifySession PostgresAdmins t (EncodeToString buf)) w1 =
        (Inr \<lparr>sess_Admin = a', sess_Session = ?s\<rparr>, w2) \<and> admin_ID a' = admin_ID a \<and> Username a' = Username a"
    by (rule login_session [of w a user password bcrypt buf now, OF assms])
  obtain res w2 where v: "run_state (VerifySession PostgresAdmins t (EncodeToString buf)) w1 = (res, w2)" by force
  have "case res of Inr s \<Rightarrow> t \<le> now + 24 * Hour \<and> admin_ID (sess_Admin s) = admin_ID a | Inl _ \<Rightarrow> now + 24 * Hour < t"
  proof (cases "t \<le> now + 24 * Hour")
    case True
    then show ?thesis using ok v by force
  next
    case False
    from v show ?thesis
    proof (cases rule: pgadmins.VerifySession_cases)
      case (ok s a)
      have "s = ?s" using distinct_map_eq [OF dist ok(2), of ?s] ok(3) ss by simp
      then show ?thesis using ok(4) False by (simp add: sessionTTL_def)
    qed (use False in simp)
  qed
  then show ?thesis using l v by (intro exI conjI) auto
qed

theorem login_lasts_a_day_witness:
  "\<exists>r w1 res w2. run_state (Login example_bcrypt PostgresAdmins 0 (Inr [CHR 0x2A]) ''root'' example_password) admin_world
      = (Inr r, w1) \<and> run_state (VerifySession PostgresAdmins Hour (login_Token r)) w1 = (Inr res, w2)"
proof -
  obtain r w1 res w2 where "run_state (Login example_bcrypt PostgresAdmins 0 (Inr [CHR 0x2A]) ''root'' example_password) admin_world
      = (Inr r, w1)" "run_state (VerifySession PostgresAdmins Hour (login_Token r)) w1 = (res, w2)"
    "case res of Inr s \<Rightarrow> Hour \<le> 0 + 24 * Hour \<and> admin_ID (sess_Admin s) = admin_ID example_admin | Inl _ \<Rightarrow> 0 + 24 * Hour < Hour"
    using login_lasts_a_day [of admin_world example_admin "''root''" example_password example_bcrypt "[CHR 0x2A]" 0 Hour]
    by (auto simp: example_bcrypt_def)
  then show ?thesis by (cases res) (auto simp: Hour_def Minute_def Second_def)
qed

text \<open>C11. A session token is accepted only if the table has an unexpired session under its hash, and then
  for the account of that session. Checking a token adds no session and never moves an expiry, so that
  use does not prolong a session; the sessions of other tokens stay as they are.\<close>

theorem session_checked:
  assumes "run_state (VerifySession PostgresAdmins now token) w = (res, w')"
  shows "(case res of
      Inr s \<Rightarrow> sess_Session s \<in> set (admin_sessions w) \<and> session_TokenHash (sess_Session s) = sha256_hex token \<and>
        now \<le> session_ExpiresAt (sess_Session s) \<and> sess_Admin s \<in> set (admins w) \<and>
        admin_ID (sess_Admin s) = AdminID (sess_Session s)
    | Inl _ \<Rightarrow> True) \<and>
    (\<lambda>s. (session_TokenHash s, AdminID s, session_ExpiresAt s)) ` set (admin_sessions w') \<subseteq>
      (\<lambda>s. (session_TokenHash s, AdminID s, session_ExpiresAt s)) ` set (admin_sessions w) \<and>
    filter (\<lambda>s. session_TokenHash s \<noteq> sha256_hex token) (admin_sessions w') =
      filter (\<lambda>s. session_TokenHash s \<noteq> sha256_hex token) (admin_sessions w)"
proof -
  let ?h = "sha256_hex token" and ?f = "\<lambda>s. (session_TokenHash s, AdminID s, session_ExpiresAt s)"
  let ?t = "touch_session ?h now (admin_sessions w)"
  have "map ?f (touch_session ?h now ss) = map ?f ss" for ss
    by (induction ss) (simp_all add: touch_session_def)
  then have touched: "?f ` set ?t = ?f ` set (admin_sessions w)"
    by (metis (no_types, lifting) list.set_map)
  have others: "filter (\<lambda>s. session_TokenHash s \<noteq> ?h) ?t = filter (\<lambda>s. session_TokenHash s \<noteq> ?h) (admin_sessions w)"
    by (auto simp: touch_session_def filter_map o_def intro!: map_idI)
  have "admin_sessions w' = admin_sessions w \<or> admin_sessions w' = filter (\<lambda>s. session_TokenHash s \<noteq> ?h) (admin_sessions w) \<or>
      admin_sessions w' = ?t"
    using assms by (cases rule: pgadmins.VerifySession_cases) auto
  then have "?f ` set (admin_sessions w') \<subseteq> ?f ` set (admin_sessions w)"
    by (elim disjE) (simp_all only: touched, auto)
  moreover have "case res of
      Inr s \<Rightarrow> sess_Session s \<in> set (admin_sessions w) \<and> session_TokenHash (sess_Session s) = ?h \<and>
        now \<le> session_ExpiresAt (sess_Session s) \<and> sess_Admin s \<in> set (admins w) \<and>
        admin_ID (sess_Admin s) = AdminID (sess_Session s)
    | Inl _ \<Rightarrow> True"
    using assms by (cases rule: pgadmins.VerifySession_cases) auto
  moreover have "filter (\<lambda>s. session_TokenHash s \<noteq> ?h) (admin_sessions w') = filter (\<lambda>s. session_TokenHash s \<noteq> ?h) (admin_sessions w)"
    using assms others by (cases rule: pgadmins.VerifySession_cases) auto
  ultimately show ?thesis by blast
qed

definition session_world :: world where
  "session_world = admin_world\<lparr>admin_sessions := [new_session ''token'' ''admin-1'' 0]\<rparr>"

lemma session_world_sel [simp]: "admins session_world = [example_admin]"
  "admin_sessions session_world = [new_session ''token'' ''admin-1'' 0]" "db_up session_world"
  by (simp_all add: session_world_def db_up_def)

lemma session_world_verify:
  obtains s w' where "run_state (VerifySession PostgresAdmins Hour ''token'') session_world = (Inr s, w')"
  using pgadmins.VerifySession_up [of session_world "''token''" "new_session ''token'' ''admin-1'' 0" Hour]
  by (auto simp: sessionTTL_def Hour_def Minute_def Second_def)

theorem session_checked_witness:
  "\<exists>s w'. run_state (VerifySession PostgresAdmins Hour ''token'') session_world = (Inr s, w') \<and>
    sess_Admin s = example_admin \<and> session_ExpiresAt ` set (admin_sessions w') \<subseteq> {24 * Hour}"
proof -
  obtain s w' where run: "run_state (VerifySession PostgresAdmins Hour ''token'') session_world = (Inr s, w')"
    by (rule session_world_verify)
  then show ?thesis using session_checked [OF run] by (auto simp: sessionTTL_def)
qed

text \<open>C9. After a logout that reported success the token is refused, and all other sessions remain.\<close>

theorem logout_revokes:
  assumes "run_state (Logout PostgresAdmins token) w = (Inr u, w1)" and "token \<noteq> []"
    and "run_state (VerifySession PostgresAdmins now token) w1 = (res, w2)"
  shows "(\<exists>e. res = Inl e) \<and>
    admin_sessions w1 = filter (\<lambda>s. session_TokenHash s \<noteq> sha256_hex token) (admin_sessions w)"
proof -
  note ss = pgadmins.Logout_sessions [OF assms(1,2)]
  then have "sha256_hex token \<notin> session_TokenHash ` set (admin_sessions w1)" by auto
  then show ?thesis using pgadmins.VerifySession_unknown [OF assms(3)] ss(1) by blast
qed

theorem logout_revokes_witness:
  "\<exists>w1 e w2. run_state (Logout PostgresAdmins ''token'') session_world = (Inr (), w1) \<and>
    run_state (VerifySession PostgresAdmins Hour ''token'') w1 = (Inl e, w2) \<and> admin_sessions w1 = []"
proof -
  obtain w1 where l: "run_state (Logout PostgresAdmins ''token'') session_world = (Inr (), w1)"
    using pgadmins.DeleteSession_up [of session_world "sha256_hex ''token''"] by (auto simp: Logout_def)
  obtain res w2 where v: "run_state (VerifySession PostgresAdmins Hour ''token'') w1 = (res, w2)" by force
  then show ?thesis using l logout_revokes [OF l _ v] by auto
qed

section \<open>The first account\<close>

text \<open>On an empty table, bootstrapping with a password of at least 12 bytes and a name without
  surrounding space creates an account that can log in with them, provided \<^verbatim>\<open>bcrypt\<close> accepts the password
  it hashed.\<close>

theorem bootstrap_then_login:
  assumes "db_up w" and "admins w = []" and "boot_Username cfg \<noteq> []" and "TrimSpace (boot_Username cfg) = boot_Username cfg"
    and "12 \<le> length (boot_Password cfg)" and "gen (boot_Password cfg) = Inr h" and "bcrypt h (boot_Password cfg) = None"
    and "sha256_hex (EncodeToString buf) \<notin> session_TokenHash ` set (admin_sessions w)"
  shows "\<exists>w1 r w2. run_state (Bootstrap gen PostgresAdmins now uuid cfg) w = (Inr (), w1) \<and>
    run_state (Login bcrypt PostgresAdmins t (Inr buf) (boot_Username cfg) (boot_Password cfg)) w1 = (Inr r, w2) \<and>
    admin_ID (login_Admin r) = uuid"
proof -
  let ?a = "bootstrap_admin uuid (boot_Username cfg) h now"
  obtain w1 where b: "run_state (Bootstrap gen PostgresAdmins now uuid cfg) w = (Inr (), w1)" "db_up w1"
      "admins w1 = [?a]" "admin_sessions w1 = admin_sessions w"
    using pgadmins.Bootstrap_up [of w cfg gen h now uuid] assms by (auto simp: minPasswordLength_def)
  have "boot_Password cfg \<noteq> []" using assms(5) by auto
  then obtain w2 where "run_state (Login bcrypt PostgresAdmins t (Inr buf) (boot_Username cfg) (boot_Password cfg)) w1 =
      (Inr \<lparr>login_Token = EncodeToString buf, login_Admin = ?a, login_Session = new_session (EncodeToString buf) uuid t\<rparr>, w2)"
    using pgadmins.Login_up [of w1 ?a "boot_Username cfg" "boot_Password cfg" bcrypt buf t] b assms(3,4,7,8)
    by (auto simp: bootstrap_admin_def)
  then show ?thesis using b(1) by (auto simp: bootstrap_admin_def)
qed

theorem bootstrap_then_login_witness:
  "\<exists>w1 r w2. run_state (Bootstrap example_gen PostgresAdmins 0 ''admin-1''
      \<lparr>boot_Username = ''root'', boot_Password = example_password\<rparr>) empty_world = (Inr (), w1) \<and>
    run_state (Login example_bcrypt PostgresAdmins 0 (Inr [CHR 0x2A]) ''root'' example_password) w1 = (Inr r, w2)"
  using bootstrap_then_login [of empty_world "\<lparr>boot_Username = ''root'', boot_Password = example_password\<rparr>"
      example_gen "''hash:'' @ example_password" example_bcrypt "[CHR 0x2A]" 0 "''admin-1''" 0]
  by (auto simp: db_up_def empty_world_def example_gen_def example_bcrypt_def example_password_def)

text \<open>C39. Bootstrapping stores the name as configured, while a login trims the name it is given: with
  space around the configured name no one can ever log in, whatever name and password they try.\<close>

theorem bootstrap_locks_out:
  assumes "admins w = []" and "TrimSpace (boot_Username cfg) \<noteq> boot_Username cfg"
    and "run_state (Bootstrap gen PostgresAdmins now uuid cfg) w = (Inr (), w1)"
    and "run_state (Login bcrypt PostgresAdmins t rand user password) w1 = (res, w2)"
  shows "admins w1 \<noteq> [] \<and> (\<exists>e. res = Inl e) \<and> admin_sessions w2 = admin_sessions w"
proof -
  obtain h where as: "admins w1 = [bootstrap_admin uuid (boot_Username cfg) h now]"
    and ss: "admin_sessions w1 = admin_sessions w"
    using assms(3) by (cases rule: pgadmins.Bootstrap_cases) (use assms(1) in auto)
  have "boot_Username cfg \<noteq> TrimSpace user" using assms(2) by auto
  then have no: "a \<in> set (admins w1) \<Longrightarrow> Username a \<noteq> TrimSpace user" for a using as by (simp add: bootstrap_admin_def)
  from assms(4) show ?thesis
    by (cases rule: pgadmins.Login_cases) (use as ss no in auto)
qed

theorem bootstrap_locks_out_witness:
  "\<exists>w1 e w2. run_state (Bootstrap example_gen PostgresAdmins 0 ''admin-1''
      \<lparr>boot_Username = '' root'', boot_Password = example_password\<rparr>) empty_world = (Inr (), w1) \<and>
    run_state (Login example_bcrypt PostgresAdmins 0 (Inr [CHR 0x2A]) '' root'' example_password) w1 = (Inl e, w2)"
proof -
  let ?cfg = "\<lparr>boot_Username = '' root'', boot_Password = example_password\<rparr>"
  obtain w1 where b: "run_state (Bootstrap example_gen PostgresAdmins 0 ''admin-1'' ?cfg) empty_world = (Inr (), w1)"
    using pgadmins.Bootstrap_up [of empty_world ?cfg example_gen "''hash:'' @ example_password" 0 "''admin-1''"]
    by (auto simp: db_up_def empty_world_def example_gen_def minPasswordLength_def example_password_def)
  obtain res w2 where l: "run_state (Login example_bcrypt PostgresAdmins 0 (Inr [CHR 0x2A]) '' root'' example_password) w1 = (res, w2)"
    by force
  show ?thesis using bootstrap_locks_out [OF _ _ b l] b l by (auto simp: empty_world_def)
qed

section \<open>API keys\<close>

text \<open>C29. A created key is accepted, as the record that was stored, as long as the database answers.\<close>

theorem created_key_accepted:
  assumes "run_state (CreateAPIKey PostgresKeys now uuid rand name) w = (Inr r, w1)"
    and "schema_ok w" and "db_faults w1 = []"
  shows "(\<exists>w2. run_state (VerifyAPIKey PostgresKeys t (created_Key r)) w1 = (Inr (created_Record r), w2)) \<and>
    key_ID (created_Record r) = uuid \<and> api_keys w1 = api_keys w @ [created_Record r]"
  using assms(1)
proof (cases rule: pgkeys.CreateAPIKey_cases)
  case (ok buf k)
  have "distinct (map key_TokenHash (api_keys w1))" using schema_D(6) [OF assms(2)] ok(5,6) by simp
  then have "\<exists>w2. run_state (VerifyAPIKey PostgresKeys t (created_Key r)) w1 = (Inr k, w2)"
    using pgkeys.VerifyAPIKey_up [of w1 k "created_Key r" t] assms(3) ok by (auto simp: apiKeyPrefix_def)
  then show ?thesis using ok by auto
qed auto

theorem created_key_accepted_witness:
  "\<exists>r w1 w2. run_state (CreateAPIKey PostgresKeys 0 ''key-1'' (Inr [CHR 0x2A]) ''metrics'') admin_world = (Inr r, w1) \<and>
    run_state (VerifyAPIKey PostgresKeys 5 (created_Key r)) w1 = (Inr (created_Record r), w2)"
proof -
  have trim: "TrimSpace ''metrics'' = ''metrics''" by code_simp
  obtain r w1 where c: "run_state (CreateAPIKey PostgresKeys 0 ''key-1'' (Inr [CHR 0x2A]) ''metrics'') admin_world = (Inr r, w1)"
      "db_faults w1 = []"
    by (simp add: CreateAPIKey_def NewAPIKey_def trim Let_def PostgresKeys_def pg_InsertAPIKey_def run_pg_exec_ok
        insert_key_stmt_def admin_world_def empty_world_def)
  then show ?thesis using created_key_accepted [OF c(1) _ c(2), of 5] by auto
qed

text \<open>C14. A key whose revocation is in the table is never accepted again, whatever calls of the repository
  come between, by whichever instance, and however many of them fail.\<close>

theorem revoked_key_stays_refused:
  assumes "schema_ok w" and "k \<in> set (api_keys w)" and "RevokedAt k \<noteq> None" and "key_TokenHash k = sha256_hex key"
    and "db_call\<^sup>*\<^sup>* w w1" and "run_state (VerifyAPIKey PostgresKeys now key) w1 = (res, w2)"
  shows "\<exists>e. res = Inl e"
  using assms(6)
proof (cases rule: pgkeys.VerifyAPIKey_cases)
  case (ok k')
  have "RevokedAt k' = RevokedAt k"
    using revoked_entry [OF db_calls_revocations [OF assms(5)] assms(2,3) _ ok(3)]
      schema_D(6) [OF db_calls_schema [OF assms(5,1)]] ok(4) assms(4) by simp
  then show ?thesis using ok(5) assms(3) by simp
qed auto

definition revoked_key :: APIKey where
  "revoked_key = \<lparr>key_ID = ''key-1'', key_Name = ''metrics'', key_TokenHash = sha256_hex ''secret'', key_CreatedAt = 0,
     key_LastUsedAt = None, RevokedAt = Some 1\<rparr>"

theorem revoked_key_stays_refused_witness:
  "\<exists>w1 e w2. run_state (pg_TouchAPIKey ''key-1'' 2) (admin_world\<lparr>api_keys := [revoked_key]\<rparr>) = (Inr (), w1) \<and>
    run_state (VerifyAPIKey PostgresKeys 3 ''secret'') w1 = (Inl e, w2)"
proof -
  let ?w = "admin_world\<lparr>api_keys := [revoked_key]\<rparr>"
  obtain w1 where t: "run_state (pg_TouchAPIKey ''key-1'' 2) ?w = (Inr (), w1)"
    by (simp add: pg_TouchAPIKey_def)
  then have calls: "db_call\<^sup>*\<^sup>* ?w w1" by (intro r_into_rtranclp db_call.intros)
  obtain res w2 where v: "run_state (VerifyAPIKey PostgresKeys 3 ''secret'') w1 = (res, w2)" by force
  have "schema_ok ?w" by (rule schema_keys) simp_all
  then show ?thesis
    using revoked_key_stays_refused [OF _ _ _ _ calls v, of revoked_key] t v by (auto simp: revoked_key_def)
qed

section \<open>Legal documents\<close>

text \<open>What an admin publishes is what visitors read: after an update with content, by an account that
  exists, the public handler of that document serves exactly this content, and the other document stays as
  it was.\<close>

theorem published_document_served:
  assumes "db_faults w = []" and "schema_ok w" and "t \<in> DocType ` set (legal_documents w)" and "TrimSpace body \<noteq> []"
    and "i \<in> admin_ID ` set (admins w)"
  shows "\<exists>d w1. run_state (UpdateLegalDocument PostgresLegal now t body i) w = (Inr d, w1) \<and>
    run_state (legal_serve PostgresLegal zone t) w1 = (response_JSON 200 (Some (legal_body zone d)), w1) \<and>
    DocType d = t \<and> Content d = body \<and> legal_UpdatedBy d = Some i \<and>
    filter (\<lambda>d. DocType d \<noteq> t) (legal_documents w1) = filter (\<lambda>d. DocType d \<noteq> t) (legal_documents w)"
proof -
  let ?ds = "set_document t body i now (legal_documents w)"
  have types: "map DocType ?ds = map DocType (legal_documents w)"
    by (simp add: set_document_def)
  have valid: "isValidLegalDocType t" using assms(3) schema_document [OF assms(2)] by (auto simp: isValidLegalDocType_def)
  obtain x where x: "x \<in> set (legal_documents w)" "DocType x = t" using assms(3) by auto
  let ?d = "x\<lparr>Content := body, legal_UpdatedAt := now, legal_UpdatedBy := Some i\<rparr>"
  have "?d \<in> set ?ds" using x by (auto simp: set_document_def intro: rev_image_eqI)
  moreover have "distinct (map DocType ?ds)" using schema_D(7) [OF assms(2)] by (simp only: types)
  ultimately have ds: "filter (\<lambda>d. DocType d = t) ?ds = [?d]"
    using filter_key_single [of DocType ?ds ?d] x(2) by simp
  have others: "filter (\<lambda>d. DocType d \<noteq> t) ?ds = filter (\<lambda>d. DocType d \<noteq> t) (legal_documents w)"
    by (auto simp: set_document_def filter_map o_def intro!: map_idI)
  show ?thesis
    using assms(1,4,5) valid ds others x(2)
    by (simp add: UpdateLegalDocument_def PostgresLegal_def pg_UpdateLegalDocument_def run_pg_exec_ok update_legal_stmt_def
        legal_serve_def pg_GetLegalDocument_def find_row_up Let_def)
qed

definition legal_world :: world where
  "legal_world = admin_world\<lparr>legal_documents := [\<lparr>DocType = LegalDocTerms, Content = ''draft'', legal_UpdatedAt = 0,
     legal_UpdatedBy = None\<rparr>]\<rparr>"

theorem published_document_served_witness:
  "\<exists>d w1. run_state (UpdateLegalDocument PostgresLegal 5 LegalDocTerms ''root'' ''admin-1'') legal_world = (Inr d, w1) \<and>
    run_state (legal_serve PostgresLegal 0 LegalDocTerms) w1 = (response_JSON 200 (Some (legal_body 0 d)), w1) \<and>
    Content d = ''root''"
proof -
  have "schema_ok legal_world" unfolding legal_world_def by (rule schema_documents) simp_all
  moreover have "db_faults legal_world = []" "LegalDocTerms \<in> DocType ` set (legal_documents legal_world)"
    "''admin-1'' \<in> admin_ID ` set (admins legal_world)"
    by (simp_all add: legal_world_def)
  ultimately show ?thesis using published_document_served [of legal_world LegalDocTerms "''root''" "''admin-1''" 5 0] by auto
qed

end
