(* ===== verification/Settings.thy ===== *)
theory Settings
  imports Repo_Settings Validator Response
begin

text \<open>
  The upload settings: reading and changing them (\<^verbatim>\<open>internal/admin/service.go\<close>), the synchronizer that
  brings a change to the other instances (\<^verbatim>\<open>internal/upload/settings_synchronizer.go\<close>), and the public
  view of them (\<^verbatim>\<open>internal/upload/config_handler.go\<close>). \<open>quote\<close> is the \<^verbatim>\<open>%q\<close> verb.
\<close>

definition maxUploadSizeMBCeiling :: int where
  "maxUploadSizeMBCeiling = 10240"

record UpdateUploadSettingsInput =
  upd_MaxUploadSizeMB :: int
  upd_AllowedMimeTypes :: "string slice"
  upd_BlockedExtensions :: "string slice"

definition GetUploadSettings :: "'w UploadSettingsRepository \<Rightarrow> ('w, error, UploadSettings) io" where
  "GetUploadSettings repo =
    tryE (repo_GetUploadSettings repo) (Wrap ''get upload settings'') (\<lambda>s. State_Monad.return (Inr s))"

fun normalize_loop :: "string list \<Rightarrow> string list \<Rightarrow> string list" where
  "normalize_loop result [] = result"
| "normalize_loop result (v # values) =
    (let trimmed = TrimSpace v
     in normalize_loop (if trimmed \<noteq> [] then result @ [trimmed] else result) values)"

definition normalizeStringList :: "string slice \<Rightarrow> string slice" where
  "normalizeStringList values = Some (normalize_loop [] (elems values))"

fun check_dots :: "(string \<Rightarrow> string) \<Rightarrow> string list \<Rightarrow> error option" where
  "check_dots quote [] = None"
| "check_dots quote (ext # exts) =
    (if \<not> HasPrefix ext ''.''
     then Some (Wrapf [] ErrInvalidUploadSettings ('': blocked extension '' @ quote ext @ '' must start with \".\"''))
     else check_dots quote exts)"

definition validateUploadSettings ::
  "(string \<Rightarrow> string) \<Rightarrow> UpdateUploadSettingsInput \<Rightarrow> error + UpdateUploadSettingsInput" where
  "validateUploadSettings quote input =
    (if upd_MaxUploadSizeMB input \<le> 0
     then Inl (Wrapf [] ErrInvalidUploadSettings '': max_upload_size_mb must be positive'')
     else if upd_MaxUploadSizeMB input > maxUploadSizeMBCeiling
     then Inl (Wrapf [] ErrInvalidUploadSettings ('': max_upload_size_mb must not exceed '' @ show_int maxUploadSizeMBCeiling))
     else let allowed = normalizeStringList (upd_AllowedMimeTypes input)
     in if elems allowed = []
        then Inl (Wrapf [] ErrInvalidUploadSettings '': allowed_mime_types must not be empty'')
        else let blocked = normalizeStringList (upd_BlockedExtensions input)
     in case check_dots quote (elems blocked) of
          Some err \<Rightarrow> Inl err
        | None \<Rightarrow> Inr \<lparr>upd_MaxUploadSizeMB = upd_MaxUploadSizeMB input, upd_AllowedMimeTypes = allowed,
            upd_BlockedExtensions = blocked\<rparr>)"

definition UpdateUploadSettings ::
  "(string \<Rightarrow> string) \<Rightarrow> 'w UploadSettingsRepository \<Rightarrow> time \<Rightarrow> string \<Rightarrow> UpdateUploadSettingsInput
    \<Rightarrow> ('w, error, UploadSettings) io" where
  "UpdateUploadSettings quote repo now adminID input =
    (case validateUploadSettings quote input of
       Inl err \<Rightarrow> State_Monad.return (Inl err)
     | Inr normalized \<Rightarrow>
         let s = \<lparr>MaxUploadSizeMB = upd_MaxUploadSizeMB normalized,
               AllowedMimeTypes = upd_AllowedMimeTypes normalized,
               BlockedExtensions = upd_BlockedExtensions normalized,
               settings_UpdatedAt = now, settings_UpdatedBy = Some adminID\<rparr>
         in tryE (repo_UpdateUploadSettings repo s adminID now) (Wrap ''update upload settings'')
              (\<lambda>_. State_Monad.return (Inr s)))"

text \<open>
  The callback \<^verbatim>\<open>main\<close> installs, and the synchronizer's tick, which also tells whether it changed the
  rules (and logged so). The product is an \<^verbatim>\<open>int64\<close>; \<^verbatim>\<open>reflect.DeepEqual\<close> tells nil from empty.
\<close>

definition apply_settings :: "UploadSettings \<Rightarrow> validatorRules \<Rightarrow> validatorRules" where
  "apply_settings s rules =
    Validator_Update (i64 (MaxUploadSizeMB s * 1024 * 1024)) (AllowedMimeTypes s) (BlockedExtensions s) rules"

definition syncOnce :: "'w UploadSettingsRepository \<Rightarrow> validatorRules \<Rightarrow> ('w, validatorRules \<times> bool) state" where
  "syncOnce repo rules = do {
     found \<leftarrow> repo_GetUploadSettings repo;
     State_Monad.return (case found of
       Inl _ \<Rightarrow> (rules, False)
     | Inr s \<Rightarrow>
         (let (currentMaxSize, currentAllowed, currentBlocked) = Snapshot rules;
              newMaxSize = i64 (MaxUploadSizeMB s * 1024 * 1024)
          in if newMaxSize = currentMaxSize \<and> currentAllowed = AllowedMimeTypes s \<and> currentBlocked = BlockedExtensions s
             then (rules, False)
             else (Validator_Update newMaxSize (AllowedMimeTypes s) (BlockedExtensions s) rules, True)))
   }"

text \<open>\<^verbatim>\<open>Run\<close> for a number of ticks while nothing else changes the rules, with what each tick reported.\<close>

fun SettingsSynchronizer_Run ::
  "'w UploadSettingsRepository \<Rightarrow> nat \<Rightarrow> validatorRules \<Rightarrow> ('w, validatorRules \<times> bool list) state" where
  "SettingsSynchronizer_Run repo 0 rules = State_Monad.return (rules, [])"
| "SettingsSynchronizer_Run repo (Suc ticks) rules = do {
     (rules', changed) \<leftarrow> syncOnce repo rules;
     (rules'', log) \<leftarrow> SettingsSynchronizer_Run repo ticks rules';
     State_Monad.return (rules'', changed # log)
   }"

definition ConfigHandler_ServeHTTP :: "int \<Rightarrow> validatorRules \<Rightarrow> http_response" where
  "ConfigHandler_ServeHTTP fileTTLHours rules =
    (let (bytes, allowed, blocked) = Snapshot rules
     in response_JSON 200 (Some (JObject
          [(''max_upload_size_bytes'', JInt bytes), (''max_upload_size_mb'', JInt (sgn bytes * (\<bar>bytes\<bar> div (1024 * 1024)))),
           (''allowed_mime_types'', json_strings allowed), (''blocked_extensions'', json_strings blocked),
           (''file_ttl_hours'', JInt fileTTLHours)])))"

section \<open>What a change of settings does\<close>

lemma normalize_loop_eq: "normalize_loop result vs = result @ filter (\<lambda>v. v \<noteq> []) (map TrimSpace vs)"
  by (induction vs arbitrary: result) (auto simp: Let_def)

lemma elems_normalize [simp]:
  "elems (normalizeStringList vs) = filter (\<lambda>v. v \<noteq> []) (map TrimSpace (elems vs))"
  by (simp add: normalizeStringList_def normalize_loop_eq)

lemma check_dots_None: "check_dots quote exts = None \<longleftrightarrow> (\<forall>e \<in> set exts. HasPrefix e ''.'')"
  by (induction exts) auto

lemma check_dots_Some: "check_dots quote exts = Some e \<Longrightarrow> errors_Is e ErrInvalidUploadSettings"
  by (induction exts) (auto split: if_splits)

lemma validate_Inl: "validateUploadSettings quote input = Inl e \<Longrightarrow> errors_Is e ErrInvalidUploadSettings"
  by (auto simp: validateUploadSettings_def Let_def split: if_splits option.splits dest: check_dots_Some)

lemma validate_Inr:
  "validateUploadSettings quote input = Inr n \<longleftrightarrow>
    0 < upd_MaxUploadSizeMB input \<and> upd_MaxUploadSizeMB input \<le> 10240 \<and>
    (\<exists>t \<in> set (elems (upd_AllowedMimeTypes input)). TrimSpace t \<noteq> []) \<and>
    (\<forall>e \<in> set (elems (upd_BlockedExtensions input)). TrimSpace e = [] \<or> HasPrefix (TrimSpace e) ''.'') \<and>
    n = \<lparr>upd_MaxUploadSizeMB = upd_MaxUploadSizeMB input,
         upd_AllowedMimeTypes = normalizeStringList (upd_AllowedMimeTypes input),
         upd_BlockedExtensions = normalizeStringList (upd_BlockedExtensions input)\<rparr>"
proof -
  let ?b = "filter (\<lambda>v. v \<noteq> []) (map TrimSpace (elems (upd_BlockedExtensions input)))"
  have "check_dots quote ?b = None \<longleftrightarrow>
      (\<forall>e \<in> set (elems (upd_BlockedExtensions input)). TrimSpace e = [] \<or> HasPrefix (TrimSpace e) ''.'')"
    by (auto simp: check_dots_None)
  then show ?thesis
    by (cases "check_dots quote ?b")
      (auto simp: validateUploadSettings_def Let_def maxUploadSizeMBCeiling_def filter_empty_conv)
qed

lemma mb_to_bytes:
  assumes "0 < mb" and "mb \<le> 10240"
  shows "i64 (mb * 1024 * 1024) = mb * 1048576"
  using assms by (subst i64_id) (auto simp: is_i64_def)

definition has_settings :: "UploadSettings \<Rightarrow> validatorRules \<Rightarrow> bool" where
  "has_settings s rules \<longleftrightarrow> maxSizeBytes rules = i64 (MaxUploadSizeMB s * 1024 * 1024) \<and>
     allowedMimeTypes rules = AllowedMimeTypes s \<and> blockedExtensions rules = BlockedExtensions s"

definition empty_list :: "UploadSettings \<Rightarrow> bool" where
  "empty_list s \<longleftrightarrow> AllowedMimeTypes s = Some [] \<or> BlockedExtensions s = Some []"

lemma has_settings_apply: "has_settings s (apply_settings s rules) \<longleftrightarrow> \<not> empty_list s"
  by (auto simp: has_settings_def empty_list_def apply_settings_def Validator_Update_def append_nil_eq_iff)

lemma apply_settings_twice [simp]: "apply_settings s (apply_settings s rules) = apply_settings s rules"
  by (simp add: apply_settings_def Validator_Update_def)

lemma has_settings_elems:
  "has_settings s rules \<Longrightarrow> maxSizeBytes rules = i64 (MaxUploadSizeMB s * 1024 * 1024) \<and>
     elems (allowedMimeTypes rules) = elems (AllowedMimeTypes s) \<and> elems (blockedExtensions rules) = elems (BlockedExtensions s)"
  by (simp add: has_settings_def)

context settings_repository
begin

lemma syncOnce_result:
  assumes "run_state (syncOnce repo rules) w = ((rules', changed), w')"
  shows "row w' = row w" and "changed \<Longrightarrow> \<exists>s. row w = Some s \<and> rules' = apply_settings s rules"
    and "\<not> changed \<Longrightarrow> rules' = rules"
proof -
  obtain f where f: "run_state (repo_GetUploadSettings repo) w = (f, w')"
    using assms by (auto simp: syncOnce_def split: prod.splits)
  note g = GetSettings [OF f]
  show "row w' = row w" using g by simp
  show "changed \<Longrightarrow> \<exists>s. row w = Some s \<and> rules' = apply_settings s rules" "\<not> changed \<Longrightarrow> rules' = rules"
    using assms f g by (auto simp: syncOnce_def apply_settings_def Let_def split: sum.splits prod.splits if_splits)
qed

lemma syncOnce_up:
  assumes "up w" and "row w = Some s"
  shows "\<exists>changed w'. run_state (syncOnce repo rules) w = ((if changed then apply_settings s rules else rules, changed), w')
    \<and> up w' \<and> row w' = Some s \<and>
    (changed \<longleftrightarrow> \<not> (maxSizeBytes rules = i64 (MaxUploadSizeMB s * 1024 * 1024) \<and>
      allowedMimeTypes rules = AllowedMimeTypes s \<and> blockedExtensions rules = BlockedExtensions s))"
proof -
  obtain w' where w': "run_state (repo_GetUploadSettings repo) w = (Inr s, w')" "up w'"
    using GetSettings_up [OF assms] by blast
  then show ?thesis using GetSettings [OF w'(1)] assms(2)
    by (auto simp: syncOnce_def apply_settings_def Snapshot_def)
qed

text \<open>
  The synchronizer over many ticks. Once the rules are those of the row, a tick finds no difference,
  unless the row has an empty list: the validator holds nil for it, and the two are not equal.
\<close>

lemma sync_Run_Suc:
  "run_state (syncOnce repo rules) w = ((rules1, changed), w1) \<Longrightarrow>
    run_state (SettingsSynchronizer_Run repo n rules1) w1 = ((rules2, log), w2) \<Longrightarrow>
    run_state (SettingsSynchronizer_Run repo (Suc n) rules) w = ((rules2, changed # log), w2)"
  by simp

lemma sync_tick:
  assumes "up w" and "row w = Some s"
  obtains w1 where "run_state (syncOnce repo rules) w =
      ((if has_settings s rules then rules else apply_settings s rules, \<not> has_settings s rules), w1)"
    and "up w1" and "row w1 = Some s"
  using syncOnce_up [OF assms, of rules] by (auto simp: has_settings_def split: if_splits)

lemma sync_Run_settled:
  "up w \<Longrightarrow> row w = Some s \<Longrightarrow> has_settings s rules \<Longrightarrow>
    \<exists>w'. run_state (SettingsSynchronizer_Run repo n rules) w = ((rules, replicate n False), w')"
proof (induction n arbitrary: w)
  case (Suc n)
  obtain w1 where w1: "run_state (syncOnce repo rules) w = ((rules, False), w1)" "up w1" "row w1 = Some s"
    using sync_tick [OF Suc.prems(1,2), of rules] Suc.prems(3) by auto
  then obtain w' where "run_state (SettingsSynchronizer_Run repo n rules) w1 = ((rules, replicate n False), w')"
    using Suc.IH Suc.prems(3) by blast
  from sync_Run_Suc [OF w1(1) this] show ?case by (simp only: replicate_Suc) blast
qed simp

lemma sync_Run_unsettled:
  "up w \<Longrightarrow> row w = Some s \<Longrightarrow> empty_list s \<Longrightarrow>
    \<exists>w'. run_state (SettingsSynchronizer_Run repo n (apply_settings s rules)) w = ((apply_settings s rules, replicate n True), w')"
proof (induction n arbitrary: w)
  case (Suc n)
  let ?a = "apply_settings s rules"
  obtain w1 where w1: "run_state (syncOnce repo ?a) w = ((?a, True), w1)" "up w1" "row w1 = Some s"
    using sync_tick [OF Suc.prems(1,2), of ?a] Suc.prems(3) by (auto simp: has_settings_apply)
  then obtain w' where "run_state (SettingsSynchronizer_Run repo n ?a) w1 = ((?a, replicate n True), w')"
    using Suc.IH Suc.prems(3) by blast
  from sync_Run_Suc [OF w1(1) this] show ?case by (simp only: replicate_Suc) blast
qed simp

lemma sync_Run_all:
  assumes "up w" and "row w = Some s" and "empty_list s \<Longrightarrow> \<not> has_settings s rules"
  shows "\<exists>rules' w'. run_state (SettingsSynchronizer_Run repo (Suc n) rules) w =
      ((rules', (\<not> has_settings s rules) # replicate n (empty_list s)), w') \<and>
    (rules' = apply_settings s rules \<or> has_settings s rules')"
proof -
  let ?r = "if has_settings s rules then rules else apply_settings s rules"
  obtain w1 where w1: "run_state (syncOnce repo rules) w = ((?r, \<not> has_settings s rules), w1)" "up w1" "row w1 = Some s"
    using sync_tick [OF assms(1,2)] by blast
  have "\<exists>w'. run_state (SettingsSynchronizer_Run repo n ?r) w1 = ((?r, replicate n (empty_list s)), w')"
  proof (cases "empty_list s")
    case True
    then show ?thesis using sync_Run_unsettled [OF w1(2,3) True] assms(3) by simp
  next
    case False
    then have "has_settings s ?r" by (simp add: has_settings_apply)
    then show ?thesis using sync_Run_settled [OF w1(2,3)] False by simp
  qed
  then obtain w' where "run_state (SettingsSynchronizer_Run repo n ?r) w1 = ((?r, replicate n (empty_list s)), w')" ..
  from sync_Run_Suc [OF w1(1) this] show ?thesis
    by (intro exI [of _ ?r] exI [of _ w']) (simp add: has_settings_apply)
qed

end

end
