(* ===== verification/Server_State.thy ===== *)
theory Server_State
  imports Upload_Handler
begin

text \<open>
  What a running instance works on: the world it shares with the other instances (the database, the
  bucket) and what it holds in its own memory: the validator's rules, the upload handler's limiter
  and counters, and the method, path and status of the requests it has logged and timed. Handlers that
  only touch the shared part are lifted by \<open>shared\<close>.
\<close>

record 'w server =
  outside_world :: 'w
  rules :: validatorRules
  uploads :: upload_handler
  access_log :: "(string \<times> string \<times> int) list"

definition shared :: "('w, 'a) state \<Rightarrow> ('w server, 'a) state" where
  "shared m = State (\<lambda>s. case run_state m (outside_world s) of (x, w') \<Rightarrow> (x, s\<lparr>outside_world := w'\<rparr>))"

lemma run_shared [simp, run_simps]:
  "run_state (shared m) s = (case run_state m (outside_world s) of (x, w') \<Rightarrow> (x, s\<lparr>outside_world := w'\<rparr>))"
  by (simp add: shared_def)

lemma shared_own [frame]:
  "preserves (same rules) (shared m)" "preserves (same uploads) (shared m)" "preserves (same access_log) (shared m)"
  by (auto simp: preserves_def same_def split: prod.splits)

end
