(* ===== verification/Status_Handlers.thy ===== *)
theory Status_Handlers
  imports Server_State Nodes Repo_Files "HOL-Library.List_Lexorder" "HOL-Library.Char_ord"
begin

text \<open>
  The two handlers that report on the service: \<^verbatim>\<open>internal/stats/handler.go\<close> and
  \<^verbatim>\<open>internal/nodestatus/handler.go\<close>. \<open>write\<close> is \<^verbatim>\<open>prometheus.Counter.Write\<close>: the metric it fills in has
  a counter value or none. JSON objects made from Go maps list their keys in byte order.
\<close>

section \<open>Statistics\<close>

definition readCounterValue :: "(int \<Rightarrow> error + int option) \<Rightarrow> int \<Rightarrow> error + int" where
  "readCounterValue write counter =
    (case write counter of
       Inl err \<Rightarrow> Inl (Wrap ''write counter metric'' err)
     | Inr None \<Rightarrow> Inl (Errorf ''counter metric missing Counter field'')
     | Inr (Some v) \<Rightarrow> Inr v)"

record stats_Response =
  st_ActiveFileCount :: int
  st_ActiveBytes :: int
  st_AverageFileBytes :: int
  st_Breakdown :: "string \<rightharpoonup> int"
  st_UploadsTotal :: int
  st_UploadBytesTotal :: int
  st_UploadErrorsTotal :: int
  st_GeneratedAt :: string

definition json_counts :: "(string \<rightharpoonup> int) \<Rightarrow> json" where
  "json_counts m = JObject (map (\<lambda>k. (k, JInt (case m k of None \<Rightarrow> 0 | Some n \<Rightarrow> n))) (sorted_list_of_set (dom m)))"

definition stats_body :: "stats_Response \<Rightarrow> json" where
  "stats_body b = JObject
    [(''active_file_count'', JInt (st_ActiveFileCount b)), (''active_bytes'', JInt (st_ActiveBytes b)),
     (''average_file_bytes'', JInt (st_AverageFileBytes b)),
     (''content_type_breakdown'', json_counts (st_Breakdown b)),
     (''lifetime_uploads_total'', JInt (st_UploadsTotal b)),
     (''lifetime_upload_bytes_total'', JInt (st_UploadBytesTotal b)),
     (''lifetime_upload_errors_total'', JInt (st_UploadErrorsTotal b)),
     (''generated_at'', JString (st_GeneratedAt b))]"

text \<open>Go's integer division rounds towards zero.\<close>

definition averageBytes :: "Stats \<Rightarrow> int" where
  "averageBytes s = (if ActiveFileCount s > 0
     then sgn (ActiveBytes s) * (\<bar>ActiveBytes s\<bar> div ActiveFileCount s) else 0)"

definition Stats_ServeHTTP ::
  "'w FileRepository \<Rightarrow> (int \<Rightarrow> error + int option) \<Rightarrow> time \<Rightarrow> time \<Rightarrow> ('w server, http_response) state" where
  "Stats_ServeHTTP repo write now generated = do {
     activeStats \<leftarrow> shared (repo_Stats repo now);
     h \<leftarrow> gets uploads;
     State_Monad.return (case activeStats of
       Inl err \<Rightarrow> response_Error 500 ''failed to compute stats''
     | Inr active \<Rightarrow>
     (case readCounterValue write (uploadsTotal h) of
       Inl err \<Rightarrow> response_Error 500 ''failed to read upload metrics''
     | Inr uploadsCount \<Rightarrow>
     (case readCounterValue write (uploadBytesTotal h) of
       Inl err \<Rightarrow> response_Error 500 ''failed to read upload metrics''
     | Inr bytesTotal \<Rightarrow>
     (case readCounterValue write (uploadErrorsTotal h) of
       Inl err \<Rightarrow> response_Error 500 ''failed to read upload metrics''
     | Inr errorsTotal \<Rightarrow>
         response_JSON 200 (Some (stats_body \<lparr>st_ActiveFileCount = ActiveFileCount active,
           st_ActiveBytes = ActiveBytes active, st_AverageFileBytes = averageBytes active,
           st_Breakdown = ContentTypeBreakdown active, st_UploadsTotal = uploadsCount,
           st_UploadBytesTotal = bytesTotal, st_UploadErrorsTotal = errorsTotal,
           st_GeneratedAt = Format 0 generated\<rparr>))))))
   }"

section \<open>Nodes\<close>

text \<open>\<^verbatim>\<open>Time.Sub\<close> stops at the ends of \<^verbatim>\<open>int64\<close>.\<close>

definition Time_Sub :: "time \<Rightarrow> time \<Rightarrow> duration" where
  "Time_Sub t u = max (- (2 ^ 63)) (min (2 ^ 63 - 1) (t - u))"

definition NodeView :: "time \<Rightarrow> NodeStatus \<Rightarrow> json" where
  "NodeView now n = JObject
    ([(''node_id'', JString (NodeID n)), (''hostname'', JString (Hostname n)), (''status'', JString (Status n)),
      (''started_at'', JString (Format 0 (StartedAt n))),
      (''last_heartbeat_at'', JString (Format 0 (LastHeartbeatAt n)))]
     @ (case MarkedOfflineAt n of None \<Rightarrow> [] | Some t \<Rightarrow> [(''marked_offline_at'', JString (Format 0 t))])
     @ [(''seconds_since_heartbeat'', JSeconds (Time_Sub now (LastHeartbeatAt n)))])"

definition Nodes_ServeHTTP :: "'w NodeStatusRepository \<Rightarrow> time \<Rightarrow> ('w, http_response) state" where
  "Nodes_ServeHTTP repo now = do {
     listed \<leftarrow> ListNodeStatus repo;
     State_Monad.return (case listed of
       Inl err \<Rightarrow> response_Error 500 ''failed to list node status''
     | Inr ns \<Rightarrow> response_JSON 200 (Some (JObject
         [(''nodes'', JList (map (NodeView now) ns)), (''generated_at'', JString (Format 0 now))])))
   }"

section \<open>What the numbers mean\<close>

definition total_count :: "(string \<rightharpoonup> int) \<Rightarrow> int" where
  "total_count m = (\<Sum>k \<in> dom m. case m k of None \<Rightarrow> 0 | Some n \<Rightarrow> n)"

lemma total_count_upd:
  assumes "finite (dom m)"
  shows "total_count (m(k \<mapsto> (case m k of None \<Rightarrow> 0 | Some n \<Rightarrow> n) + c)) = total_count m + c"
proof -
  let ?v = "\<lambda>m k. case m k of None \<Rightarrow> 0 | Some (n::int) \<Rightarrow> n"
  let ?m' = "m(k \<mapsto> ?v m k + c)"
  have same: "(\<Sum>x \<in> dom m - {k}. ?v ?m' x) = (\<Sum>x \<in> dom m - {k}. ?v m x)"
    by (rule sum.cong) auto
  have "total_count ?m' = ?v ?m' k + (\<Sum>x \<in> dom m - {k}. ?v ?m' x)"
    using sum.insert_remove [OF assms, of "?v ?m'" k] by (simp add: total_count_def)
  also have "\<dots> = c + (?v m k + (\<Sum>x \<in> dom m - {k}. ?v m x))" using same by simp
  also have "?v m k + (\<Sum>x \<in> dom m - {k}. ?v m x) = total_count m"
  proof (cases "k \<in> dom m")
    case True
    then show ?thesis using sum.remove [OF assms True, of "?v m"] by (simp add: total_count_def)
  next
    case False
    then show ?thesis by (auto simp: total_count_def split: option.splits)
  qed
  finally show ?thesis by (simp only: add.commute)
qed

lemma add_breakdown_total:
  "finite (dom m) \<Longrightarrow> finite (dom (add_breakdown m gs)) \<and>
    total_count (add_breakdown m gs) = total_count m + sum_list (map snd gs)"
  by (induction m gs rule: add_breakdown.induct) (simp_all add: Let_def total_count_upd del: fun_upd_apply)

lemma count_by_key:
  "distinct ks \<Longrightarrow> f ` set xs \<subseteq> set ks \<Longrightarrow>
    sum_list (map (\<lambda>k. length (filter (\<lambda>x. f x = k) xs)) ks) = length xs"
proof (induction xs)
  case (Cons x xs)
  have "sum_list (map (\<lambda>k. length (filter (\<lambda>y. f y = k) (x # xs))) ks) =
      sum_list (map (\<lambda>k. (if f x = k then 1 else 0) + length (filter (\<lambda>y. f y = k) xs)) ks)"
    by (rule arg_cong [where f = sum_list]) auto
  also have "\<dots> = sum_list (map (\<lambda>k. if f x = k then 1 else 0) ks) + length xs"
    using Cons by (simp add: sum_list_addf)
  also have "sum_list (map (\<lambda>k. if f x = k then 1 else 0) ks) = (1 :: nat)"
    using Cons.prems by (simp add: sum_list_distinct_conv_sum_set sum.delta)
  finally show ?case by simp
qed simp

lemma group_by_type_total: "sum_list (map snd (group_by_type rs)) = int (length rs)"
proof -
  have "sum_list (map (\<lambda>t. length (filter (\<lambda>r. ContentType r = t) rs)) (remdups (map ContentType rs))) = length rs"
    by (rule count_by_key) auto
  moreover have "map snd (group_by_type rs) =
      map int (map (\<lambda>t. length (filter (\<lambda>r. ContentType r = t) rs)) (remdups (map ContentType rs)))"
    by (simp add: group_by_type_def)
  ultimately show ?thesis by (simp only: sum_list_of_nat)
qed

lemma breakdown_total:
  "total_count (add_breakdown Map.empty (group_by_type rs)) = int (length rs)"
  using add_breakdown_total [of Map.empty "group_by_type rs"] group_by_type_total [of rs]
  by (simp add: total_count_def)

lemma averageBytes_bounds:
  assumes "0 < ActiveFileCount s" and "0 \<le> ActiveBytes s"
  shows "averageBytes s * ActiveFileCount s \<le> ActiveBytes s \<and> ActiveBytes s < (averageBytes s + 1) * ActiveFileCount s"
proof -
  have "averageBytes s = ActiveBytes s div ActiveFileCount s"
    using assms by (cases "ActiveBytes s = 0") (auto simp: averageBytes_def)
  then show ?thesis using div_facts [OF assms(1), of "ActiveBytes s"] by (simp add: algebra_simps)
qed

end
