(* ===== verification/Migrate.thy ===== *)
theory Migrate
  imports Postgres "HOL-Library.List_Lexorder" "HOL-Library.Char_ord"
begin

text \<open>
  Construction and migration of the database, from \<^verbatim>\<open>internal/metadata/postgres_repository.go\<close> and
  \<^verbatim>\<open>repository.go\<close>. The pool is \<^verbatim>\<open>pgxpool\<close>'s, here its three calls. The migration files are embedded in
  the binary: a list of directory entries and the SQL text of each. What a script does to the tables
  is \<open>apply_script\<close>, a statement like any other: Postgres runs DDL inside the transaction, so that
  script and record take effect together, at the commit, or not at all. The advisory lock keeps other
  instances out meanwhile; it goes with the connection.
\<close>

record 'pool pgx_pool =
  ParseConfig :: "string \<Rightarrow> error option"
  NewWithConfig :: "string \<Rightarrow> int \<Rightarrow> error + 'pool"
  Ping :: "'pool \<Rightarrow> error option"

definition NewPostgresRepository :: "'pool pgx_pool \<Rightarrow> string \<Rightarrow> int \<Rightarrow> error + 'pool" where
  "NewPostgresRepository pgx dsn maxConns =
    (case ParseConfig pgx dsn of
       Some err \<Rightarrow> Inl (Wrap ''parse postgres dsn'' err)
     | None \<Rightarrow>
    (case NewWithConfig pgx dsn maxConns of
       Inl err \<Rightarrow> Inl (Wrap ''open postgres pool'' err)
     | Inr pool \<Rightarrow>
    (case Ping pgx pool of
       Some err \<Rightarrow> Inl (Wrap ''ping postgres'' err)
     | None \<Rightarrow> Inr pool)))"

definition NewRepository :: "'pool pgx_pool \<Rightarrow> string \<Rightarrow> int \<Rightarrow> error + 'pool" where
  "NewRepository pgx dsn maxConns =
    (if \<not> isPostgresDSN dsn then Inl ErrInvalidDSN else NewPostgresRepository pgx dsn maxConns)"

record dir_entry =
  entry_Name :: string
  IsDir :: bool

definition record_migration :: "string \<Rightarrow> ('a pg_scheme, unit) stmt" where
  "record_migration filename w =
    (if filename \<in> set (schema_migrations w) then Inl unique_violation
     else Inr ((), w\<lparr>schema_migrations := schema_migrations w @ [filename]\<rparr>))"

text \<open>
  A transaction works on a copy of the tables, which the commit puts in their place. A rollback, or the
  loss of the connection, drops the copy.
\<close>

definition tx_begin :: "('a pg_scheme, error, 'a pg_scheme) io" where
  "tx_begin = pg_query (\<lambda>w. w)"

definition tx_exec :: "('a pg_scheme, unit) stmt \<Rightarrow> 'a pg_scheme \<Rightarrow> ('a pg_scheme, error, 'a pg_scheme) io" where
  "tx_exec stmt copy =
    pg_exec (\<lambda>w. case stmt copy of Inl e \<Rightarrow> Inl e | Inr (_, copy') \<Rightarrow> Inr (copy', w))"

definition tx_commit :: "'a pg_scheme \<Rightarrow> ('a pg_scheme, error, unit) io" where
  "tx_commit copy = pg_exec (\<lambda>w. Inr ((), copy\<lparr>db_faults := db_faults w\<rparr>))"

definition or_rollback :: "('a pg_scheme, error, 'r) io \<Rightarrow> ('a pg_scheme, error, 'r) io" where
  "or_rollback m = do {
     r \<leftarrow> m;
     case r of
       Inr x \<Rightarrow> State_Monad.return (Inr x)
     | Inl err \<Rightarrow> do { _ \<leftarrow> pg_query (\<lambda>_. ()); State_Monad.return (Inl err) }
   }"

definition run_migration ::
  "(string \<Rightarrow> ('a pg_scheme, unit) stmt) \<Rightarrow> string \<Rightarrow> string \<Rightarrow> ('a pg_scheme, error, unit) io" where
  "run_migration apply_script filename contents =
    tryE tx_begin (Wrap (''begin transaction for migration '' @ filename)) (\<lambda>tx.
    tryE (or_rollback (tx_exec (apply_script contents) tx)) (Wrap (''apply migration '' @ filename)) (\<lambda>tx.
    tryE (or_rollback (tx_exec (record_migration filename) tx)) (Wrap (''record migration '' @ filename)) (\<lambda>tx.
    tryE (tx_commit tx) (Wrap (''commit migration '' @ filename)) (\<lambda>_.
    State_Monad.return (Inr ())))))"

fun migrate_loop ::
  "(string \<Rightarrow> ('a pg_scheme, unit) stmt) \<Rightarrow> (string \<Rightarrow> error + string) \<Rightarrow> string list \<Rightarrow> ('a pg_scheme, error, unit) io" where
  "migrate_loop apply_script ReadFile [] = State_Monad.return (Inr ())"
| "migrate_loop apply_script ReadFile (filename # filenames) =
    tryE (pg_query (\<lambda>w. filename \<in> set (schema_migrations w))) (Wrap (''check migration status for '' @ filename)) (\<lambda>alreadyApplied.
    if alreadyApplied then migrate_loop apply_script ReadFile filenames
    else case ReadFile (''postgres_migrations/'' @ filename) of
        Inl err \<Rightarrow> State_Monad.return (Inl (Wrap (''read migration file '' @ filename) err))
      | Inr contents \<Rightarrow>
          tryE (run_migration apply_script filename contents) (\<lambda>err. err) (\<lambda>_.
          migrate_loop apply_script ReadFile filenames))"

definition migration_names :: "dir_entry list \<Rightarrow> string list" where
  "migration_names entries = sort (map entry_Name (filter (\<lambda>e. \<not> IsDir e) entries))"

definition Migrate ::
  "(string \<Rightarrow> ('a pg_scheme, unit) stmt) \<Rightarrow> (string \<Rightarrow> error + dir_entry list) \<Rightarrow> (string \<Rightarrow> error + string)
    \<Rightarrow> ('a pg_scheme, error, unit) io" where
  "Migrate apply_script ReadDir ReadFile =
    tryE (pg_query (\<lambda>_. ())) (Wrap ''acquire connection for migration'') (\<lambda>_.
    tryE (pg_query (\<lambda>_. ())) (Wrap ''acquire migration advisory lock'') (\<lambda>_. do {
      res \<leftarrow> tryE (pg_query (\<lambda>_. ())) (Wrap ''create schema_migrations table'') (\<lambda>_.
        case ReadDir ''postgres_migrations'' of
          Inl err \<Rightarrow> State_Monad.return (Inl (Wrap ''read postgres migrations directory'' err))
        | Inr entries \<Rightarrow> migrate_loop apply_script ReadFile (migration_names entries));
      _ \<leftarrow> pg_query (\<lambda>_. ());
      State_Monad.return res
    }))"

section \<open>What migrating does\<close>

text \<open>
  A script's effect is on the tables: it neither reads the pending faults nor writes the record of
  migrations.
\<close>

definition is_script :: "('a pg_scheme, unit) stmt \<Rightarrow> bool" where
  "is_script m \<longleftrightarrow>
    (\<forall>w fs. m (w\<lparr>db_faults := fs\<rparr>) =
      (case m w of Inl e \<Rightarrow> Inl e | Inr (x, w') \<Rightarrow> Inr (x, w'\<lparr>db_faults := fs\<rparr>))) \<and>
    (\<forall>w x w'. m w = Inr (x, w') \<longrightarrow> schema_migrations w' = schema_migrations w)"

text \<open>The tables after a list of migration files, each run once and recorded.\<close>

fun apply_files ::
  "(string \<Rightarrow> ('a pg_scheme, unit) stmt) \<Rightarrow> (string \<Rightarrow> error + string) \<Rightarrow> string list \<Rightarrow> 'a pg_scheme \<Rightarrow> 'a pg_scheme option" where
  "apply_files apply_script ReadFile [] w = Some w"
| "apply_files apply_script ReadFile (f # fs) w =
    (case ReadFile (''postgres_migrations/'' @ f) of
       Inl _ \<Rightarrow> None
     | Inr c \<Rightarrow>
    (case apply_script c w of
       Inl _ \<Rightarrow> None
     | Inr (_, w') \<Rightarrow> apply_files apply_script ReadFile fs (w'\<lparr>schema_migrations := schema_migrations w' @ [f]\<rparr>)))"

lemma schema_tables [simp]: "schema_migrations (tables w) = schema_migrations w"
  by (simp add: tables_def)

lemma tables_popped_eq: "w' = popped w \<Longrightarrow> tables w' = tables w"
  by simp

lemma script_tables:
  assumes "is_script m" and "m w = Inr ((), w')"
  shows "m (tables w) = Inr ((), tables w')" and "schema_migrations w' = schema_migrations w"
proof -
  have "m (w\<lparr>db_faults := []\<rparr>) = (case m w of Inl e \<Rightarrow> Inl e | Inr (x, w') \<Rightarrow> Inr (x, w'\<lparr>db_faults := []\<rparr>))"
    using assms(1) by (simp only: is_script_def)
  then show "m (tables w) = Inr ((), tables w')" using assms(2) by (simp add: tables_def)
  show "schema_migrations w' = schema_migrations w" using assms by (auto simp: is_script_def)
qed

lemma tx_begin_cases:
  assumes "run_state tx_begin w = (r, w')"
  shows "w' = popped w" and "r = Inr tx \<Longrightarrow> tx = popped w"
  using assms unfolding tx_begin_def pg_query_def by (auto elim!: pg_exec_cases)

lemma tx_exec_cases:
  assumes "run_state (or_rollback (tx_exec stmt copy)) w = (r, w')"
  shows "tables w' = tables w" and "r = Inr copy' \<Longrightarrow> stmt copy = Inr ((), copy')"
  using assms unfolding or_rollback_def tx_exec_def
  by (auto split: prod.splits sum.splits elim!: pg_exec_cases dest!: pg_query_world)

lemma tx_commit_cases:
  assumes "run_state (tx_commit copy) w = (r, w')"
  shows "r = Inr () \<Longrightarrow> tables w' = tables copy" and "tables w' = tables w \<or> tables w' = tables copy"
  using assms unfolding tx_commit_def by (auto elim!: pg_exec_cases)

lemma script_no_faults:
  assumes "is_script m" and "m (tables w) = Inr ((), w')"
  shows "tables (w'\<lparr>schema_migrations := fs\<rparr>) = w'\<lparr>schema_migrations := fs\<rparr>"
proof -
  have "m (tables w\<lparr>db_faults := []\<rparr>) = Inr ((), w'\<lparr>db_faults := []\<rparr>)"
    using assms by (simp add: is_script_def)
  then have "w'\<lparr>db_faults := []\<rparr> = w'" using assms(2) by (simp add: tables_def)
  from arg_cong [OF this, of db_faults] have "db_faults w' = []" by simp
  then show ?thesis by (cases w') (simp add: tables_def)
qed

text \<open>The two statements inside the transaction: the copy that is committed has run the script and recorded it.\<close>

lemma tx_statements:
  assumes "run_state tx_begin w = (Inr tx, w0)"
    and "run_state (or_rollback (tx_exec m tx)) w0 = (Inr tx1, w1)"
    and "run_state (or_rollback (tx_exec (record_migration f) tx1)) w1 = (Inr tx2, w2)"
    and "is_script m"
  shows "\<exists>v. m (tables w) = Inr ((), v) \<and> f \<notin> set (schema_migrations w) \<and>
    schema_migrations v = schema_migrations w \<and> tables tx2 = v\<lparr>schema_migrations := schema_migrations v @ [f]\<rparr>"
proof -
  have x: "m tx = Inr ((), tx1)" using tx_exec_cases(2) [OF assms(2)] by simp
  have a: "m (tables w) = Inr ((), tables tx1)" "schema_migrations tx1 = schema_migrations w"
    using script_tables [OF assms(4) x] tx_begin_cases(2) [OF assms(1) refl] by simp_all
  have f: "f \<notin> set (schema_migrations w)" "tx2 = tx1\<lparr>schema_migrations := schema_migrations tx1 @ [f]\<rparr>"
    using tx_exec_cases(2) [OF assms(3)] a(2) by (auto simp: record_migration_def split: if_splits)
  have "tables tx2 = tables (tables tx1\<lparr>schema_migrations := schema_migrations (tables tx1) @ [f]\<rparr>)"
    using f(2) by (simp add: tables_def)
  then show ?thesis using a f(1) script_no_faults [OF assms(4) a(1)] by simp
qed

lemma run_migration_cases:
  assumes "run_state (run_migration apply_script f c) w = (res, w')" and "is_script (apply_script c)"
  obtains
    (kept) e where "res = Inl e" and "tables w' = tables w"
  | (applied) w1 where "apply_script c (tables w) = Inr ((), w1)" and "f \<notin> set (schema_migrations w)"
      and "schema_migrations w1 = schema_migrations w"
      and "tables w' = w1\<lparr>schema_migrations := schema_migrations w1 @ [f]\<rparr>"
proof -
  note run = assms(1) [unfolded run_migration_def]
  obtain r0 w0 where b: "run_state tx_begin w = (r0, w0)" by force
  show thesis
  proof (cases r0)
    case (Inl e)
    then show thesis using run b kept tx_begin_cases(1) [OF b] by auto
  next
    case tx: (Inr tx)
    obtain r1 w1 where x: "run_state (or_rollback (tx_exec (apply_script c) tx)) w0 = (r1, w1)" by force
    have same1: "tables w1 = tables w" using tx_exec_cases(1) [OF x] tx_begin_cases(1) [OF b] by simp
    show thesis
    proof (cases r1)
      case (Inl e)
      then show thesis using run b tx x kept same1 by auto
    next
      case tx1: (Inr tx1)
      obtain r2 w2 where y: "run_state (or_rollback (tx_exec (record_migration f) tx1)) w1 = (r2, w2)" by force
      have same2: "tables w2 = tables w" using tx_exec_cases(1) [OF y] same1 by simp
      show thesis
      proof (cases r2)
        case (Inl e)
        then show thesis using run b tx x tx1 y kept same2 by auto
      next
        case tx2: (Inr tx2)
        obtain r3 w3 where z: "run_state (tx_commit tx2) w2 = (r3, w3)" by force
        have w': "w' = w3" "res = Inr () \<Longrightarrow> r3 = Inr ()"
          using run b tx x tx1 y tx2 z by (auto split: sum.splits)
        consider "tables w3 = tables tx2" | "tables w3 = tables w" "r3 \<noteq> Inr ()"
          using tx_commit_cases [OF z] same2 by auto
        then show thesis
        proof cases
          case 1
          then show thesis
            using tx_statements [OF b [unfolded tx] x [unfolded tx1] y [unfolded tx2] assms(2)] applied w'(1) by auto
        qed (use kept w' in \<open>cases res; auto\<close>)
      qed
    qed
  qed
qed

definition pending_migrations :: "string list \<Rightarrow> 'a pg_scheme \<Rightarrow> string list" where
  "pending_migrations names w = filter (\<lambda>f. f \<notin> set (schema_migrations w)) names"

lemma pending_tables [simp]: "pending_migrations names (tables w) = pending_migrations names w"
  by (simp add: pending_migrations_def)

lemma pending_cong: "tables w' = tables w \<Longrightarrow> pending_migrations names w' = pending_migrations names w"
  by (metis pending_tables)

lemma migrate_loop_step:
  assumes "run_state (migrate_loop apply_script ReadFile (f # names)) w = (res, w')"
  obtains
    (stopped) "res \<noteq> Inr ()" and "tables w' = tables w"
  | (recorded) w0 where "f \<in> set (schema_migrations w)" and "tables w0 = tables w"
      and "run_state (migrate_loop apply_script ReadFile names) w0 = (res, w')"
  | (runs) c w0 r w1 where "f \<notin> set (schema_migrations w)" and "ReadFile (''postgres_migrations/'' @ f) = Inr c"
      and "tables w0 = tables w" and "run_state (run_migration apply_script f c) w0 = (r, w1)"
      and "case r of Inl e \<Rightarrow> res = Inl e \<and> w' = w1
           | Inr u \<Rightarrow> run_state (migrate_loop apply_script ReadFile names) w1 = (res, w')"
proof -
  obtain r0 w0 where q: "run_state (pg_query (\<lambda>w. f \<in> set (schema_migrations w))) w = (r0, w0)" by force
  have w0: "tables w0 = tables w" using pg_query_world [OF q] by simp
  note run = assms [unfolded migrate_loop.simps]
  show thesis
  proof (cases r0)
    case (Inl e)
    then show thesis using run q w0 stopped by auto
  next
    case applied: (Inr applied)
    then have a: "applied \<longleftrightarrow> f \<in> set (schema_migrations w)"
      using q unfolding pg_query_def by (auto elim!: pg_exec_cases)
    show thesis
    proof (cases "\<not> applied \<and> (\<exists>c. ReadFile (''postgres_migrations/'' @ f) = Inr c)")
      case False
      then show thesis using run q applied a w0 stopped recorded by (auto split: if_splits sum.splits)
    next
      case True
      then obtain c where c: "\<not> applied" "ReadFile (''postgres_migrations/'' @ f) = Inr c" by blast
      obtain r w1 where m: "run_state (run_migration apply_script f c) w0 = (r, w1)" by force
      show thesis
        by (rule runs [OF _ c(2) w0 m]) (use run q applied a c m in \<open>auto split: sum.splits\<close>)
    qed
  qed
qed

lemma migrate_loop_cases:
  fixes w :: "'a pg_scheme"
  assumes "run_state (migrate_loop apply_script ReadFile names) w = (res, w')"
    and "\<And>c. is_script (apply_script c)" and "distinct names"
  shows "\<exists>n. apply_files apply_script ReadFile (take n (pending_migrations names w)) (tables w) = Some (tables w') \<and>
    (res = Inr () \<longrightarrow> length (pending_migrations names w) \<le> n)"
  using assms(1,3)
proof (induction names arbitrary: w)
  case Nil
  then show ?case by (simp add: pending_migrations_def)
next
  case (Cons f names)
  from Cons.prems(1) show ?case
  proof (cases rule: migrate_loop_step)
    case stopped
    then show ?thesis by (intro exI [of _ 0]) simp
  next
    case (recorded w0)
    have "pending_migrations (f # names) w = pending_migrations names w0"
      using recorded(1) pending_cong [OF recorded(2)] by (simp add: pending_migrations_def)
    then show ?thesis using Cons.IH [OF recorded(3)] Cons.prems(2) recorded(2) by simp
  next
    case (runs c w0 r w1)
    have pend: "pending_migrations (f # names) w = f # pending_migrations names w"
      using runs(1) by (simp add: pending_migrations_def)
    from runs(4) assms(2) show ?thesis
    proof (cases rule: run_migration_cases)
      case (kept e)
      then show ?thesis using runs(3,5) by (intro exI [of _ 0]) auto
    next
      case (applied v)
      have "schema_migrations w1 = schema_migrations w @ [f]"
        using arg_cong [OF applied(4), of schema_migrations] arg_cong [OF runs(3), of schema_migrations] applied(3) by simp
      then have pend1: "pending_migrations names w1 = pending_migrations names w"
        using Cons.prems(2) by (auto simp: pending_migrations_def intro!: filter_cong)
      have step: "apply_files apply_script ReadFile (f # xs) (tables w) = apply_files apply_script ReadFile xs (tables w1)" for xs
        using runs(2,3) applied(1,4) by simp
      show ?thesis
      proof (cases r)
        case (Inl e)
        then show ?thesis using runs(5) step [of "[]"] pend by (intro exI [of _ 1]) simp
      next
        case (Inr u)
        then obtain n where "apply_files apply_script ReadFile (take n (pending_migrations names w1)) (tables w1) = Some (tables w')"
          "res = Inr () \<longrightarrow> length (pending_migrations names w1) \<le> n"
          using Cons.IH [of w1] Cons.prems(2) runs(5) by auto
        then show ?thesis using step pend pend1 by (intro exI [of _ "Suc n"]) simp
      qed
    qed
  qed
qed

lemma apply_files_recorded:
  assumes "apply_files apply_script ReadFile fs w = Some w'" and "\<And>c. is_script (apply_script c)"
  shows "schema_migrations w' = schema_migrations w @ fs"
  using assms(1)
proof (induction fs arbitrary: w)
  case (Cons f fs)
  then obtain c w1 where c: "apply_script c w = Inr ((), w1)"
    "apply_files apply_script ReadFile fs (w1\<lparr>schema_migrations := schema_migrations w1 @ [f]\<rparr>) = Some w'"
    by (auto split: sum.splits prod.splits)
  then show ?case using Cons.IH [OF c(2)] script_tables(2) [OF assms(2) c(1)] by simp
qed simp

lemma distinct_migration_names:
  "distinct (map entry_Name entries) \<Longrightarrow> distinct (migration_names entries)"
  by (simp add: migration_names_def)

lemma Migrate_result:
  assumes "run_state (Migrate apply_script ReadDir ReadFile) w = (res, w')"
    and "\<And>c. is_script (apply_script c)" and "ReadDir ''postgres_migrations'' = Inr entries"
    and "distinct (map entry_Name entries)"
  shows "\<exists>n. apply_files apply_script ReadFile (take n (pending_migrations (migration_names entries) w)) (tables w) = Some (tables w') \<and>
    (res = Inr () \<longrightarrow> length (pending_migrations (migration_names entries) w) \<le> n)"
proof -
  note run = assms(1) [unfolded Migrate_def assms(3)]
  obtain r0 w0 where a: "run_state (pg_query (\<lambda>_. ())) w = (r0, w0)" by (cases "run_state (pg_query (\<lambda>_. ())) w")
  obtain r1 w1 where l: "run_state (pg_query (\<lambda>_. ())) w0 = (r1, w1)" by (cases "run_state (pg_query (\<lambda>_. ())) w0")
  obtain r2 w2 where t: "run_state (pg_query (\<lambda>_. ())) w1 = (r2, w2)" by (cases "run_state (pg_query (\<lambda>_. ())) w1")
  have same: "tables w0 = tables w" "tables w1 = tables w" "tables w2 = tables w"
    using pg_query_world [OF a] pg_query_world [OF l] pg_query_world [OF t] by simp_all
  show ?thesis
  proof (cases "(\<exists>e. r0 = Inl e) \<or> (\<exists>e. r1 = Inl e) \<or> (\<exists>e. r2 = Inl e)")
    case True
    then have "tables w' = tables w \<and> res \<noteq> Inr ()"
      using run a l t same by (auto split: sum.splits prod.splits dest!: pg_query_world)
    then show ?thesis by (intro exI [of _ 0]) simp
  next
    case False
    then obtain r3 w3 where m: "run_state (migrate_loop apply_script ReadFile (migration_names entries)) w2 = (r3, w3)"
      and "res = r3" "tables w' = tables w3"
      using run a l t by (cases r0; cases r1; cases r2) (auto split: prod.splits dest!: pg_query_world)
    then show ?thesis
      using migrate_loop_cases [OF m assms(2) distinct_migration_names [OF assms(4)]] same pending_cong [OF same(3)] by simp
  qed
qed

text \<open>
  The order, said of the directory's entries: the names strictly increase, and they are those of the entries
  that are not directories.
\<close>

lemma set_migration_names: "set (migration_names entries) = {entry_Name e |e. e \<in> set entries \<and> \<not> IsDir e}"
  by (auto simp: migration_names_def)

lemma sorted_migration_names:
  assumes "distinct (map entry_Name entries)"
  shows "sorted_wrt (<) (migration_names entries)"
  using distinct_migration_names [OF assms] by (simp add: strict_sorted_iff migration_names_def)

lemma pending_names:
  assumes "distinct (map entry_Name entries)"
  shows "sorted_wrt (<) (pending_migrations (migration_names entries) w)"
    and "set (pending_migrations (migration_names entries) w) =
      {entry_Name e |e. e \<in> set entries \<and> \<not> IsDir e} - set (schema_migrations w)"
  using sorted_migration_names [OF assms] set_migration_names [of entries]
  by (auto simp: pending_migrations_def sorted_wrt_filter)

section \<open>While the database answers\<close>

lemma script_faults:
  assumes "is_script m" and "m w = Inr ((), w')" and "db_faults w = []"
  shows "db_faults w' = []"
proof -
  have "m (w\<lparr>db_faults := []\<rparr>) = (case m w of Inl e \<Rightarrow> Inl e | Inr (x, w') \<Rightarrow> Inr (x, w'\<lparr>db_faults := []\<rparr>))"
    using assms(1) by (simp only: is_script_def)
  moreover have "w\<lparr>db_faults := []\<rparr> = w" using assms(3) by (cases w) simp
  ultimately have "w' = w'\<lparr>db_faults := []\<rparr>" using assms(2) by simp
  from arg_cong [OF this, of db_faults] show ?thesis by simp
qed

lemma run_migration_up:
  assumes "db_faults w = []" and "is_script (apply_script c)" and "apply_script c w = Inr ((), w1)"
    and "f \<notin> set (schema_migrations w)"
  shows "run_state (run_migration apply_script f c) w = (Inr (), w1\<lparr>schema_migrations := schema_migrations w1 @ [f]\<rparr>)"
proof -
  note same = script_tables(2) [OF assms(2,3)] and up = script_faults [OF assms(2,3) assms(1)]
  show ?thesis
    using assms same up
    by (simp add: run_migration_def or_rollback_def tx_begin_def tx_exec_def tx_commit_def record_migration_def
        pg_query_def run_pg_exec_ok)
qed

lemma migrate_loop_up:
  fixes w :: "'a pg_scheme"
  assumes "db_faults w = []" and "\<And>c. is_script (apply_script c)" and "distinct names"
    and "apply_files apply_script ReadFile (pending_migrations names w) w = Some v"
  shows "\<exists>w'. run_state (migrate_loop apply_script ReadFile names) w = (Inr (), w') \<and> db_faults w' = []"
  using assms(1,3,4)
proof (induction names arbitrary: w)
  case (Cons f names)
  show ?case
  proof (cases "f \<in> set (schema_migrations w)")
    case True
    then show ?thesis
      using Cons by (simp add: pg_query_def run_pg_exec_ok pending_migrations_def)
  next
    case False
    then obtain c w1 where c: "ReadFile (''postgres_migrations/'' @ f) = Inr c" "apply_script c w = Inr ((), w1)"
      and rest: "apply_files apply_script ReadFile (pending_migrations names w)
        (w1\<lparr>schema_migrations := schema_migrations w1 @ [f]\<rparr>) = Some v"
      using Cons.prems(3) by (auto simp: pending_migrations_def split: sum.splits prod.splits)
    let ?w1 = "w1\<lparr>schema_migrations := schema_migrations w1 @ [f]\<rparr>"
    note run = run_migration_up [of w apply_script c w1 f, OF Cons.prems(1) assms(2) c(2) False]
    have "pending_migrations names ?w1 = pending_migrations names w"
      using Cons.prems(2) script_tables(2) [OF assms(2) c(2)]
      by (auto simp: pending_migrations_def intro!: filter_cong)
    moreover have "db_faults ?w1 = []"
      using script_faults [OF assms(2) c(2) Cons.prems(1)] by simp
    ultimately obtain w' where "run_state (migrate_loop apply_script ReadFile names) ?w1 = (Inr (), w')" "db_faults w' = []"
      using Cons.IH [of ?w1] Cons.prems(2) rest by auto
    then show ?thesis using run c(1) False Cons.prems(1) by (simp add: pg_query_def run_pg_exec_ok)
  qed
qed simp

lemma Migrate_up:
  assumes "db_faults w = []" and "\<And>c. is_script (apply_script c)"
    and "ReadDir ''postgres_migrations'' = Inr entries" and "distinct (map entry_Name entries)"
    and "apply_files apply_script ReadFile (pending_migrations (migration_names entries) w) w \<noteq> None"
  shows "\<exists>w'. run_state (Migrate apply_script ReadDir ReadFile) w = (Inr (), w')"
proof -
  obtain v where "apply_files apply_script ReadFile (pending_migrations (migration_names entries) w) w = Some v"
    using assms(5) by auto
  from migrate_loop_up [OF assms(1,2) distinct_migration_names [OF assms(4)] this]
  obtain w' where "run_state (migrate_loop apply_script ReadFile (migration_names entries)) w = (Inr (), w')"
    "db_faults w' = []" by auto
  then show ?thesis using assms(1,3) by (simp add: Migrate_def pg_query_def run_pg_exec_ok)
qed

end
