(* ===== verification/Logger.thy ===== *)
theory Logger
  imports Go_Time Errors
begin

text \<open>
  \<^verbatim>\<open>internal/logger/logger.go\<close>: the choice of the handler and the coloured one. A \<^verbatim>\<open>slog.Value\<close> is a time
  (with the offset of its zone), a duration, or anything else, given by its \<^verbatim>\<open>%v\<close> text. \<open>quote\<close> is
  the \<^verbatim>\<open>%q\<close> verb, \<open>show_duration\<close> is \<^verbatim>\<open>Duration.String\<close>, \<open>write\<close> is \<^verbatim>\<open>io.WriteString\<close> on the output. The
  mutex makes a line one write.
\<close>

definition escape :: "string \<Rightarrow> string" where
  "escape s = CHR 0x1B # CHR ''['' # s @ ''m''"

definition colorReset :: string where "colorReset = escape ''0''"
definition colorGray :: string where "colorGray = escape ''90''"
definition colorRed :: string where "colorRed = escape ''31''"
definition colorGreen :: string where "colorGreen = escape ''32''"
definition colorYellow :: string where "colorYellow = escape ''33''"
definition colorBlue :: string where "colorBlue = escape ''34''"
definition colorCyan :: string where "colorCyan = escape ''36''"
definition colorBold :: string where "colorBold = escape ''1''"

definition LevelInfo :: int where "LevelInfo = 0"
definition LevelWarn :: int where "LevelWarn = 4"
definition LevelError :: int where "LevelError = 8"

datatype slog_Value = TimeValue int time | DurationValue duration | AnyValue string

type_synonym Attr = "string \<times> slog_Value"

record log_record =
  record_Time :: time
  record_Zone :: int
  record_Level :: int
  record_Message :: string
  record_Attrs :: "Attr list"

record prettyHandler =
  pretty_level :: int
  attrs :: "Attr list"
  groups :: "string list"

definition newPrettyHandler :: "int \<Rightarrow> prettyHandler" where
  "newPrettyHandler level = \<lparr>pretty_level = level, attrs = [], groups = []\<rparr>"

text \<open>\<^verbatim>\<open>os.File.Stat\<close> fails or tells whether the output is a character device.\<close>

definition isTerminal :: "error + bool \<Rightarrow> bool" where
  "isTerminal stat = (case stat of Inl _ \<Rightarrow> False | Inr charDevice \<Rightarrow> charDevice)"

datatype log_handler = PrettyHandler prettyHandler | JSONHandler int

definition logger_New :: "error + bool \<Rightarrow> log_handler" where
  "logger_New stat = (if isTerminal stat then PrettyHandler (newPrettyHandler LevelInfo) else JSONHandler LevelInfo)"

definition Enabled :: "prettyHandler \<Rightarrow> int \<Rightarrow> bool" where
  "Enabled h level \<longleftrightarrow> level \<ge> pretty_level h"

definition WithAttrs :: "prettyHandler \<Rightarrow> Attr list \<Rightarrow> prettyHandler" where
  "WithAttrs h new = h\<lparr>attrs := attrs h @ new\<rparr>"

definition WithGroup :: "prettyHandler \<Rightarrow> string \<Rightarrow> prettyHandler" where
  "WithGroup h name = h\<lparr>groups := groups h @ [name]\<rparr>"

definition levelBadge :: "int \<Rightarrow> string" where
  "levelBadge level =
    (if level \<ge> LevelError then colorRed @ colorBold @ ''ERROR'' @ colorReset
     else if level \<ge> LevelWarn then colorYellow @ colorBold @ ''WARN '' @ colorReset
     else if level \<ge> LevelInfo then colorGreen @ colorBold @ ''INFO '' @ colorReset
     else colorBlue @ colorBold @ ''DEBUG'' @ colorReset)"

fun formatValue :: "(string \<Rightarrow> string) \<Rightarrow> (duration \<Rightarrow> string) \<Rightarrow> slog_Value \<Rightarrow> string" where
  "formatValue quote show_duration (TimeValue off t) = Format off t"
| "formatValue quote show_duration (DurationValue d) = show_duration d"
| "formatValue quote show_duration (AnyValue s) =
    (if \<exists>c \<in> set [CHR '' '', CHR 0x09, CHR 0x22]. c \<in> set s then quote s else s)"

text \<open>The layout \<^verbatim>\<open>15:04:05.000\<close>.\<close>

definition clock :: "int \<Rightarrow> time \<Rightarrow> string" where
  "clock off t =
    (let ns = (t + off * Second) mod Day_length; s = ns div Second
     in two_digits (s div 3600) @ '':'' @ two_digits (s div 60 mod 60) @ '':'' @ two_digits (s mod 60) @ ''.''
        @ show_padded 3 (nat (ns mod Second div 1000000)))"

definition pretty_field ::
  "(string \<Rightarrow> string) \<Rightarrow> (duration \<Rightarrow> string) \<Rightarrow> string list \<Rightarrow> Attr \<Rightarrow> string" where
  "pretty_field quote show_duration gs a =
    (let key = (if gs \<noteq> [] then Join gs ''.'' @ ''.'' @ fst a else fst a)
     in '' '' @ colorCyan @ key @ colorReset @ ''='' @ formatValue quote show_duration (snd a))"

definition pretty_line ::
  "(string \<Rightarrow> string) \<Rightarrow> (duration \<Rightarrow> string) \<Rightarrow> prettyHandler \<Rightarrow> log_record \<Rightarrow> string" where
  "pretty_line quote show_duration h r =
    colorGray @ clock (record_Zone r) (record_Time r) @ colorReset @ '' '' @ levelBadge (record_Level r) @ '' ''
    @ colorBold @ record_Message r @ colorReset
    @ concat (map (pretty_field quote show_duration (groups h)) (attrs h @ record_Attrs r)) @ [CHR 0x0A]"

definition Handle ::
  "(string \<Rightarrow> string) \<Rightarrow> (duration \<Rightarrow> string) \<Rightarrow> (string \<Rightarrow> ('o, error option) state) \<Rightarrow> prettyHandler \<Rightarrow> log_record
    \<Rightarrow> ('o, error option) state" where
  "Handle quote show_duration write h r = write (pretty_line quote show_duration h r)"

section \<open>One record, one line?\<close>

definition newlines :: "string \<Rightarrow> nat" where
  "newlines s = length (filter (\<lambda>c. c = CHR 0x0A) s)"

lemma newlines_append [simp]: "newlines (s @ t) = newlines s + newlines t"
  by (simp add: newlines_def)

lemma newlines_Cons [simp]: "newlines (c # s) = (if c = CHR 0x0A then 1 else 0) + newlines s"
  by (simp add: newlines_def)

lemma newlines_Nil [simp]: "newlines [] = 0"
  by (simp add: newlines_def)

lemma newlines_concat: "newlines (concat ss) = sum_list (map newlines ss)"
  by (induction ss) auto

lemma newlines_colors [simp]: "newlines colorReset = 0" "newlines colorGray = 0" "newlines colorRed = 0"
  "newlines colorGreen = 0" "newlines colorYellow = 0" "newlines colorBlue = 0" "newlines colorCyan = 0"
  "newlines colorBold = 0"
  by (simp_all add: colorReset_def colorGray_def colorRed_def colorGreen_def colorYellow_def colorBlue_def
      colorCyan_def colorBold_def escape_def)

lemma newlines_badge [simp]: "newlines (levelBadge level) = 0"
  by (simp add: levelBadge_def)

lemma newlines_digit: "n < 10 \<Longrightarrow> digit n \<noteq> CHR 0x0A"
  using digit_value_digit [of n] by (auto simp: digit_value_def)

lemma newlines_show_nat [simp]: "newlines (show_nat n) = 0"
proof (induction n rule: show_nat.induct)
  case (1 n)
  then show ?case by (simp add: show_nat.simps [of n] newlines_digit)
qed

lemma newlines_padded [simp]: "newlines (show_padded w n) = 0"
  by (simp add: show_padded_def) (simp add: newlines_def)

lemma newlines_two [simp]: "newlines (two_digits n) = 0"
  by (simp add: two_digits_def)

lemma newlines_clock [simp]: "newlines (clock off t) = 0"
  by (simp add: clock_def Let_def)

lemma newlines_Format [simp]: "newlines (Format off t) = 0"
  by (simp add: Format_def Let_def)

lemma newlines_Join: "newlines (Join gs ''.'') = sum_list (map newlines gs)"
  by (induction gs "''.''" rule: Join.induct) auto

definition value_newlines :: "(string \<Rightarrow> string) \<Rightarrow> (duration \<Rightarrow> string) \<Rightarrow> slog_Value \<Rightarrow> nat" where
  "value_newlines quote show_duration v = newlines (formatValue quote show_duration v)"

lemma pretty_line_newlines:
  "newlines (pretty_line quote show_duration h r) = 1 + newlines (record_Message r) +
    sum_list (map (\<lambda>a. (if groups h = [] then 0 else sum_list (map newlines (groups h))) + newlines (fst a)
      + value_newlines quote show_duration (snd a)) (attrs h @ record_Attrs r))"
proof -
  have "newlines (pretty_field quote show_duration (groups h) a) =
      (if groups h = [] then 0 else sum_list (map newlines (groups h))) + newlines (fst a)
      + value_newlines quote show_duration (snd a)" for a
    by (simp add: pretty_field_def Let_def newlines_Join value_newlines_def)
  then show ?thesis
    by (simp add: pretty_line_def newlines_concat o_def)
qed

end
