(* ===== verification/Service_Properties.thy ===== *)
theory Service_Properties
  imports Settings Nodes Status_Handlers Ratelimit Migrate Logger Wiring
begin

text \<open>
  The properties of the smaller components: upload settings and their synchronizer, the upload limiter,
  node status, statistics, migrations and the log.
\<close>

section \<open>Upload settings\<close>

text \<open>What an admin may set: a size of 1 to 10240 MB, at least one type, extensions that start with a dot.\<close>

definition acceptable :: "UpdateUploadSettingsInput \<Rightarrow> bool" where
  "acceptable input \<longleftrightarrow> 0 < upd_MaxUploadSizeMB input \<and> upd_MaxUploadSizeMB input \<le> 10240 \<and>
    list_ex (\<lambda>t. TrimSpace t \<noteq> []) (elems (upd_AllowedMimeTypes input)) \<and>
    list_all (\<lambda>e. TrimSpace e = [] \<or> HasPrefix (TrimSpace e) ''.'') (elems (upd_BlockedExtensions input))"

lemma acceptable_validate: "(\<exists>n. validateUploadSettings quote input = Inr n) \<longleftrightarrow> acceptable input"
  by (simp add: validate_Inr acceptable_def list_ex_iff list_all_iff)

text \<open>C25. Settings are changed only to acceptable ones: what is stored has trimmed entries and a size whose
  bytes do not overflow, so that the validator enforces exactly that many megabytes. Anything else is
  answered with \<^verbatim>\<open>ErrInvalidUploadSettings\<close> and changes nothing.\<close>

theorem settings_update_checked:
  assumes "run_state (UpdateUploadSettings quote PostgresSettings now i input) w = (res, w')"
  shows "(\<not> acceptable input \<longrightarrow> (\<exists>e. res = Inl e \<and> errors_Is e ErrInvalidUploadSettings) \<and> w' = w) \<and>
    (case res of
       Inl _ \<Rightarrow> True
     | Inr s \<Rightarrow> upload_settings w' = Some s \<and> settings_UpdatedBy s = Some i \<and>
         maxSizeBytes (apply_settings s vr) = MaxUploadSizeMB s * 1048576 \<and>
         0 < MaxUploadSizeMB s \<and> MaxUploadSizeMB s \<le> 10240 \<and> elems (AllowedMimeTypes s) \<noteq> [] \<and>
         set (elems (AllowedMimeTypes s)) \<union> set (elems (BlockedExtensions s)) \<subseteq> {t. t \<noteq> [] \<and> TrimSpace t = t} \<and>
         set (elems (BlockedExtensions s)) \<subseteq> {e. HasPrefix e ''.''})"
proof (cases "validateUploadSettings quote input")
  case (Inl e)
  then show ?thesis using assms validate_Inl [OF Inl] by (auto simp: UpdateUploadSettings_def)
next
  case (Inr n)
  note valid = Inr [unfolded validate_Inr]
  let ?s = "\<lparr>MaxUploadSizeMB = upd_MaxUploadSizeMB n, AllowedMimeTypes = upd_AllowedMimeTypes n,
      BlockedExtensions = upd_BlockedExtensions n, settings_UpdatedAt = now, settings_UpdatedBy = Some i\<rparr>"
  obtain u w1 where u: "run_state (repo_UpdateUploadSettings PostgresSettings ?s i now) w = (u, w1)" by force
  have acc: "acceptable input" using Inr acceptable_validate by blast
  have run: "w' = w1" "\<And>s. res = Inr s \<Longrightarrow> u = Inr () \<and> s = ?s"
    using assms Inr u by (auto simp: UpdateUploadSettings_def Let_def split: sum.splits)
  have bytes: "maxSizeBytes (apply_settings ?s vr) = MaxUploadSizeMB ?s * 1048576"
    using valid mb_to_bytes by (simp add: apply_settings_def)
  show ?thesis
  proof (cases res)
    case res: (Inr s)
    then have "upload_settings w' = Some ?s"
      using pgsettings.UpdateSettings [OF u] run by simp
    then show ?thesis using res run(2) [OF res] acc bytes valid by (auto simp: filter_empty_conv)
  qed (use acc in simp)
qed

definition example_settings :: UploadSettings where
  "example_settings = \<lparr>MaxUploadSizeMB = 100, AllowedMimeTypes = Some [''image/*''], BlockedExtensions = Some [],
     settings_UpdatedAt = 0, settings_UpdatedBy = None\<rparr>"

definition settings_world :: world where
  "settings_world = empty_world\<lparr>upload_settings := Some example_settings\<rparr>"

lemma settings_world_sel [simp]: "upload_settings settings_world = Some example_settings" "db_faults settings_world = []"
  by (simp_all add: settings_world_def)

theorem settings_update_checked_witness:
  "\<exists>e. run_state (UpdateUploadSettings (\<lambda>s. s) PostgresSettings 5 ''admin-1'' \<lparr>upd_MaxUploadSizeMB = 20000,
      upd_AllowedMimeTypes = Some [''image/*''], upd_BlockedExtensions = None\<rparr>) settings_world = (Inl e, settings_world)"
proof -
  let ?in = "\<lparr>upd_MaxUploadSizeMB = 20000, upd_AllowedMimeTypes = Some [''image/*''], upd_BlockedExtensions = None\<rparr>"
  obtain res w' where run: "run_state (UpdateUploadSettings (\<lambda>s. s) PostgresSettings 5 ''admin-1'' ?in) settings_world = (res, w')"
    by force
  then show ?thesis using settings_update_checked [OF run] by (auto simp: acceptable_def)
qed

text \<open>C34. While the database answers, the first tick of the synchronizer brings the stored settings into
  the validator and further ticks keep them. They find nothing to do exactly if the stored lists are
  not empty: the validator keeps an empty list as nil, which \<^verbatim>\<open>reflect.DeepEqual\<close> tells from the stored
  one, so that an empty list is applied, and logged as a change, at every tick.\<close>

theorem sync_converges:
  assumes "db_faults w = []" and "upload_settings w = Some s"
  shows "\<exists>rules' changed w'.
    run_state (SettingsSynchronizer_Run PostgresSettings (Suc n) (NewValidator m a b)) w =
      ((rules', changed # replicate n (AllowedMimeTypes s = Some [] \<or> BlockedExtensions s = Some [])), w') \<and>
    maxSizeBytes rules' = i64 (MaxUploadSizeMB s * 1024 * 1024) \<and>
    elems (allowedMimeTypes rules') = elems (AllowedMimeTypes s) \<and>
    elems (blockedExtensions rules') = elems (BlockedExtensions s)"
proof -
  let ?r = "NewValidator m a b"
  have nil: "append_nil x \<noteq> Some []" for x :: "string slice" by (simp add: append_nil_def)
  then have "empty_list s \<Longrightarrow> \<not> has_settings s ?r"
    by (auto simp: has_settings_def empty_list_def NewValidator_def Validator_Update_def)
  then obtain rules' w' where run: "run_state (SettingsSynchronizer_Run PostgresSettings (Suc n) ?r) w =
      ((rules', (\<not> has_settings s ?r) # replicate n (empty_list s)), w')"
    and "rules' = apply_settings s ?r \<or> has_settings s rules'"
    using pgsettings.sync_Run_all [OF assms] by blast
  then have "maxSizeBytes rules' = i64 (MaxUploadSizeMB s * 1024 * 1024) \<and>
      elems (allowedMimeTypes rules') = elems (AllowedMimeTypes s) \<and> elems (blockedExtensions rules') = elems (BlockedExtensions s)"
    using has_settings_elems by (auto simp: apply_settings_def)
  then show ?thesis using run unfolding empty_list_def by blast
qed

theorem sync_converges_witness:
  "\<exists>rules' changed w'. run_state (SettingsSynchronizer_Run PostgresSettings 3 (NewValidator 1 None None)) settings_world =
    ((rules', [changed, True, True]), w') \<and> maxSizeBytes rules' = 104857600"
proof -
  have mb: "i64 (MaxUploadSizeMB example_settings * 1024 * 1024) = 104857600"
    using mb_to_bytes [of 100] by (simp add: example_settings_def)
  obtain rules' changed w' where "run_state (SettingsSynchronizer_Run PostgresSettings (Suc 2) (NewValidator 1 None None)) settings_world =
      ((rules', changed # replicate 2 (AllowedMimeTypes example_settings = Some [] \<or> BlockedExtensions example_settings = Some [])), w')"
    and "maxSizeBytes rules' = 104857600"
    using sync_converges [of settings_world example_settings 2 1 None None] mb by auto
  moreover have "Suc 2 = 3" "replicate 2 True = [True, True]" by (simp_all add: numeral_2_eq_2)
  moreover have "BlockedExtensions example_settings = Some []" by (simp add: example_settings_def)
  ultimately show ?thesis by (intro exI [of _ rules'] exI [of _ changed] exI [of _ w']) simp
qed

section \<open>The upload limiter\<close>

text \<open>C23. However many requests come and go in whatever order, those that hold a slot are as many as the
  limiter counts and never more than the configured number; another one is admitted exactly if they are
  fewer, and one that leaves never waits.\<close>

theorem limiter_bounded:
  assumes "NewConcurrencyLimiter n = Some c" and "limiter_step\<^sup>*\<^sup>* (c, {}) (c', A)"
  shows "finite A \<and> in_use c' = card A \<and> int (card A) \<le> n \<and> (fst (TryAcquire c') \<longleftrightarrow> int (card A) < n) \<and>
    (A \<noteq> {} \<longrightarrow> Release c' \<noteq> None)"
proof -
  have "limiter_inv (nat n) (c', A)" using limiter_inv_reach [OF assms(2) limiter_inv_New [OF assms(1)]] .
  moreover have "0 \<le> n" using assms(1) by (auto simp: NewConcurrencyLimiter_def split: if_splits)
  ultimately show ?thesis by (auto simp: limiter_inv_def TryAcquire_def Release_def)
qed

theorem limiter_bounded_witness:
  "\<exists>c c'. NewConcurrencyLimiter 1 = Some c \<and> limiter_step\<^sup>*\<^sup>* (c, {}) (c', {7}) \<and> \<not> fst (TryAcquire c')"
proof -
  let ?c = "\<lparr>capacity = 1, in_use = 0\<rparr>" and ?c' = "\<lparr>capacity = 1, in_use = 1\<rparr>"
  have new: "NewConcurrencyLimiter 1 = Some ?c" by (simp add: NewConcurrencyLimiter_def)
  have "limiter_step (?c, {}) (?c', insert 7 {})" by (rule limiter_step.enter) (simp_all add: TryAcquire_def)
  then have steps: "limiter_step\<^sup>*\<^sup>* (?c, {}) (?c', {7})" by (rule r_into_rtranclp)
  show ?thesis using limiter_bounded [OF new steps] new steps by auto
qed

section \<open>Node status\<close>

text \<open>C32. A heartbeat puts its node online; a sweep of the janitor marks it offline exactly if no less than
  the configured time has passed since, and reports exactly the nodes it marks.\<close>

theorem heartbeat_keeps_online:
  assumes "db_faults w = []" and "distinct (map NodeID (node_status w))" and "rep_repository r = PostgresNodes" and "jan_repository j = PostgresNodes"
    and "run_state (Reporter_beat r now) w = (u, w1)"
    and "run_state (Janitor_sweepOnce j t) w1 = (ids, w2)"
  shows "(rep_nodeID r \<in> set ids \<longleftrightarrow> jan_staleAfter j \<le> t - now) \<and>
    (\<exists>n \<in> set (node_status w2). NodeID n = rep_nodeID r \<and> LastHeartbeatAt n = now \<and>
      Status n = (if jan_staleAfter j \<le> t - now then NodeStatusOffline else NodeStatusOnline)) \<and>
    ids = map NodeID (filter (is_stale (t - jan_staleAfter j)) (node_status w1))"
proof -
  let ?i = "rep_nodeID r" and ?ns = "node_status w1" and ?c = "t - jan_staleAfter j"
  obtain w1' where beat: "run_state (Heartbeat PostgresNodes ?i (rep_hostname r) (rep_startedAt r) now) w = (Inr (), w1')"
      "db_faults w1' = []"
    using pgnodes.Beat_up [OF assms(1)] by blast
  have w1: "w1 = w1'" using assms(3,5) beat by (simp add: Reporter_beat_def)
  have ns: "?ns = upsert_node ?i (rep_hostname r) (rep_startedAt r) now (node_status w)"
    using pgnodes.Beat [OF beat(1)] w1 by simp
  obtain ids' w2' where mark: "run_state (MarkStaleOffline PostgresNodes ?c t) w1 = (Inr ids', w2')"
    using pgnodes.Mark_up [of w1] beat(2) w1 by blast
  have ids: "ids = map NodeID (filter (is_stale ?c) ?ns)" "node_status w2 = mark_stale ?c t ?ns"
    using assms(4,6) mark pgnodes.Mark [OF mark] by (auto simp: Janitor_sweepOnce_def)
  obtain n where n: "n \<in> set ?ns" "NodeID n = ?i" "Status n = NodeStatusOnline" "LastHeartbeatAt n = now"
    using upsert_node_online ns by metis
  have dist: "distinct (map NodeID ?ns)" using upsert_node_ids [OF assms(2)] ns by simp
  have stale: "is_stale ?c n \<longleftrightarrow> jan_staleAfter j \<le> t - now" using n(3,4) by (auto simp: is_stale_def)
  have "?i \<in> set ids \<longleftrightarrow> is_stale ?c n"
  proof
    assume "?i \<in> set ids"
    then have "?i \<in> NodeID ` set (filter (is_stale ?c) ?ns)" by (simp only: ids(1) list.set_map)
    then obtain x where "?i = NodeID x" "x \<in> set (filter (is_stale ?c) ?ns)" by (rule imageE)
    then have x: "x \<in> set ?ns" "is_stale ?c x" "NodeID x = ?i" by simp_all
    have "x = n" by (rule distinct_map_eq [OF dist x(1) n(1)]) (simp only: x(3) n(2))
    then show "is_stale ?c n" using x(2) by (simp only:)
  next
    assume "is_stale ?c n"
    then have "n \<in> set (filter (is_stale ?c) ?ns)" using n(1) by simp
    then show "?i \<in> set ids" unfolding ids(1) list.set_map n(2) [symmetric] by (rule imageI)
  qed
  moreover have "(if is_stale ?c n then n\<lparr>Status := NodeStatusOffline, MarkedOfflineAt := Some t\<rparr> else n) \<in> set (node_status w2)"
    using n(1) unfolding ids(2) mark_stale_def by (auto intro: rev_image_eqI)
  moreover have "NodeID n' = ?i \<and> LastHeartbeatAt n' = now \<and>
      Status n' = (if jan_staleAfter j \<le> t - now then NodeStatusOffline else NodeStatusOnline)"
    if "n' = (if is_stale ?c n then n\<lparr>Status := NodeStatusOffline, MarkedOfflineAt := Some t\<rparr> else n)" for n'
    unfolding stale [symmetric] using n(2-4) by (cases "is_stale ?c n") (simp_all add: that)
  ultimately show ?thesis using stale ids(1) by blast
qed

definition example_reporter :: "world Reporter" where
  "example_reporter = NewReporter PostgresNodes ''node-1'' ''host'' 15 0"

theorem heartbeat_keeps_online_witness:
  "\<exists>w1 ids w2. run_state (Reporter_beat example_reporter 10) empty_world = ((), w1) \<and>
    run_state (Janitor_sweepOnce (NewJanitor PostgresNodes 20 45) 60) w1 = (ids, w2) \<and> ''node-1'' \<in> set ids"
proof -
  obtain w1 where b: "run_state (Reporter_beat example_reporter 10) empty_world = ((), w1)"
    by (metis (full_types) old.unit.exhaust surj_pair)
  obtain ids w2 where j: "run_state (Janitor_sweepOnce (NewJanitor PostgresNodes 20 45) 60) w1 = (ids, w2)" by force
  show ?thesis
    using heartbeat_keeps_online [OF _ _ _ _ b j] b j
    by (auto simp: example_reporter_def NewReporter_def NewJanitor_def empty_world_def)
qed

section \<open>Statistics\<close>

lemma pg_Stats_up:
  assumes "db_faults w = []" and "active = active_rows now (files w)"
  shows "run_state (repo_Stats PostgresFiles now) w =
    (if is_i64 (sum_list (map SizeBytes active))
     then (Inr \<lparr>ActiveFileCount = int (length active), ActiveBytes = sum_list (map SizeBytes active),
             ContentTypeBreakdown = add_breakdown Map.empty (group_by_type active)\<rparr>, w)
     else (Inl (Wrap ''scan active file summary'' (External ''cannot scan numeric into *int64'')), w))"
  using assms by (simp add: PostgresFiles_def pg_Stats_def run_pg_exec_ok summary_stmt_def Let_def)

lemma readCounterValue_cases:
  shows "readCounterValue write c = Inl e \<Longrightarrow> \<forall>v. write c \<noteq> Inr (Some v)"
    and "readCounterValue write c = Inr v \<Longrightarrow> write c = Inr (Some v)"
  by (auto simp: readCounterValue_def split: sum.splits option.splits)

text \<open>C33. While the database answers, the statistics count the files that have not expired and add up
  their sizes; the breakdown by type adds up to the count, and the average is the quotient rounded down.
  Only a total beyond \<^verbatim>\<open>int64\<close> or a counter that cannot be read gives an error.\<close>

theorem stats_consistent:
  assumes "db_faults (outside_world h) = []" and "run_state (Stats_ServeHTTP PostgresFiles write now generated) h = (resp, h')"
    and "active = active_rows now (files (outside_world h))" and "list_all (\<lambda>r. 0 \<le> SizeBytes r) active"
  shows "code resp = 500 \<and> (\<not> is_i64 (sum_list (map SizeBytes active)) \<or>
      (\<exists>c \<in> {uploadsTotal (uploads h), uploadBytesTotal (uploads h), uploadErrorsTotal (uploads h)}. \<forall>v. write c \<noteq> Inr (Some v))) \<or>
    (\<exists>b. resp = response_JSON 200 (Some (stats_body b)) \<and> st_ActiveFileCount b = int (length active) \<and>
      st_ActiveBytes b = sum_list (map SizeBytes active) \<and> total_count (st_Breakdown b) = int (length active) \<and>
      write (uploadsTotal (uploads h)) = Inr (Some (st_UploadsTotal b)) \<and>
      (if active = [] then st_AverageFileBytes b = 0
       else st_AverageFileBytes b * int (length active) \<le> sum_list (map SizeBytes active) \<and>
         sum_list (map SizeBytes active) < (st_AverageFileBytes b + 1) * int (length active)))"
proof -
  let ?sum = "sum_list (map SizeBytes active)"
  let ?st = "\<lparr>ActiveFileCount = int (length active), ActiveBytes = ?sum,
      ContentTypeBreakdown = add_breakdown Map.empty (group_by_type active)\<rparr>"
  let ?C = "{uploadsTotal (uploads h), uploadBytesTotal (uploads h), uploadErrorsTotal (uploads h)}"
  have pos: "0 \<le> ?sum" using assms(4) by (auto simp: list_all_iff intro!: sum_list_nonneg)
  note run = assms(2) [unfolded Stats_ServeHTTP_def] and stats = pg_Stats_up [OF assms(1,3)]
  consider (overflow) "\<not> is_i64 ?sum" | (unread) c e where "is_i64 ?sum" "c \<in> ?C" "readCounterValue write c = Inl e"
    | (read) x y z where "is_i64 ?sum" "readCounterValue write (uploadsTotal (uploads h)) = Inr x"
        "readCounterValue write (uploadBytesTotal (uploads h)) = Inr y"
        "readCounterValue write (uploadErrorsTotal (uploads h)) = Inr z"
    by (metis insertI1 insertI2 sumE)
  then show ?thesis
  proof cases
    case overflow
    then show ?thesis using run stats by (auto simp: run_shared)
  next
    case unread
    moreover have "code resp = 500" using run stats unread by (auto split: sum.splits)
    ultimately show ?thesis using readCounterValue_cases(1) by metis
  next
    case read
    define avg where "avg = averageBytes ?st"
    have avg: "if active = [] then avg = 0 else avg * int (length active) \<le> ?sum \<and> ?sum < (avg + 1) * int (length active)"
      using averageBytes_bounds [of ?st] pos by (auto simp: avg_def averageBytes_def)
    let ?b = "\<lparr>st_ActiveFileCount = int (length active), st_ActiveBytes = ?sum, st_AverageFileBytes = avg,
        st_Breakdown = add_breakdown Map.empty (group_by_type active), st_UploadsTotal = x, st_UploadBytesTotal = y,
        st_UploadErrorsTotal = z, st_GeneratedAt = Format 0 generated\<rparr>"
    have "resp = response_JSON 200 (Some (stats_body ?b))" using run stats read by (simp add: avg_def)
    then show ?thesis using avg breakdown_total [of active] readCounterValue_cases(2) [OF read(2)]
      by (intro disjI2 exI [of _ ?b]) simp
  qed
qed

definition example_server :: "world server" where
  "example_server = \<lparr>outside_world = empty_world\<lparr>files := [example_record]\<rparr>, rules = example_rules,
     uploads = \<lparr>concurrencyLimiter = \<lparr>capacity = 1, in_use = 0\<rparr>, uploadsTotal = 3, uploadBytesTotal = 27,
       uploadErrorsTotal = 1\<rparr>, access_log = []\<rparr>"

theorem stats_consistent_witness:
  "\<exists>b h'. run_state (Stats_ServeHTTP PostgresFiles (\<lambda>c. Inr (Some c)) example_now example_now) example_server =
      (response_JSON 200 (Some (stats_body b)), h') \<and> st_ActiveFileCount b = 1 \<and> st_ActiveBytes b = 9 \<and> st_UploadsTotal b = 3"
proof -
  let ?a = "active_rows example_now (files (outside_world example_server))"
  have active: "?a = [example_record]"
    by (simp add: example_server_def active_rows_def Hour_def Minute_def Second_def)
  have nine: "SizeBytes example_record = 9"
    by (simp add: example_record_def new_record_def example_png_def Let_def)
  obtain resp h' where run: "run_state (Stats_ServeHTTP PostgresFiles (\<lambda>c. Inr (Some c)) example_now example_now) example_server = (resp, h')"
    by force
  have "db_faults (outside_world example_server) = []" by (simp add: example_server_def)
  from stats_consistent [OF this run refl] show ?thesis
    using run by (auto simp: active nine) (auto simp: example_server_def is_i64_def)
qed

section \<open>Migrations\<close>

text \<open>C26. Pending are the files of the directory, no directories among them, that are not recorded yet.
  Whatever fails, migrating leaves the tables as a first part of them makes the tables, run in the order of
  their names, whatever order the directory lists them in, each once and together with its record. If it
  succeeds, every file is recorded; and while the database answers, it succeeds if the files can be read and
  their scripts run in this order.\<close>

theorem migrations_in_order:
  assumes "run_state (Migrate apply_script ReadDir ReadFile) w = (res, w')" and "\<And>c. is_script (apply_script c)"
    and "ReadDir ''postgres_migrations'' = Inr entries" and "distinct (map entry_Name entries)"
  shows "\<exists>applied rest. sorted_wrt (<) (applied @ rest) \<and>
    set (applied @ rest) = {entry_Name e |e. e \<in> set entries \<and> \<not> IsDir e} - set (schema_migrations w) \<and>
    apply_files apply_script ReadFile applied (tables w) = Some (tables w') \<and>
    schema_migrations w' = schema_migrations w @ applied \<and>
    (res = Inr () \<longrightarrow> rest = [] \<and> {entry_Name e |e. e \<in> set entries \<and> \<not> IsDir e} \<subseteq> set (schema_migrations w')) \<and>
    (db_faults w = [] \<and> apply_files apply_script ReadFile (applied @ rest) w \<noteq> None \<longrightarrow> res = Inr ())"
proof -
  let ?p = "pending_migrations (migration_names entries) w"
  obtain n where n: "apply_files apply_script ReadFile (take n ?p) (tables w) = Some (tables w')"
      "res = Inr () \<Longrightarrow> length ?p \<le> n"
    using Migrate_result [OF assms] by blast
  have recorded: "schema_migrations w' = schema_migrations w @ take n ?p"
    using apply_files_recorded [OF n(1) assms(2)] by simp
  have parts: "take n ?p @ drop n ?p = ?p" by simp
  show ?thesis
  proof (intro exI conjI impI)
    show "sorted_wrt (<) (take n ?p @ drop n ?p)" unfolding parts by (rule pending_names(1) [OF assms(4)])
    show "set (take n ?p @ drop n ?p) = {entry_Name e |e. e \<in> set entries \<and> \<not> IsDir e} - set (schema_migrations w)"
      unfolding parts by (rule pending_names(2) [OF assms(4)])
    show "res = Inr () \<Longrightarrow> drop n ?p = []" using n(2) by simp
    assume "res = Inr ()"
    then have "schema_migrations w' = schema_migrations w @ ?p" using n(2) recorded by simp
    then show "{entry_Name e |e. e \<in> set entries \<and> \<not> IsDir e} \<subseteq> set (schema_migrations w')"
      using pending_names(2) [OF assms(4), of w] by auto
  next
    assume "db_faults w = [] \<and> apply_files apply_script ReadFile (take n ?p @ drop n ?p) w \<noteq> None"
    then show "res = Inr ()" using Migrate_up [of w apply_script ReadDir entries ReadFile] assms by auto
  qed (use n(1) recorded in simp_all)
qed

text \<open>A directory that lists its files in another order, and scripts of which the second needs the first.\<close>

definition example_entries :: "dir_entry list" where
  "example_entries = [\<lparr>entry_Name = ''0002.sql'', IsDir = False\<rparr>, \<lparr>entry_Name = ''0001.sql'', IsDir = False\<rparr>]"

definition example_script :: "string \<Rightarrow> (world, unit) stmt" where
  "example_script c w =
    (if c = ''create'' then Inr ((), w\<lparr>files := [example_record]\<rparr>)
     else if files w = [] then Inl (PgError ''42P01'') else Inr ((), w\<lparr>node_status := []\<rparr>))"

definition example_ReadFile :: "string \<Rightarrow> error + string" where
  "example_ReadFile path = Inr (if path = ''postgres_migrations/0001.sql'' then ''create'' else ''alter'')"

lemma two_names:
  assumes "sorted_wrt (<) xs" and "set xs = {''0001.sql'', ''0002.sql''}"
  shows "xs = [''0001.sql'', ''0002.sql'']"
  by (rule sorted_distinct_set_unique) (use assms in \<open>simp_all add: strict_sorted_iff\<close>)

theorem migrations_in_order_witness:
  "\<exists>w'. run_state (Migrate example_script (\<lambda>_. Inr example_entries) example_ReadFile) empty_world = (Inr (), w') \<and>
    schema_migrations w' = [''0001.sql'', ''0002.sql''] \<and> files w' = [example_record]"
proof -
  have script: "is_script (example_script c)" for c
    by (auto simp: is_script_def example_script_def intro!: pg.equality)
  obtain res w' where run: "run_state (Migrate example_script (\<lambda>_. Inr example_entries) example_ReadFile) empty_world = (res, w')"
    by force
  have names: "{entry_Name e |e. e \<in> set example_entries \<and> \<not> IsDir e} = {''0001.sql'', ''0002.sql''}"
    by (force simp: example_entries_def)
  have empty: "schema_migrations empty_world = []" "db_faults empty_world = []" by (simp_all add: empty_world_def)
  have "distinct (map entry_Name example_entries)" by (simp add: example_entries_def)
  from migrations_in_order [OF run script refl this] obtain applied rest
    where order: "sorted_wrt (<) (applied @ rest)"
        "set (applied @ rest) = {entry_Name e |e. e \<in> set example_entries \<and> \<not> IsDir e} - set (schema_migrations empty_world)"
      and run_files: "apply_files example_script example_ReadFile applied (tables empty_world) = Some (tables w')"
      and recorded: "schema_migrations w' = schema_migrations empty_world @ applied" and all: "res = Inr () \<longrightarrow>
        rest = [] \<and> {entry_Name e |e. e \<in> set example_entries \<and> \<not> IsDir e} \<subseteq> set (schema_migrations w')"
      and up: "db_faults empty_world = [] \<and> apply_files example_script example_ReadFile (applied @ rest) empty_world \<noteq> None
        \<longrightarrow> res = Inr ()"
    by (elim exE conjE ) (rule that, assumption+)
  have both: "applied @ rest = [''0001.sql'', ''0002.sql'']"
    using two_names [OF order(1)] order(2) unfolding names empty by simp
  have "res = Inr ()" by (rule up [rule_format], unfold both) (simp add: empty example_script_def example_ReadFile_def)
  then have "applied = [''0001.sql'', ''0002.sql'']" using all both by simp
  moreover from this have "files w' = [example_record]"
    using arg_cong [OF run_files, of "map_option files"] by (simp add: example_script_def example_ReadFile_def tables_def)
  ultimately show ?thesis using run \<open>res = Inr ()\<close> recorded empty by simp
qed

section \<open>The log\<close>

text \<open>The text of an attribute goes into the line unquoted if it has no space, tab or double quote. A
  line break is none of these: such a value, a request's path for one, splits its record, and what comes
  after the break reads as a line of its own.\<close>

theorem log_line_forged:
  assumes "CHR '' '' \<notin> set (s @ t)" and "CHR 0x09 \<notin> set (s @ t)" and "CHR 0x22 \<notin> set (s @ t)"
  shows "\<exists>front back. pretty_line quote show_duration h
      (r\<lparr>record_Attrs := [(key, AnyValue (s @ [CHR 0x0A] @ t))]\<rparr>) = front @ s @ [CHR 0x0A] @ t @ back"
proof -
  let ?v = "s @ [CHR 0x0A] @ t"
  have "formatValue quote show_duration (AnyValue ?v) = ?v" using assms by auto
  then have "\<exists>front. pretty_field quote show_duration (groups h) (key, AnyValue ?v) = front @ ?v"
    by (auto simp: pretty_field_def Let_def)
  then obtain front where "pretty_field quote show_duration (groups h) (key, AnyValue ?v) = front @ ?v" ..
  then show ?thesis
    by (intro exI [of _ "colorGray @ clock (record_Zone r) (record_Time r) @ colorReset @ '' '' @
          levelBadge (record_Level r) @ '' '' @ colorBold @ record_Message r @ colorReset @
          concat (map (pretty_field quote show_duration (groups h)) (attrs h)) @ front"] exI [of _ "[CHR 0x0A]"])
      (simp add: pretty_line_def)
qed

definition example_log :: log_record where
  "example_log = \<lparr>record_Time = 0, record_Zone = 0, record_Level = LevelInfo, record_Message = ''http_request'', record_Attrs = []\<rparr>"

theorem log_line_forged_witness:
  "\<exists>front back. pretty_line (\<lambda>s. s) (\<lambda>_. []) (newPrettyHandler LevelInfo)
      (example_log\<lparr>record_Attrs := [(''path'', AnyValue (''/x'' @ [CHR 0x0A] @ ''forged''))]\<rparr>) =
    front @ ''/x'' @ [CHR 0x0A] @ ''forged'' @ back"
  by (rule log_line_forged) simp_all

end
