(* ===== verification/Admin_Handler.thy ===== *)
theory Admin_Handler
  imports Server_State Admin_Auth Admin_Keys Settings Legal
begin

text \<open>
  \<^verbatim>\<open>internal/admin/handler.go\<close> and the credential check of \<^verbatim>\<open>internal/admin/middleware.go\<close>. A request body is given by what
  \<^verbatim>\<open>json.Decoder.Decode\<close> makes of it, \<open>None\<close> where it reports an error. The session that \<^verbatim>\<open>RequireAdminSession\<close>
  puts into the request's context is the handler's argument, \<open>None\<close> where there is none. \<open>zone\<close> is the
  server's zone, which times read from the database carry; the service's own clock reads UTC.
\<close>

record 'w admin_Service =
  admin_accounts :: "'w AdminRepository"
  admin_keys :: "'w APIKeyRepository"
  admin_settings :: "'w UploadSettingsRepository"
  admin_legal :: "'w LegalDocumentRepository"

definition admin_NewService ::
  "'w AdminRepository \<Rightarrow> 'w APIKeyRepository \<Rightarrow> 'w UploadSettingsRepository \<Rightarrow> 'w LegalDocumentRepository
    \<Rightarrow> 'w admin_Service" where
  "admin_NewService accounts keys settings legal =
    \<lparr>admin_accounts = accounts, admin_keys = keys, admin_settings = settings, admin_legal = legal\<rparr>"

section \<open>Who may ask\<close>

definition extractBearerToken :: "http_request \<Rightarrow> string" where
  "extractBearerToken r =
    (let prefix = ''Bearer ''; auth = header r ''Authorization''
     in if length auth > length prefix \<and> take (length prefix) auth = prefix then drop (length prefix) auth else [])"

definition VerifyAPIKeyOrAdminSession :: "'w admin_Service \<Rightarrow> time \<Rightarrow> string \<Rightarrow> ('w, bool) state" where
  "VerifyAPIKeyOrAdminSession s now credential =
    (if credential = [] then State_Monad.return False
     else do {
       session \<leftarrow> VerifySession (admin_accounts s) now credential;
       case session of
         Inr _ \<Rightarrow> State_Monad.return True
       | Inl _ \<Rightarrow> do {
           key \<leftarrow> VerifyAPIKey (admin_keys s) now credential;
           State_Monad.return (case key of Inr _ \<Rightarrow> True | Inl _ \<Rightarrow> False)
         }
     })"

section \<open>Sessions\<close>

record loginRequestBody =
  body_Username :: string
  body_Password :: string

definition Handler_Login ::
  "(string \<Rightarrow> string \<Rightarrow> error option) \<Rightarrow> 'w admin_Service \<Rightarrow> time \<Rightarrow> error + bytes \<Rightarrow> loginRequestBody option
    \<Rightarrow> ('w, http_response) state" where
  "Handler_Login bcrypt s now rand request =
    (case request of
       None \<Rightarrow> State_Monad.return (response_Error 400 ''invalid request body'')
     | Some body \<Rightarrow> do {
         res \<leftarrow> Login bcrypt (admin_accounts s) now rand (body_Username body) (body_Password body);
         State_Monad.return (case res of
           Inl err \<Rightarrow>
             if errors_Is err ErrInvalidCredentials then response_Error 401 ''invalid username or password''
             else response_Error 500 ''failed to log in''
         | Inr result \<Rightarrow> response_JSON 200 (Some (JObject
             [(''token'', JString (login_Token result)), (''username'', JString (Username (login_Admin result))),
              (''expires_at'', JString (Format 0 (session_ExpiresAt (login_Session result))))])))
       })"

definition Handler_Logout :: "'w admin_Service \<Rightarrow> http_request \<Rightarrow> ('w, http_response) state" where
  "Handler_Logout s r = do {
     res \<leftarrow> Logout (admin_accounts s) (extractBearerToken r);
     State_Monad.return (case res of
       Inl err \<Rightarrow> response_Error 500 ''failed to log out''
     | Inr _ \<Rightarrow> response_JSON 200 (Some (JObject [(''logged_out'', JBool True)])))
   }"

definition Me :: "Session option \<Rightarrow> http_response" where
  "Me session =
    (case session of
       None \<Rightarrow> response_Error 500 ''missing session context''
     | Some s \<Rightarrow> response_JSON 200 (Some (JObject [(''username'', JString (Username (sess_Admin s)))])))"

section \<open>API keys\<close>

definition Handler_CreateAPIKey ::
  "'w admin_Service \<Rightarrow> time \<Rightarrow> string \<Rightarrow> error + bytes \<Rightarrow> string option \<Rightarrow> ('w, http_response) state" where
  "Handler_CreateAPIKey s now uuid rand request =
    (case request of
       None \<Rightarrow> State_Monad.return (response_Error 400 ''invalid request body'')
     | Some name \<Rightarrow>
         if TrimSpace name = [] then State_Monad.return (response_Error 400 ''name must not be empty'')
         else do {
           res \<leftarrow> CreateAPIKey (admin_keys s) now uuid rand name;
           State_Monad.return (case res of
             Inl err \<Rightarrow> response_Error 500 ''failed to create api key''
           | Inr result \<Rightarrow> response_JSON 201 (Some (JObject
               [(''id'', JString (key_ID (created_Record result))), (''name'', JString (key_Name (created_Record result))),
                (''key'', JString (created_Key result)),
                (''created_at'', JString (Format 0 (key_CreatedAt (created_Record result))))])))
         })"

definition toAPIKeyResponseBody :: "int \<Rightarrow> APIKey \<Rightarrow> json" where
  "toAPIKeyResponseBody zone key = JObject
    ([(''id'', JString (key_ID key)), (''name'', JString (key_Name key)),
      (''created_at'', JString (Format zone (key_CreatedAt key)))]
     @ json_optional ''last_used_at'' (map_option (Format zone) (key_LastUsedAt key))
     @ json_optional ''revoked_at'' (map_option (Format zone) (RevokedAt key)))"

definition Handler_ListAPIKeys :: "'w admin_Service \<Rightarrow> int \<Rightarrow> ('w, http_response) state" where
  "Handler_ListAPIKeys s zone = do {
     res \<leftarrow> ListAPIKeys (admin_keys s);
     State_Monad.return (case res of
       Inl err \<Rightarrow> response_Error 500 ''failed to list api keys''
     | Inr ks \<Rightarrow> response_JSON 200 (Some (JList (map (toAPIKeyResponseBody zone) ks))))
   }"

definition Handler_RevokeAPIKey :: "'w admin_Service \<Rightarrow> time \<Rightarrow> http_request \<Rightarrow> ('w, http_response) state" where
  "Handler_RevokeAPIKey s now r = do {
     res \<leftarrow> RevokeAPIKey (admin_keys s) now (urlParam r ''id'');
     State_Monad.return (case res of
       Inl err \<Rightarrow> response_Error 500 ''failed to revoke api key''
     | Inr _ \<Rightarrow> response_JSON 200 (Some (JObject [(''revoked'', JBool True)])))
   }"

section \<open>Upload settings\<close>

definition toUploadSettingsResponseBody :: "int \<Rightarrow> UploadSettings \<Rightarrow> json" where
  "toUploadSettingsResponseBody zone settings = JObject
    ([(''max_upload_size_mb'', JInt (MaxUploadSizeMB settings)),
      (''allowed_mime_types'', json_strings (AllowedMimeTypes settings)),
      (''blocked_extensions'', json_strings (BlockedExtensions settings)),
      (''updated_at'', JString (Format zone (settings_UpdatedAt settings)))]
     @ json_optional ''updated_by'' (settings_UpdatedBy settings))"

definition Handler_GetUploadSettings :: "'w admin_Service \<Rightarrow> int \<Rightarrow> ('w, http_response) state" where
  "Handler_GetUploadSettings s zone = do {
     res \<leftarrow> GetUploadSettings (admin_settings s);
     State_Monad.return (case res of
       Inl err \<Rightarrow> response_Error 500 ''failed to get upload settings''
     | Inr settings \<Rightarrow> response_JSON 200 (Some (toUploadSettingsResponseBody zone settings)))
   }"

text \<open>\<open>callback\<close> is \<^verbatim>\<open>onUploadSettingsUpdated\<close>, which \<^verbatim>\<open>main\<close> sets to update the validator.\<close>

definition Handler_UpdateUploadSettings ::
  "(string \<Rightarrow> string) \<Rightarrow> 'w admin_Service \<Rightarrow> (UploadSettings \<Rightarrow> validatorRules \<Rightarrow> validatorRules) option \<Rightarrow> time
    \<Rightarrow> UpdateUploadSettingsInput option \<Rightarrow> Session option \<Rightarrow> ('w server, http_response) state" where
  "Handler_UpdateUploadSettings quote s callback now request session =
    (case request of
       None \<Rightarrow> State_Monad.return (response_Error 400 ''invalid request body'')
     | Some body \<Rightarrow>
    (case session of
       None \<Rightarrow> State_Monad.return (response_Error 500 ''missing session context'')
     | Some sess \<Rightarrow> do {
         res \<leftarrow> shared (UpdateUploadSettings quote (admin_settings s) now (admin_ID (sess_Admin sess)) body);
         case res of
           Inl err \<Rightarrow> State_Monad.return
             (if errors_Is err ErrInvalidUploadSettings then response_Error 400 (Error err)
              else response_Error 500 ''failed to update upload settings'')
         | Inr settings \<Rightarrow> do {
             (case callback of None \<Rightarrow> State_Monad.return ()
              | Some f \<Rightarrow> modify (\<lambda>h. h\<lparr>rules := f settings (rules h)\<rparr>));
             State_Monad.return (response_JSON 200 (Some (toUploadSettingsResponseBody 0 settings)))
           }
       }))"

section \<open>Legal documents\<close>

definition getLegalDocument :: "'w admin_Service \<Rightarrow> int \<Rightarrow> string \<Rightarrow> ('w, http_response) state" where
  "getLegalDocument s zone docType = do {
     res \<leftarrow> GetLegalDocument (admin_legal s) docType;
     State_Monad.return (case res of
       Inl err \<Rightarrow>
         if errors_Is err ErrLegalDocumentNotFound then response_Error 404 ''legal document not found''
         else response_Error 500 ''failed to get legal document''
     | Inr d \<Rightarrow> response_JSON 200 (Some (legal_body zone d)))
   }"

definition updateLegalDocument ::
  "'w admin_Service \<Rightarrow> int \<Rightarrow> time \<Rightarrow> string \<Rightarrow> string option \<Rightarrow> Session option \<Rightarrow> ('w, http_response) state" where
  "updateLegalDocument s zone now docType request session =
    (case request of
       None \<Rightarrow> State_Monad.return (response_Error 400 ''invalid request body'')
     | Some body \<Rightarrow>
    (case session of
       None \<Rightarrow> State_Monad.return (response_Error 500 ''missing session context'')
     | Some sess \<Rightarrow> do {
         res \<leftarrow> UpdateLegalDocument (admin_legal s) now docType body (admin_ID (sess_Admin sess));
         State_Monad.return (case res of
           Inl err \<Rightarrow>
             if errors_Is err ErrLegalDocumentContentEmpty then response_Error 400 (Error err)
             else if errors_Is err ErrLegalDocumentNotFound then response_Error 404 ''legal document not found''
             else response_Error 500 ''failed to update legal document''
         | Inr d \<Rightarrow> response_JSON 200 (Some (legal_body zone d)))
       }))"

definition GetTerms :: "'w admin_Service \<Rightarrow> int \<Rightarrow> ('w, http_response) state" where
  "GetTerms s zone = getLegalDocument s zone LegalDocTerms"

definition UpdateTerms ::
  "'w admin_Service \<Rightarrow> int \<Rightarrow> time \<Rightarrow> string option \<Rightarrow> Session option \<Rightarrow> ('w, http_response) state" where
  "UpdateTerms s zone now = updateLegalDocument s zone now LegalDocTerms"

definition GetPrivacy :: "'w admin_Service \<Rightarrow> int \<Rightarrow> ('w, http_response) state" where
  "GetPrivacy s zone = getLegalDocument s zone LegalDocPrivacy"

definition UpdatePrivacy ::
  "'w admin_Service \<Rightarrow> int \<Rightarrow> time \<Rightarrow> string option \<Rightarrow> Session option \<Rightarrow> ('w, http_response) state" where
  "UpdatePrivacy s zone now = updateLegalDocument s zone now LegalDocPrivacy"

end
