(* ===== verification/Http_Middleware.thy ===== *)
theory Http_Middleware
  imports Admin_Handler
begin

text \<open>
  \<^verbatim>\<open>internal/httpserver/middleware.go\<close>, \<^verbatim>\<open>RequireAdminSession\<close> of \<^verbatim>\<open>internal/admin/middleware.go\<close> and the
  authorisation of \<^verbatim>\<open>/metrics\<close> in \<^verbatim>\<open>router.go\<close>. A request is what the handlers
  read of it, the route pattern the \<^verbatim>\<open>chi\<close> router matched, and what the server reads while it serves the
  request: clocks, fresh ids and random bytes, the decoded body; its context carries a session or none. A handler works on a response
  recorder and the instance's state; it returns, panics, or never returns.

  The middleware nests two recorders around the connection's writer. Both pass on what they are told,
  so they agree as long as a handler runs, and one recorder stands for the three. Headers go out with
  the status; what is set later is lost.
\<close>

record request = http_request +
  Method :: string
  Path :: string
  Pattern :: string
  session_context :: "Session option"
  auth_now :: time
  serve_now :: time
  later_now :: time
  fresh_id :: string
  fresh_bytes :: "error + bytes"
  login_body :: "loginRequestBody option"
  name_body :: "string option"
  settings_body :: "UpdateUploadSettingsInput option"
  content_body :: "string option"
  upload_form :: "int \<Rightarrow> form_result"
  upload_context :: upload_env

abbreviation http :: "request \<Rightarrow> http_request" where
  "http r \<equiv> http_request.truncate r"

lemma http_sel [simp]: "header (http r) = header r" "urlParam (http r) = urlParam r" "query (http r) = query r"
  by (simp_all add: http_request.truncate_def)

record responseRecorder =
  header_map :: "string \<rightharpoonup> string"
  statusCode :: int
  wroteHeader :: bool
  written :: "json list"

datatype outcome = Returned | Panicked | Hangs

type_synonym 'w handler = "request \<Rightarrow> responseRecorder \<Rightarrow> 'w server \<Rightarrow> responseRecorder \<times> outcome \<times> 'w server"

definition fresh_recorder :: responseRecorder where
  "fresh_recorder = \<lparr>header_map = Map.empty, statusCode = 200, wroteHeader = False, written = []\<rparr>"

definition set_header :: "string \<Rightarrow> string \<Rightarrow> responseRecorder \<Rightarrow> responseRecorder" where
  "set_header key v rec = (if wroteHeader rec then rec else rec\<lparr>header_map := (header_map rec)(key \<mapsto> v)\<rparr>)"

definition WriteHeader :: "int \<Rightarrow> responseRecorder \<Rightarrow> responseRecorder" where
  "WriteHeader status rec =
    (if wroteHeader rec then rec else rec\<lparr>wroteHeader := True, statusCode := status\<rparr>)"

definition Write :: "json \<Rightarrow> responseRecorder \<Rightarrow> responseRecorder" where
  "Write b rec =
    (let rec = (if \<not> wroteHeader rec then WriteHeader 200 rec else rec) in rec\<lparr>written := written rec @ [b]\<rparr>)"

text \<open>What \<^verbatim>\<open>response.JSON\<close> does to the writer.\<close>

definition send :: "http_response \<Rightarrow> responseRecorder \<Rightarrow> responseRecorder" where
  "send resp rec =
    (let rec = WriteHeader (code resp) (set_header ''Content-Type'' (content_type resp) rec)
     in case resp_json resp of None \<Rightarrow> rec | Some b \<Rightarrow> Write b rec)"

definition answering :: "(request \<Rightarrow> ('w server, http_response) state) \<Rightarrow> 'w handler" where
  "answering m r rec s = (case run_state (m r) s of (resp, s') \<Rightarrow> (send resp rec, Returned, s'))"

section \<open>Recovery, logging, CORS\<close>

text \<open>
  \<open>latency\<close> is the histogram, \<open>None\<close> for nil: whether \<^verbatim>\<open>WithLabelValues\<close> takes the path and the method as
  labels, or panics.
\<close>

definition RequestLogging :: "(string \<Rightarrow> string \<Rightarrow> bool) option \<Rightarrow> 'w handler \<Rightarrow> 'w handler" where
  "RequestLogging latency next r rec s =
    (case next r rec s of
       (rec', Returned, s') \<Rightarrow>
         (rec',
          case latency of None \<Rightarrow> Returned
          | Some observe \<Rightarrow> if observe (Path r) (Method r) then Returned else Panicked,
          s'\<lparr>access_log := access_log s' @ [(Method r, Path r, statusCode rec')]\<rparr>)
     | unfinished \<Rightarrow> unfinished)"

definition Recovery :: "'w handler \<Rightarrow> 'w handler" where
  "Recovery next r rec s =
    (case next r rec s of
       (rec', Panicked, s') \<Rightarrow>
         (if \<not> wroteHeader rec' then send (response_Error 500 ''internal server error'') rec' else rec', Returned, s')
     | finished \<Rightarrow> finished)"

definition CORS :: "string \<Rightarrow> string \<Rightarrow> 'w handler \<Rightarrow> 'w handler" where
  "CORS allowedOrigin methods next r rec s =
    (let rec = set_header ''Access-Control-Allow-Origin'' allowedOrigin rec;
         rec = set_header ''Access-Control-Allow-Methods'' methods rec;
         rec = set_header ''Access-Control-Allow-Headers'' ''Content-Type, X-Delete-Token, X-Metrics-Token, Authorization'' rec;
         rec = set_header ''Vary'' ''Origin'' rec
     in if Method r = ''OPTIONS'' then (WriteHeader 204 rec, Returned, s) else next r rec s)"

definition noopHandler :: "'w handler" where
  "noopHandler r rec s = (rec, Returned, s)"

section \<open>Authorisation\<close>

definition RequireAdminSession :: "'w admin_Service \<Rightarrow> 'w handler \<Rightarrow> 'w handler" where
  "RequireAdminSession svc next r rec s =
    (case run_state (shared (VerifySession (admin_accounts svc) (auth_now r) (extractBearerToken (http r)))) s of
       (Inl err, s') \<Rightarrow>
         (send (if errors_Is err ErrSessionInvalid then response_Error 401 ''missing or invalid session token''
                else response_Error 500 ''failed to verify session'') rec, Returned, s')
     | (Inr session, s') \<Rightarrow> next (r\<lparr>session_context := Some session\<rparr>) rec s')"

definition extractBearerOrHeaderToken :: "http_request \<Rightarrow> string" where
  "extractBearerOrHeaderToken r =
    (if header r ''X-Metrics-Token'' \<noteq> [] then header r ''X-Metrics-Token''
     else let auth = header r ''Authorization''
          in if HasPrefix auth ''Bearer '' then TrimPrefix auth ''Bearer '' else [])"

definition metricsAuth :: "'w admin_Service option \<Rightarrow> 'w handler \<Rightarrow> 'w handler" where
  "metricsAuth service next r rec s =
    (case service of
       None \<Rightarrow> next r rec s
     | Some svc \<Rightarrow>
         (case run_state (shared (VerifyAPIKeyOrAdminSession svc (auth_now r) (extractBearerOrHeaderToken (http r)))) s of
            (True, s') \<Rightarrow> next r rec s'
          | (False, s') \<Rightarrow> (send (response_Error 401 ''missing or invalid metrics credentials'') rec, Returned, s')))"

section \<open>What the recorder keeps\<close>

lemma send_code: "\<not> wroteHeader rec \<Longrightarrow> statusCode (send resp rec) = code resp \<and> wroteHeader (send resp rec)"
  by (auto simp: send_def WriteHeader_def set_header_def Write_def Let_def split: option.splits)

lemma send_first [simp]:
  "\<not> wroteHeader rec \<Longrightarrow> statusCode (send resp rec) = code resp"
  by (simp add: send_code)

lemma send_headers: "header_map (send resp rec) = (if wroteHeader rec then header_map rec
    else (header_map rec)(''Content-Type'' \<mapsto> content_type resp))"
  by (auto simp: send_def WriteHeader_def set_header_def Write_def Let_def split: option.splits)

lemma send_written:
  "written (send resp rec) = written rec @ (case resp_json resp of None \<Rightarrow> [] | Some b \<Rightarrow> [b])"
  by (auto simp: send_def WriteHeader_def set_header_def Write_def Let_def split: option.splits)

text \<open>CORS lets everything but a preflight through, with its headers set.\<close>

definition cors_headers :: "string \<Rightarrow> string \<Rightarrow> (string \<rightharpoonup> string) \<Rightarrow> (string \<rightharpoonup> string)" where
  "cors_headers origin methods h = h(''Access-Control-Allow-Origin'' \<mapsto> origin, ''Access-Control-Allow-Methods'' \<mapsto> methods,
     ''Access-Control-Allow-Headers'' \<mapsto> ''Content-Type, X-Delete-Token, X-Metrics-Token, Authorization'', ''Vary'' \<mapsto> ''Origin'')"

lemma CORS_fresh:
  "\<not> wroteHeader rec \<Longrightarrow> CORS origin methods next r rec s =
    (let rec' = rec\<lparr>header_map := cors_headers origin methods (header_map rec)\<rparr>
     in if Method r = ''OPTIONS'' then (WriteHeader 204 rec', Returned, s) else next r rec' s)"
  by (simp add: CORS_def set_header_def cors_headers_def Let_def)

end
