(* ===== verification/Router.thy ===== *)
theory Router
  imports Http_Middleware Status_Handlers File_Handler
begin

text \<open>
  \<^verbatim>\<open>internal/httpserver/router.go\<close> and the route registry of \<^verbatim>\<open>middleware.go\<close>. A \<^verbatim>\<open>chi\<close> router maps a
  method and a pattern to the handler registered last for them; matching a path against the patterns
  is \<^verbatim>\<open>chi\<close>'s, and \<open>chi_default\<close> is what it answers where nothing is registered. A router mounted under a
  prefix has its patterns under the prefix.
\<close>

type_synonym 'w router = "string \<times> string \<rightharpoonup> 'w handler"
type_synonym routeRegistry = "string \<Rightarrow> string list"

definition newRouteRegistry :: routeRegistry where
  "newRouteRegistry = (\<lambda>_. [])"

definition chain_middleware :: "('w handler \<Rightarrow> 'w handler) list \<Rightarrow> 'w handler \<Rightarrow> 'w handler" where
  "chain_middleware chain handler = foldr (\<lambda>m wrapped. m wrapped) chain handler"

definition route ::
  "string \<Rightarrow> string \<Rightarrow> string \<Rightarrow> 'w handler \<Rightarrow> ('w handler \<Rightarrow> 'w handler) list \<Rightarrow> routeRegistry \<times> 'w router
    \<Rightarrow> routeRegistry \<times> 'w router" where
  "route allowedOrigin method pattern handler extraMiddleware rt =
    (let reg = fst rt; router = snd rt;
         cors = CORS allowedOrigin (method @ '', OPTIONS'');
         wrapped = chain_middleware (cors # extraMiddleware) handler;
         router = router((method, pattern) \<mapsto> wrapped);
         reg = reg(pattern := reg pattern @ [method]);
         allMethods = Join (reg pattern @ [''OPTIONS'']) '', '';
         preflightCORS = CORS allowedOrigin allMethods
     in (reg, router((''OPTIONS'', pattern) \<mapsto> preflightCORS noopHandler)))"

text \<open>A row of registrations: method, pattern, handler, middleware.\<close>

type_synonym 'w entry = "string \<times> string \<times> 'w handler \<times> ('w handler \<Rightarrow> 'w handler) list"

fun routes :: "string \<Rightarrow> 'w entry list \<Rightarrow> routeRegistry \<times> 'w router \<Rightarrow> routeRegistry \<times> 'w router" where
  "routes origin [] rt = rt"
| "routes origin ((method, pattern, handler, extra) # entries) rt =
    routes origin entries (route origin method pattern handler extra rt)"

definition chi_Method :: "string \<Rightarrow> string \<Rightarrow> 'w handler \<Rightarrow> 'w router \<Rightarrow> 'w router" where
  "chi_Method method pattern h router = router((method, pattern) \<mapsto> h)"

definition chi_methods :: "string list" where
  "chi_methods = [''CONNECT'', ''DELETE'', ''GET'', ''HEAD'', ''OPTIONS'', ''PATCH'', ''POST'', ''PUT'', ''TRACE'']"

definition chi_Handle :: "string \<Rightarrow> 'w handler \<Rightarrow> 'w router \<Rightarrow> 'w router" where
  "chi_Handle pattern h router = fold (\<lambda>method. chi_Method method pattern h) chi_methods router"

definition chi_Route :: "string \<Rightarrow> 'w router \<Rightarrow> 'w router \<Rightarrow> 'w router" where
  "chi_Route prefix sub router =
    router ++ (\<lambda>(method, pattern). if HasPrefix pattern prefix then sub (method, drop (length prefix) pattern) else None)"

section \<open>The routes\<close>

record 'w RouterDependencies =
  dep_unicode :: "string \<Rightarrow> string"
  dep_quote :: "string \<Rightarrow> string"
  dep_bcrypt :: "string \<Rightarrow> string \<Rightarrow> error option"
  dep_zone :: int
  dep_CounterWrite :: "int \<Rightarrow> error + int option"
  dep_promhttp :: "'w handler"
  dep_UploadService :: "'w upload_Service"
  dep_ipHashSalt :: string
  dep_FileService :: "'w file_Service"
  dep_fileTTLHours :: int
  dep_StatsRepository :: "'w FileRepository"
  dep_NodeRepository :: "'w NodeStatusRepository"
  dep_LegalRepository :: "'w LegalDocumentRepository"
  dep_AdminService :: "'w admin_Service"
  dep_onSettings :: "(UploadSettings \<Rightarrow> validatorRules \<Rightarrow> validatorRules) option"
  dep_AllowedOrigin :: string
  dep_RequestLatency :: "(string \<Rightarrow> string \<Rightarrow> bool) option"

definition handleHealthCheck :: "'w handler" where
  "handleHealthCheck r rec s =
    (Write (JObject [(''status'', JString ''ok'')]) (WriteHeader 200 (set_header ''Content-Type'' ''application/json'' rec)),
     Returned, s)"

definition handleHealthCheckHead :: "'w handler" where
  "handleHealthCheckHead r rec s = (WriteHeader 200 (set_header ''Content-Type'' ''application/json'' rec), Returned, s)"

definition filePreflightCORS :: "('w handler \<Rightarrow> 'w handler) \<Rightarrow> ('w handler \<Rightarrow> 'w handler) \<Rightarrow> 'w handler \<Rightarrow> 'w handler" where
  "filePreflightCORS getCORS deleteCORS next r rec s =
    (if header r ''Access-Control-Request-Method'' = ''DELETE'' then deleteCORS next r rec s
     else getCORS next r rec s)"

text \<open>The upload handler waits for ever where the limiter's channel has nothing to receive.\<close>

definition serve_upload :: "'w RouterDependencies \<Rightarrow> 'w handler" where
  "serve_upload d r rec s =
    (case Upload_ServeHTTP (dep_unicode d) (dep_UploadService d) (rules s) (upload_context r) (dep_zone d)
        (dep_ipHashSalt d) (upload_form r) (http r) (uploads s) (outside_world s) of
       None \<Rightarrow> (rec, Hangs, s)
     | Some (resp, h, w) \<Rightarrow> (send resp rec, Returned, s\<lparr>uploads := h, outside_world := w\<rparr>))"

definition admin_table :: "'w RouterDependencies \<Rightarrow> 'w entry list" where
  "admin_table d =
    (let svc = dep_AdminService d; requireAdmin = RequireAdminSession svc; zone = dep_zone d
     in [(''POST'', ''/login'', answering (\<lambda>r. shared (Handler_Login (dep_bcrypt d) svc (serve_now r) (fresh_bytes r) (login_body r))), []),
         (''POST'', ''/logout'', answering (\<lambda>r. shared (Handler_Logout svc (http r))), [requireAdmin]),
         (''GET'', ''/me'', answering (\<lambda>r. State_Monad.return (Me (session_context r))), [requireAdmin]),
         (''POST'', ''/api-keys'', answering (\<lambda>r. shared (Handler_CreateAPIKey svc (serve_now r) (fresh_id r) (fresh_bytes r) (name_body r))), [requireAdmin]),
         (''GET'', ''/api-keys'', answering (\<lambda>r. shared (Handler_ListAPIKeys svc zone)), [requireAdmin]),
         (''DELETE'', ''/api-keys/{id}'', answering (\<lambda>r. shared (Handler_RevokeAPIKey svc (serve_now r) (http r))), [requireAdmin]),
         (''GET'', ''/upload-settings'', answering (\<lambda>r. shared (Handler_GetUploadSettings svc zone)), [requireAdmin]),
         (''PUT'', ''/upload-settings'', answering (\<lambda>r. Handler_UpdateUploadSettings (dep_quote d) svc (dep_onSettings d) (serve_now r) (settings_body r) (session_context r)), [requireAdmin]),
         (''GET'', ''/legal/terms'', answering (\<lambda>r. shared (GetTerms svc zone)), [requireAdmin]),
         (''PUT'', ''/legal/terms'', answering (\<lambda>r. shared (UpdateTerms svc zone (serve_now r) (content_body r) (session_context r))), [requireAdmin]),
         (''GET'', ''/legal/privacy'', answering (\<lambda>r. shared (GetPrivacy svc zone)), [requireAdmin]),
         (''PUT'', ''/legal/privacy'', answering (\<lambda>r. shared (UpdatePrivacy svc zone (serve_now r) (content_body r) (session_context r))), [requireAdmin])])"

definition admin_routes :: "'w RouterDependencies \<Rightarrow> 'w router" where
  "admin_routes d = snd (routes (dep_AllowedOrigin d) (admin_table d) (newRouteRegistry, Map.empty))"

definition file_routes :: "'w RouterDependencies \<Rightarrow> 'w router \<Rightarrow> 'w router" where
  "file_routes d router =
    (let fileGetCORS = CORS ''*'' ''GET, OPTIONS''; fileDeleteCORS = CORS (dep_AllowedOrigin d) ''DELETE, OPTIONS''
     in chi_Method ''OPTIONS'' ''/files/{id}'' (filePreflightCORS fileGetCORS fileDeleteCORS noopHandler)
       (chi_Method ''DELETE'' ''/files/{id}'' (fileDeleteCORS (answering (\<lambda>r. shared (Handler_Delete (dep_FileService d) (serve_now r) (http r)))))
       (chi_Method ''GET'' ''/files/{id}'' (fileGetCORS (answering (\<lambda>r. shared (Handler_GetInfo (dep_FileService d) (dep_zone d) (serve_now r) (http r))))) router)))"

definition public_table :: "'w RouterDependencies \<Rightarrow> 'w entry list" where
  "public_table d =
    [(''GET'', ''/config'', answering (\<lambda>r. gets (\<lambda>s. ConfigHandler_ServeHTTP (dep_fileTTLHours d) (rules s))), []),
     (''GET'', ''/stats'', answering (\<lambda>r. Stats_ServeHTTP (dep_StatsRepository d) (dep_CounterWrite d) (serve_now r) (later_now r)), []),
     (''GET'', ''/nodes'', answering (\<lambda>r. shared (Nodes_ServeHTTP (dep_NodeRepository d) (serve_now r))), []),
     (''GET'', ''/legal/terms'', answering (\<lambda>r. shared (legal_Terms (dep_LegalRepository d) (dep_zone d))), []),
     (''GET'', ''/legal/privacy'', answering (\<lambda>r. shared (legal_Privacy (dep_LegalRepository d) (dep_zone d))), [])]"

definition api_routes :: "'w RouterDependencies \<Rightarrow> 'w router" where
  "api_routes d =
    (let origin = dep_AllowedOrigin d;
         (reg, router) = route origin ''POST'' ''/upload'' (serve_upload d) [] (newRouteRegistry, Map.empty);
         router = file_routes d router;
         router = snd (routes origin (public_table d) (reg, router))
     in chi_Route ''/admin'' (admin_routes d) router)"

definition root_routes :: "'w RouterDependencies \<Rightarrow> 'w router" where
  "root_routes d =
    (let origin = dep_AllowedOrigin d; healthCORS = CORS origin ''GET, HEAD, OPTIONS''; metricsCORS = CORS origin ''GET, OPTIONS''
     in chi_Route ''/api/v1'' (api_routes d)
       (chi_Method ''OPTIONS'' ''/metrics'' (metricsCORS noopHandler)
       (chi_Handle ''/metrics'' (chain_middleware [metricsCORS, metricsAuth (Some (dep_AdminService d))] (dep_promhttp d))
       (chi_Method ''OPTIONS'' ''/healthz'' (healthCORS noopHandler)
       (chi_Method ''HEAD'' ''/healthz'' (healthCORS handleHealthCheckHead)
       (chi_Method ''GET'' ''/healthz'' (healthCORS handleHealthCheck) Map.empty))))))"

definition NewRouter :: "'w RouterDependencies \<Rightarrow> 'w handler \<Rightarrow> 'w handler" where
  "NewRouter d chi_default =
    Recovery (RequestLogging (dep_RequestLatency d) (\<lambda>r. case root_routes d (Method r, Pattern r) of
      Some h \<Rightarrow> h r | None \<Rightarrow> chi_default r))"

section \<open>What the registry guarantees\<close>

text \<open>
  However the rows come, the last row of a method and pattern serves it, behind CORS and its
  middleware, and a preflight of a pattern lists the methods of all its rows.
\<close>

definition entry_handler :: "string \<Rightarrow> 'w entry \<Rightarrow> 'w handler" where
  "entry_handler origin e = (case e of (method, pattern, handler, extra) \<Rightarrow>
     CORS origin (method @ '', OPTIONS'') (chain_middleware extra handler))"

definition methods_of :: "string \<Rightarrow> 'w entry list \<Rightarrow> string list" where
  "methods_of p entries = map fst (filter (\<lambda>e. fst (snd e) = p) entries)"

lemma routes_append: "routes origin (es @ es') rt = routes origin es' (routes origin es rt)"
  by (induction origin es rt rule: routes.induct) simp_all

lemma route_fst: "fst (route origin m p h mw rt) = (fst rt)(p := fst rt p @ [m])"
  by (simp add: route_def Let_def)

lemma route_snd: "snd (route origin m p h mw rt) =
    (snd rt)((m, p) \<mapsto> entry_handler origin (m, p, h, mw),
       (''OPTIONS'', p) \<mapsto> CORS origin (Join (fst rt p @ [m, ''OPTIONS'']) '', '') noopHandler)"
  by (simp add: route_def Let_def entry_handler_def chain_middleware_def)

lemma routes_registry: "fst (routes origin es rt) p = fst rt p @ methods_of p es"
  by (induction origin es rt rule: routes.induct) (simp_all add: route_fst methods_of_def)

lemma routes_preflight:
  assumes "\<forall>e \<in> set es. fst e \<noteq> ''OPTIONS''" and "methods_of p es \<noteq> []"
  shows "snd (routes origin es rt) (''OPTIONS'', p) =
    Some (CORS origin (Join (fst rt p @ methods_of p es @ [''OPTIONS'']) '', '') noopHandler)"
  using assms
proof (induction es rule: rev_induct)
  case (snoc e es)
  obtain m q h mw where e: "e = (m, q, h, mw)" by (cases e)
  have m: "m \<noteq> ''OPTIONS''" using snoc.prems(1) e by simp
  show ?case
  proof (cases "q = p")
    case True
    then show ?thesis using e m by (simp add: routes_append route_snd routes_registry methods_of_def)
  next
    case False
    then show ?thesis using snoc e m by (simp add: routes_append route_snd methods_of_def)
  qed
qed (simp add: methods_of_def)

lemma routes_lookup:
  assumes "m \<noteq> ''OPTIONS''" and "snd (routes origin es rt) (m, p) = Some h"
  shows "snd rt (m, p) = Some h \<or> (\<exists>g mw. (m, p, g, mw) \<in> set es \<and> h = entry_handler origin (m, p, g, mw))"
  using assms(2)
proof (induction es rule: rev_induct)
  case (snoc e es)
  obtain m' q g mw where e: "e = (m', q, g, mw)" by (cases e)
  show ?case
  proof (cases "(m', q) = (m, p)")
    case True
    then have "h = entry_handler origin (m, p, g, mw)"
      using snoc.prems e assms(1) by (simp add: routes_append route_snd)
    then show ?thesis using True e by auto
  next
    case False
    then have "snd (routes origin es rt) (m, p) = Some h"
      using snoc.prems e assms(1) by (auto simp: routes_append route_snd)
    then show ?thesis using snoc.IH by auto
  qed
qed simp

text \<open>What holds of every handler of a router, method by method.\<close>

definition all_routes :: "(string \<Rightarrow> 'w handler \<Rightarrow> bool) \<Rightarrow> 'w router \<Rightarrow> bool" where
  "all_routes P router \<longleftrightarrow> (\<forall>m p h. router (m, p) = Some h \<longrightarrow> P m h)"

lemma all_routesD: "all_routes P router \<Longrightarrow> router (m, p) = Some h \<Longrightarrow> P m h"
  by (auto simp: all_routes_def)

lemma all_routes_empty [simp]: "all_routes P Map.empty"
  by (simp add: all_routes_def)

lemma all_routes_Method: "P m h \<Longrightarrow> all_routes P router \<Longrightarrow> all_routes P (chi_Method m p h router)"
  by (simp add: all_routes_def chi_Method_def)

lemma all_routes_Handle: "(\<And>m. P m h) \<Longrightarrow> all_routes P router \<Longrightarrow> all_routes P (chi_Handle p h router)"
  by (simp add: all_routes_def chi_Handle_def chi_methods_def chi_Method_def)

lemma all_routes_Route: "all_routes P sub \<Longrightarrow> all_routes P router \<Longrightarrow> all_routes P (chi_Route prefix sub router)"
  by (auto simp: all_routes_def chi_Route_def map_add_def split: option.splits if_splits)

lemma all_routes_routes:
  assumes "\<And>m h methods. P m h \<Longrightarrow> P m (CORS origin methods h)" and "\<And>methods. P ''OPTIONS'' (CORS origin methods noopHandler)"
    and "all_routes P (snd rt)" and "\<And>m p h mw. (m, p, h, mw) \<in> set es \<Longrightarrow> P m (chain_middleware mw h)"
  shows "all_routes P (snd (routes origin es rt))"
  using assms(3,4)
proof (induction es rule: rev_induct)
  case (snoc e es)
  obtain m p h mw where e: "e = (m, p, h, mw)" by (cases e)
  have "all_routes P (snd (routes origin es rt))" using snoc.IH snoc.prems by auto
  moreover have "P m (entry_handler origin (m, p, h, mw))"
    using assms(1) [OF snoc.prems(2) [of m p h mw]] e by (simp add: entry_handler_def)
  ultimately show ?case
    by (simp add: e routes_append route_snd all_routes_def assms(2))
qed simp

lemma chi_Route_below: "chi_Route prefix sub router (m, prefix @ p) = (case sub (m, p) of None \<Rightarrow> router (m, prefix @ p) | Some h \<Rightarrow> Some h)"
  by (simp add: chi_Route_def map_add_def)

lemma file_routes_other: "p \<noteq> ''/files/{id}'' \<Longrightarrow> file_routes d router (m, p) = router (m, p)"
  by (simp add: file_routes_def chi_Method_def Let_def)

text \<open>Every admin route but the login runs behind \<^verbatim>\<open>RequireAdminSession\<close>.\<close>

lemma admin_table_guard:
  "(m, p, g, mw) \<in> set (admin_table d) \<Longrightarrow> (m, p) \<noteq> (''POST'', ''/login'') \<Longrightarrow> mw = [RequireAdminSession (dep_AdminService d)]"
  by (auto simp: admin_table_def Let_def)

lemma admin_routes_guard:
  assumes "admin_routes d (m, p) = Some h" and "m \<noteq> ''OPTIONS''" and "(m, p) \<noteq> (''POST'', ''/login'')"
  shows "\<exists>g. h = CORS (dep_AllowedOrigin d) (m @ '', OPTIONS'') (RequireAdminSession (dep_AdminService d) g)"
  using routes_lookup [OF assms(2), of "dep_AllowedOrigin d" "admin_table d" "(newRouteRegistry, Map.empty)" p h] assms
  by (auto simp: admin_routes_def entry_handler_def chain_middleware_def dest!: admin_table_guard)

lemma api_lookup_admin:
  "p \<noteq> [] \<Longrightarrow> api_routes d (m, ''/admin'' @ p) = admin_routes d (m, p)"
proof -
  let ?r = "route (dep_AllowedOrigin d) ''POST'' ''/upload'' (serve_upload d) [] (newRouteRegistry, Map.empty)"
  let ?f = "(fst ?r, file_routes d (snd ?r))"
  have none: "snd (routes (dep_AllowedOrigin d) (public_table d) ?f) (m, ''/admin'' @ p) = None"
    by (simp add: public_table_def route_snd file_routes_other)
  have "api_routes d (m, ''/admin'' @ p) =
      chi_Route ''/admin'' (admin_routes d) (snd (routes (dep_AllowedOrigin d) (public_table d) ?f)) (m, ''/admin'' @ p)"
    by (simp add: api_routes_def Let_def split_def)
  then show ?thesis using none by (simp only: chi_Route_below) (simp split: option.splits)
qed

lemma root_lookup_api:
  "root_routes d (m, ''/api/v1'' @ p) = api_routes d (m, p)"
  unfolding root_routes_def Let_def chi_Route_below
  by (simp add: chi_Method_def chi_Handle_def chi_methods_def split: option.splits)

lemma root_lookup_admin:
  "p \<noteq> [] \<Longrightarrow> root_routes d (m, ''/api/v1/admin'' @ p) = admin_routes d (m, p)"
  using root_lookup_api [of d m "''/admin'' @ p"] api_lookup_admin [of p d m] by simp

lemma root_lookup_metrics:
  "root_routes d (''GET'', ''/metrics'') = Some (CORS (dep_AllowedOrigin d) ''GET, OPTIONS''
     (metricsAuth (Some (dep_AdminService d)) (dep_promhttp d)))"
  by (simp add: root_routes_def Let_def chi_Route_def map_add_def HasPrefix_def chi_Method_def chi_Handle_def
      chi_methods_def chain_middleware_def)

end
