(* ===== verification/Server_Properties.thy ===== *)
theory Server_Properties
  imports Router Schema Wiring
begin

text \<open>
  The properties of the server as a client meets it: that every route answers, that the admin routes and
  the metrics are closed to strangers, and what preflights list. A handler \<open>answers\<close> a method if it writes
  a response, returns and leaves the log to the middleware.
\<close>

section \<open>Handlers that answer\<close>

definition answers :: "string \<Rightarrow> 'w handler \<Rightarrow> bool" where
  "answers m h \<longleftrightarrow> (\<forall>r rec s. Method r = m \<longrightarrow> \<not> wroteHeader rec \<longrightarrow>
     (\<exists>rec' s'. h r rec s = (rec', Returned, s') \<and> wroteHeader rec' \<and> access_log s' = access_log s))"

named_theorems answers

lemma answersI:
  "(\<And>r rec s. Method r = m \<Longrightarrow> \<not> wroteHeader rec \<Longrightarrow>
     \<exists>rec' s'. h r rec s = (rec', Returned, s') \<and> wroteHeader rec' \<and> access_log s' = access_log s) \<Longrightarrow> answers m h"
  by (simp add: answers_def)

lemma answersD:
  assumes "answers m h" and "Method r = m" and "\<not> wroteHeader rec"
  obtains rec' s' where "h r rec s = (rec', Returned, s')" and "wroteHeader rec'" and "access_log s' = access_log s"
  using assms unfolding answers_def by blast

lemma answers_answering [answers]:
  "(\<And>r. preserves (same access_log) (k r)) \<Longrightarrow> answers m (answering k)"
proof (rule answersI)
  fix r :: request and rec :: responseRecorder and s :: "'a server"
  assume keep: "\<And>r. preserves (same access_log) (k r)" and rec: "\<not> wroteHeader rec"
  obtain resp s' where run: "run_state (k r) s = (resp, s')" by force
  have "access_log s' = access_log s" using sameD [OF preservesD [OF keep run]] .
  then show "\<exists>rec' s'. answering k r rec s = (rec', Returned, s') \<and> wroteHeader rec' \<and> access_log s' = access_log s"
    using run rec by (simp add: answering_def send_code)
qed

lemma answers_CORS_OPTIONS [answers]: "answers ''OPTIONS'' (CORS origin methods next)"
  by (rule answersI) (simp add: CORS_fresh WriteHeader_def Let_def)

lemma answers_CORS [answers]: "answers m next \<Longrightarrow> answers m (CORS origin methods next)"
proof (rule answersI)
  fix r :: request and rec :: responseRecorder and s :: "'a server"
  assume next': "answers m next" and r: "Method r = m" "\<not> wroteHeader rec"
  let ?rec = "rec\<lparr>header_map := cors_headers origin methods (header_map rec)\<rparr>"
  obtain rec' s' where "next r ?rec s = (rec', Returned, s')" "wroteHeader rec'" "access_log s' = access_log s"
    using answersD [OF next', of r ?rec s] r by auto
  then show "\<exists>rec' s'. CORS origin methods next r rec s = (rec', Returned, s') \<and> wroteHeader rec' \<and> access_log s' = access_log s"
    using r by (simp add: CORS_fresh WriteHeader_def Let_def)
qed

lemma answers_RequireAdminSession [answers]: "answers m next \<Longrightarrow> answers m (RequireAdminSession svc next)"
proof (rule answersI)
  fix r :: request and rec :: responseRecorder and s :: "'a server"
  assume next': "answers m next" and r: "Method r = m" "\<not> wroteHeader rec"
  obtain v w' where v: "run_state (VerifySession (admin_accounts svc) (auth_now r) (extractBearerToken (http r))) (outside_world s) = (v, w')"
    by force
  show "\<exists>rec' s'. RequireAdminSession svc next r rec s = (rec', Returned, s') \<and> wroteHeader rec' \<and> access_log s' = access_log s"
  proof (cases v)
    case (Inl e)
    then show ?thesis using v r by (simp add: RequireAdminSession_def send_code)
  next
    case (Inr session)
    let ?r = "r\<lparr>session_context := Some session\<rparr>" and ?s = "s\<lparr>outside_world := w'\<rparr>"
    obtain rec' s' where "next ?r rec ?s = (rec', Returned, s')" "wroteHeader rec'" "access_log s' = access_log ?s"
      using answersD [OF next', of ?r rec ?s] r by auto
    then show ?thesis using v Inr by (simp add: RequireAdminSession_def)
  qed
qed

lemma answers_metricsAuth [answers]: "answers m next \<Longrightarrow> answers m (metricsAuth (Some svc) next)"
proof (rule answersI)
  fix r :: request and rec :: responseRecorder and s :: "'a server"
  assume next': "answers m next" and r: "Method r = m" "\<not> wroteHeader rec"
  obtain v w' where v: "run_state (VerifyAPIKeyOrAdminSession svc (auth_now r) (extractBearerOrHeaderToken (http r)))
      (outside_world s) = (v, w')" by force
  let ?s = "s\<lparr>outside_world := w'\<rparr>"
  obtain rec' s' where "next r rec ?s = (rec', Returned, s')" "wroteHeader rec'" "access_log s' = access_log ?s"
    using answersD [OF next', of r rec ?s] r by auto
  then show "\<exists>rec' s'. metricsAuth (Some svc) next r rec s = (rec', Returned, s') \<and> wroteHeader rec' \<and> access_log s' = access_log s"
    using v r by (cases v) (simp_all add: metricsAuth_def send_code)
qed

lemma answers_upload [answers]: "answers m (serve_upload d)"
proof (rule answersI)
  fix r :: request and rec :: responseRecorder and s :: "'a server"
  assume "\<not> wroteHeader rec"
  moreover obtain resp h w where "Upload_ServeHTTP (dep_unicode d) (dep_UploadService d) (rules s) (upload_context r) (dep_zone d)
      (dep_ipHashSalt d) (upload_form r) (http r) (uploads s) (outside_world s) = Some (resp, h, w)"
    by (rule Upload_ServeHTTP_total)
  ultimately show "\<exists>rec' s'. serve_upload d r rec s = (rec', Returned, s') \<and> wroteHeader rec' \<and> access_log s' = access_log s"
    by (simp add: serve_upload_def send_code)
qed

lemma answers_health [answers]: "answers m handleHealthCheck" "answers m handleHealthCheckHead"
  by (rule answersI; simp add: handleHealthCheck_def handleHealthCheckHead_def Write_def WriteHeader_def set_header_def Let_def)+

lemma answers_preflight [answers]:
  "answers ''OPTIONS'' (filePreflightCORS (CORS o1 m1) (CORS o2 m2) next)"
  by (rule answersI)
    (auto simp: filePreflightCORS_def intro: answers_CORS_OPTIONS [unfolded answers_def, rule_format])

lemma log_kept [answers]:
  "preserves (same access_log) (Handler_UpdateUploadSettings quote svc callback now request session)"
  "preserves (same access_log) (Stats_ServeHTTP repo write now later)"
  unfolding Handler_UpdateUploadSettings_def Stats_ServeHTTP_def
  by (auto intro!: frame same_modify shared_own split: option.split sum.split)

section \<open>Routers\<close>

abbreviation all_answer :: "'w router \<Rightarrow> bool" where
  "all_answer \<equiv> all_routes answers"

lemma all_answer_routes:
  "all_answer (snd rt) \<Longrightarrow> (\<And>m p h mw. (m, p, h, mw) \<in> set es \<Longrightarrow> answers m (chain_middleware mw h)) \<Longrightarrow>
    all_answer (snd (routes origin es rt))"
  by (rule all_routes_routes) (auto intro: answers)

lemma admin_routes_answer: "all_answer (admin_routes d)"
  unfolding admin_routes_def
proof (rule all_answer_routes)
  fix m p h mw
  assume "(m, p, h, mw) \<in> set (admin_table d)"
  then show "answers m (chain_middleware mw h)"
    by (auto simp: admin_table_def Let_def chain_middleware_def intro!: answers shared_own)
qed simp

lemma file_routes_answer: "all_answer router \<Longrightarrow> all_answer (file_routes d router)"
  unfolding file_routes_def Let_def by (intro all_routes_Method answers shared_own)

lemma public_routes_answer:
  "all_answer (snd rt) \<Longrightarrow> all_answer (snd (routes origin (public_table d) rt))"
  by (rule all_answer_routes) (auto simp: public_table_def chain_middleware_def intro!: answers shared_own)

lemma api_routes_answer: "all_answer (api_routes d)"
proof -
  let ?r = "route (dep_AllowedOrigin d) ''POST'' ''/upload'' (serve_upload d) [] (newRouteRegistry, Map.empty)"
  have "all_answer (snd ?r)"
    by (simp add: route_snd entry_handler_def chain_middleware_def all_routes_def answers)
  then have "all_answer (snd (routes (dep_AllowedOrigin d) (public_table d) (fst ?r, file_routes d (snd ?r))))"
    by (intro public_routes_answer) (simp add: file_routes_answer)
  then show ?thesis
    unfolding api_routes_def Let_def split_def by (intro all_routes_Route admin_routes_answer)
qed

lemma root_routes_answer:
  assumes "\<And>m. answers m (dep_promhttp d)"
  shows "all_answer (root_routes d)"
  unfolding root_routes_def Let_def chain_middleware_def
  by (auto intro!: all_routes_Route api_routes_answer all_routes_Method all_routes_Handle answers assms)

section \<open>Credentials that are refused\<close>

text \<open>A refusal of an unknown credential reads the tables and leaves them as they are.\<close>

definition refused_quietly :: "'a pg_scheme \<Rightarrow> error + 'r \<Rightarrow> 'a pg_scheme \<Rightarrow> error \<Rightarrow> bool" where
  "refused_quietly w res w' err \<longleftrightarrow> (\<exists>e. res = Inl e \<and> (db_faults w = [] \<longrightarrow> w' = w \<and> errors_Is e err)) \<and> tables w' = tables w"

lemma unknown_session_refused:
  fixes w :: "'a pg_scheme"
  assumes "run_state (VerifySession PostgresAdmins now token) w = (res, w')"
    and "token = [] \<or> sha256_hex token \<notin> session_TokenHash ` set (admin_sessions w)"
  shows "refused_quietly w res w' ErrSessionInvalid"
proof (cases "token = []")
  case True
  then show ?thesis using assms(1) by (auto simp: VerifySession_def refused_quietly_def)
next
  case False
  let ?q = "\<lambda>w::'a pg_scheme. filter (\<lambda>s. session_TokenHash s = sha256_hex token) (admin_sessions w)"
  have none: "?q w = []" using assms(2) False by (force simp: filter_empty_conv)
  obtain f w1 where f: "run_state (find_row ?q ErrAdminSessionNotFound ''scan admin session'') w = (f, w1)"
    by force
  have up: "db_faults w = [] \<Longrightarrow> f = Inl ErrAdminSessionNotFound \<and> w1 = w" using f none by (simp add: find_row_up)
  have same: "?q (w\<lparr>db_faults := fs\<rparr>) = ?q w" for fs by simp
  have f': "\<exists>e. f = Inl e" "tables w1 = tables w"
    by (rule find_row_cases [OF f same]; simp add: none)+
  have "w' = w1" "\<And>e. f = Inl e \<Longrightarrow> res = Inl (if errors_Is e ErrAdminSessionNotFound then ErrSessionInvalid else Wrap ''look up admin session'' e)"
    using assms(1) f f'(1) False
    by (auto simp: VerifySession_def Let_def PostgresAdmins_def pg_FindAdminSessionByTokenHash_def)
  then show ?thesis using up f' by (auto simp: refused_quietly_def)
qed

lemma unknown_key_refused:
  fixes w :: "'a pg_scheme"
  assumes "run_state (VerifyAPIKey PostgresKeys now key) w = (res, w')"
    and "key = [] \<or> list_all (\<lambda>k. key_TokenHash k = sha256_hex key \<longrightarrow> RevokedAt k \<noteq> None) (api_keys w)"
  shows "refused_quietly w res w' ErrAPIKeyInvalid"
proof (cases "key = []")
  case True
  then show ?thesis using assms(1) by (auto simp: VerifyAPIKey_def refused_quietly_def)
next
  case False
  let ?q = "\<lambda>w::'a pg_scheme. filter (\<lambda>k. key_TokenHash k = sha256_hex key) (api_keys w)"
  obtain f w1 where f: "run_state (find_row ?q ErrAPIKeyNotFound ''scan api key'') w = (f, w1)" by force
  have up: "db_faults w = [] \<Longrightarrow> (f = Inl ErrAPIKeyNotFound \<or> (\<exists>k. f = Inr k)) \<and> w1 = w"
    using f by (auto simp: find_row_up split: list.splits)
  have revoked: "RevokedAt k \<noteq> None" if "?q w = k # ks" for k ks
  proof -
    have "k \<in> set (?q w)" unfolding that by simp
    then show ?thesis using assms(2) False by (auto simp: list_all_iff)
  qed
  have f': "(\<exists>e. f = Inl e) \<or> (\<exists>k. f = Inr k \<and> RevokedAt k \<noteq> None)" "tables w1 = tables w"
  proof -
    have same: "?q (w\<lparr>db_faults := fs\<rparr>) = ?q w" for fs by simp
    show "(\<exists>e. f = Inl e) \<or> (\<exists>k. f = Inr k \<and> RevokedAt k \<noteq> None)"
    proof (rule find_row_cases [OF f same])
      fix k ks
      assume "?q w = k # ks" and "f = Inr k"
      then show ?thesis using revoked by blast
    qed simp_all
    show "tables w1 = tables w" by (rule find_row_cases [OF f same]) simp_all
  qed
  have "w' = w1" "res = Inl (case f of Inr k \<Rightarrow> ErrAPIKeyInvalid
      | Inl e \<Rightarrow> if errors_Is e ErrAPIKeyNotFound then ErrAPIKeyInvalid else Wrap ''look up api key'' e)"
    using assms(1) f f'(1) False
    by (auto simp: VerifyAPIKey_def IsRevoked_def PostgresKeys_def pg_FindAPIKeyByTokenHash_def split: sum.splits)
  then show ?thesis using up f' by (auto simp: refused_quietly_def)
qed

section \<open>What a client meets\<close>

lemma fresh_unwritten [simp]: "\<not> wroteHeader fresh_recorder"
  by (simp add: fresh_recorder_def)

lemma NewRouter_route:
  assumes "root_routes d (Method r, Pattern r) = Some h" and "h r fresh_recorder s = (rec, Returned, s')" and "wroteHeader rec"
  shows "NewRouter d chi_default r fresh_recorder s =
    (rec, Returned, s'\<lparr>access_log := access_log s' @ [(Method r, Path r, statusCode rec)]\<rparr>)"
  using assms by (auto simp: NewRouter_def Recovery_def RequestLogging_def split: option.splits)

text \<open>C30. Every request that matches a route gets one response and one line in the log, whatever fails
  underneath: no handler panics or blocks, if \<^verbatim>\<open>promhttp\<close>'s does not. That holds even where observing the
  latency panics, as for a path that is not UTF-8.\<close>

theorem every_route_answers:
  assumes "root_routes d (Method r, Pattern r) \<noteq> None" and "\<And>m. answers m (dep_promhttp d)"
  shows "\<exists>rec s'. NewRouter d chi_default r fresh_recorder s = (rec, Returned, s') \<and> wroteHeader rec \<and>
    access_log s' = access_log s @ [(Method r, Path r, statusCode rec)]"
proof -
  obtain h where h: "root_routes d (Method r, Pattern r) = Some h" using assms(1) by blast
  then have "answers (Method r) h" using all_routesD [OF root_routes_answer [OF assms(2)]] by blast
  then obtain rec s' where "h r fresh_recorder s = (rec, Returned, s')" "wroteHeader rec" "access_log s' = access_log s"
    using answersD [of "Method r" h r fresh_recorder s] fresh_unwritten by blast
  then show ?thesis using NewRouter_route [OF h] by simp
qed

definition example_dependencies :: "world RouterDependencies" where
  "example_dependencies = \<lparr>dep_unicode = (\<lambda>s. s), dep_quote = (\<lambda>s. s), dep_bcrypt = (\<lambda>_ _. None), dep_zone = 0,
     dep_CounterWrite = (\<lambda>c. Inr (Some c)), dep_promhttp = handleHealthCheck, dep_UploadService = example_service,
     dep_ipHashSalt = ''salt'', dep_FileService = main_files ref_r2 (Some ref_cf) True, dep_fileTTLHours = 24,
     dep_StatsRepository = PostgresFiles, dep_NodeRepository = PostgresNodes, dep_LegalRepository = PostgresLegal,
     dep_AdminService = admin_NewService PostgresAdmins PostgresKeys PostgresSettings PostgresLegal,
     dep_onSettings = Some apply_settings, dep_AllowedOrigin = ''https://example.com'',
     dep_RequestLatency = Some (\<lambda>path method. path \<noteq> [CHR 0xFF])\<rparr>"

definition a_request :: "string \<Rightarrow> string \<Rightarrow> request" where
  "a_request method pattern = \<lparr>header = (\<lambda>_. []), RemoteAddr = ''10.0.0.1:4711'', query = (\<lambda>_. []), urlParam = (\<lambda>_. []),
     Method = method, Path = [CHR 0xFF], Pattern = pattern, session_context = None, auth_now = 0, serve_now = 0, later_now = 0,
     fresh_id = ''id'', fresh_bytes = Inr [], login_body = None, name_body = None, settings_body = None,
     content_body = None, upload_form = (\<lambda>_. MissingFile), upload_context = example_env\<rparr>"

lemma a_request_sel [simp]: "Method (a_request m p) = m" "Pattern (a_request m p) = p" "Path (a_request m p) = [CHR 0xFF]"
  "header (a_request m p) = (\<lambda>_. [])"
  by (simp_all add: a_request_def)

definition a_server :: "world server" where
  "a_server = \<lparr>outside_world = empty_world, rules = example_rules,
     uploads = \<lparr>concurrencyLimiter = \<lparr>capacity = 1, in_use = 0\<rparr>, uploadsTotal = 0, uploadBytesTotal = 0,
       uploadErrorsTotal = 0\<rparr>, access_log = []\<rparr>"

lemma example_login_route:
  "root_routes example_dependencies (''POST'', ''/api/v1/admin/login'') \<noteq> None"
  "root_routes example_dependencies (''GET'', ''/api/v1/admin/me'') \<noteq> None"
  using root_lookup_admin [of "''/login''" example_dependencies "''POST''"] root_lookup_admin [of "''/me''" example_dependencies "''GET''"]
  by (simp_all add: admin_routes_def admin_table_def route_snd Let_def)

theorem every_route_answers_witness:
  "\<exists>rec s'. NewRouter example_dependencies noopHandler (a_request ''POST'' ''/api/v1/admin/login'') fresh_recorder a_server =
    (rec, Returned, s') \<and> access_log s' = [(''POST'', [CHR 0xFF], statusCode rec)]"
  using every_route_answers [of example_dependencies "a_request ''POST'' ''/api/v1/admin/login''" noopHandler a_server]
    example_login_route(1) answers_health(1)
  by (auto simp: example_dependencies_def a_server_def)

text \<open>C10. Every route under \<^verbatim>\<open>/api/v1/admin\<close> but the login, preflights aside, answers a request without the
  token of a session with 401, or 500 where the database fails. It changes no table, no rule and no
  counter.\<close>

theorem admin_routes_closed:
  assumes "root_routes d (Method r, Pattern r) \<noteq> None" and "Pattern r = ''/api/v1/admin'' @ p" and "p \<noteq> []"
    and "Method r \<noteq> ''OPTIONS''" and "(Method r, p) \<noteq> (''POST'', ''/login'')"
    and "admin_accounts (dep_AdminService d) = PostgresAdmins"
    and "extractBearerToken (http r) = [] \<or>
      sha256_hex (extractBearerToken (http r)) \<notin> session_TokenHash ` set (admin_sessions (outside_world s))"
    and "NewRouter d chi_default r fresh_recorder s = (rec, out, s')"
  shows "out = Returned \<and> statusCode rec \<in> {401, 500} \<and> (db_faults (outside_world s) = [] \<longrightarrow> statusCode rec = 401) \<and>
    tables (outside_world s') = tables (outside_world s) \<and> rules s' = rules s \<and> uploads s' = uploads s"
proof -
  have route: "root_routes d (Method r, Pattern r) = admin_routes d (Method r, p)"
    unfolding assms(2) by (rule root_lookup_admin [OF assms(3)])
  then obtain h where h: "admin_routes d (Method r, p) = Some h" using assms(1) by auto
  obtain g where g: "h = CORS (dep_AllowedOrigin d) (Method r @ '', OPTIONS'') (RequireAdminSession (dep_AdminService d) g)"
    using admin_routes_guard [OF h assms(4,5)] by blast
  let ?rec = "fresh_recorder\<lparr>header_map := cors_headers (dep_AllowedOrigin d) (Method r @ '', OPTIONS'') (header_map fresh_recorder)\<rparr>"
  obtain v w' where v: "run_state (VerifySession PostgresAdmins (auth_now r) (extractBearerToken (http r))) (outside_world s) = (v, w')"
    by force
  obtain e where e: "v = Inl e" "db_faults (outside_world s) = [] \<Longrightarrow> errors_Is e ErrSessionInvalid"
      "tables w' = tables (outside_world s)"
    using unknown_session_refused [OF v assms(7)] by (auto simp: refused_quietly_def)
  let ?resp = "if errors_Is e ErrSessionInvalid then response_Error 401 ''missing or invalid session token''
      else response_Error 500 ''failed to verify session''"
  have "h r fresh_recorder s = (send ?resp ?rec, Returned, s\<lparr>outside_world := w'\<rparr>)"
    using assms(4,6) v e(1) by (simp add: g CORS_fresh RequireAdminSession_def Let_def)
  moreover have "statusCode (send ?resp ?rec) = code ?resp \<and> wroteHeader (send ?resp ?rec)"
    by (simp add: send_code)
  ultimately have "NewRouter d chi_default r fresh_recorder s = (send ?resp ?rec, Returned,
      (s\<lparr>outside_world := w'\<rparr>)\<lparr>access_log := access_log s @ [(Method r, Path r, code ?resp)]\<rparr>)"
    using NewRouter_route [of d r h s "send ?resp ?rec" "s\<lparr>outside_world := w'\<rparr>" chi_default] h route by simp
  then show ?thesis
    using assms(8) e(2,3) \<open>statusCode (send ?resp ?rec) = code ?resp \<and> wroteHeader (send ?resp ?rec)\<close> by auto
qed

theorem admin_routes_closed_witness:
  "\<exists>rec s'. NewRouter example_dependencies noopHandler (a_request ''GET'' ''/api/v1/admin/me'') fresh_recorder a_server =
    (rec, Returned, s') \<and> statusCode rec = 401"
proof -
  let ?r = "a_request ''GET'' ''/api/v1/admin/me''"
  obtain rec out s' where run: "NewRouter example_dependencies noopHandler ?r fresh_recorder a_server = (rec, out, s')"
    by (metis prod_cases3)
  have "extractBearerToken (http ?r) = []" by (simp add: extractBearerToken_def)
  then show ?thesis
    using admin_routes_closed [OF _ _ _ _ _ _ _ run, of "''/me''"] example_login_route(2) run
    by (auto simp: example_dependencies_def admin_NewService_def a_server_def)
qed

text \<open>C18. The metrics are answered with 401 unless the request carries a credential, in either header, that
  is the token of a session or a key that is not revoked; \<^verbatim>\<open>promhttp\<close> is not reached, and no table changes.\<close>

theorem metrics_closed:
  assumes "Method r = ''GET''" and "Pattern r = ''/metrics''"
    and "admin_accounts (dep_AdminService d) = PostgresAdmins" and "admin_keys (dep_AdminService d) = PostgresKeys"
    and "extractBearerOrHeaderToken (http r) = c"
    and "c = [] \<or> sha256_hex c \<notin> session_TokenHash ` set (admin_sessions (outside_world s)) \<and>
      list_all (\<lambda>k. key_TokenHash k = sha256_hex c \<longrightarrow> RevokedAt k \<noteq> None) (api_keys (outside_world s))"
    and "NewRouter d chi_default r fresh_recorder s = (rec, out, s')"
  shows "out = Returned \<and> statusCode rec = 401 \<and> tables (outside_world s') = tables (outside_world s) \<and>
    NewRouter (d\<lparr>dep_promhttp := other\<rparr>) chi_default r fresh_recorder s = (rec, out, s')"
proof -
  let ?rec = "fresh_recorder\<lparr>header_map := cors_headers (dep_AllowedOrigin d) ''GET, OPTIONS'' (header_map fresh_recorder)\<rparr>"
  let ?resp = "response_Error 401 ''missing or invalid metrics credentials''"
  let ?verify = "VerifyAPIKeyOrAdminSession (dep_AdminService d) (auth_now r) c"
  obtain w' where v: "run_state ?verify (outside_world s) = (False, w')" and w': "tables w' = tables (outside_world s)"
  proof (cases "c = []")
    case True
    then show thesis using that by (simp add: VerifyAPIKeyOrAdminSession_def)
  next
    case False
    obtain v1 w1 where 1: "run_state (VerifySession PostgresAdmins (auth_now r) c) (outside_world s) = (v1, w1)" by force
    obtain v2 w2 where 2: "run_state (VerifyAPIKey PostgresKeys (auth_now r) c) w1 = (v2, w2)" by force
    obtain e1 where e1: "v1 = Inl e1" "tables w1 = tables (outside_world s)"
      using unknown_session_refused [OF 1] assms(6) False by (auto simp: refused_quietly_def)
    have "api_keys w1 = api_keys (outside_world s)" using arg_cong [OF e1(2), of api_keys] by (simp add: tables_def)
    then obtain e2 where "v2 = Inl e2" "tables w2 = tables w1"
      using unknown_key_refused [OF 2] assms(6) False by (auto simp: refused_quietly_def)
    then show thesis using that 1 2 e1 False assms(3,4) by (simp add: VerifyAPIKeyOrAdminSession_def)
  qed
  have "NewRouter d' chi_default r fresh_recorder s = (send ?resp ?rec, Returned,
      (s\<lparr>outside_world := w'\<rparr>)\<lparr>access_log := access_log s @ [(Method r, Path r, 401)]\<rparr>)"
    if "d' = d\<lparr>dep_promhttp := p\<rparr>" for d' p
  proof -
    let ?h = "CORS (dep_AllowedOrigin d) ''GET, OPTIONS'' (metricsAuth (Some (dep_AdminService d)) p)"
    have "?h r fresh_recorder s = (send ?resp ?rec, Returned, s\<lparr>outside_world := w'\<rparr>)"
      using assms(1,5) v by (simp add: CORS_fresh metricsAuth_def Let_def)
    moreover have "root_routes d' (Method r, Pattern r) = Some ?h"
      using root_lookup_metrics [of d'] assms(1,2) that by simp
    moreover have "statusCode (send ?resp ?rec) = 401 \<and> wroteHeader (send ?resp ?rec)" by (simp add: send_code)
    ultimately show ?thesis
      using NewRouter_route [of d' r ?h s "send ?resp ?rec" "s\<lparr>outside_world := w'\<rparr>" chi_default] by simp
  qed
  from this [of d "dep_promhttp d"] this [of "d\<lparr>dep_promhttp := other\<rparr>" other] show ?thesis
    using assms(7) w' by (auto simp: send_code)
qed

theorem metrics_closed_witness:
  "\<exists>rec s'. NewRouter example_dependencies noopHandler (a_request ''GET'' ''/metrics'') fresh_recorder a_server = (rec, Returned, s') \<and>
    statusCode rec = 401"
proof -
  obtain rec out s' where run: "NewRouter example_dependencies noopHandler (a_request ''GET'' ''/metrics'') fresh_recorder a_server
      = (rec, out, s')"
    by (metis prod_cases3)
  then show ?thesis
    using metrics_closed [OF _ _ _ _ refl _ run, of noopHandler]
    by (auto simp: example_dependencies_def admin_NewService_def extractBearerOrHeaderToken_def HasPrefix_def)
qed

text \<open>A preflight of an admin path lists exactly the methods registered for it, in order, however many
  handlers share the path; it reaches none of them.\<close>

lemma preflight_lists_methods:
  assumes "Method r = ''OPTIONS''" and "Pattern r = ''/api/v1/admin'' @ p" and "methods_of p (admin_table d) \<noteq> []"
    and "NewRouter d chi_default r fresh_recorder s = (rec, out, s')"
  shows "out = Returned \<and> statusCode rec = 204 \<and> written rec = [] \<and>
    header_map rec ''Access-Control-Allow-Methods'' = Some (Join (methods_of p (admin_table d) @ [''OPTIONS'']) '', '') \<and>
    header_map rec ''Access-Control-Allow-Origin'' = Some (dep_AllowedOrigin d) \<and>
    outside_world s' = outside_world s \<and> rules s' = rules s \<and> uploads s' = uploads s"
proof -
  let ?m = "Join (methods_of p (admin_table d) @ [''OPTIONS'']) '', ''"
  have "p \<noteq> []"
  proof
    assume "p = []"
    then show False using assms(3) by (simp add: methods_of_def admin_table_def Let_def)
  qed
  then have "root_routes d (Method r, Pattern r) = admin_routes d (''OPTIONS'', p)"
    unfolding assms(1,2) by (rule root_lookup_admin)
  moreover have "list_all (\<lambda>e. fst e \<noteq> ''OPTIONS'') (admin_table d)" by (simp add: admin_table_def Let_def)
  then have "admin_routes d (''OPTIONS'', p) = Some (CORS (dep_AllowedOrigin d) ?m noopHandler)"
    unfolding admin_routes_def list_all_iff
    by (subst routes_preflight [OF _ assms(3)]) (simp_all add: newRouteRegistry_def)
  ultimately have h: "root_routes d (Method r, Pattern r) = Some (CORS (dep_AllowedOrigin d) ?m noopHandler)" by simp
  let ?rec = "fresh_recorder\<lparr>header_map := cors_headers (dep_AllowedOrigin d) ?m (header_map fresh_recorder)\<rparr>"
  have "CORS (dep_AllowedOrigin d) ?m noopHandler r fresh_recorder s = (WriteHeader 204 ?rec, Returned, s)"
    using assms(1) by (simp add: CORS_fresh Let_def)
  from NewRouter_route [OF h this] have "NewRouter d chi_default r fresh_recorder s =
      (WriteHeader 204 ?rec, Returned, s\<lparr>access_log := access_log s @ [(Method r, Path r, 204)]\<rparr>)"
    by (simp add: WriteHeader_def)
  then show ?thesis using assms(4)
    by (auto simp: WriteHeader_def cors_headers_def) (simp_all add: fresh_recorder_def)
qed

end
