(* ===== verification/Config.thy ===== *)
theory Config
  imports Errors
begin

text \<open>
  \<^verbatim>\<open>internal/config/config.go\<close>. The environment is a function from names to values, empty where a
  variable is not set, as \<^verbatim>\<open>os.Getenv\<close> reports it. \<open>num\<close> makes the error of \<^verbatim>\<open>strconv\<close> from the
  function's name and its input. \<^verbatim>\<open>int\<close> has 64 bits; the conversion to \<^verbatim>\<open>int32\<close> keeps the low 32.
\<close>

type_synonym environment = "string \<Rightarrow> string"

definition insecureDefaultIPHashSalt :: string where
  "insecureDefaultIPHashSalt = ''insecure-default-salt''"

record Config =
  ServerPort :: string
  ServerMaxUploadMB :: int
  cfg_R2AccessKeyID :: string
  cfg_R2SecretAccessKey :: string
  cfg_R2BucketName :: string
  cfg_R2Endpoint :: string
  R2PublicBaseURL :: string
  DatabaseDSN :: string
  DatabaseMaxConns :: int
  FileTTLHours :: int
  FileSweepIntervalMins :: int
  cfg_NodeID :: string
  NodeHeartbeatIntervalSecs :: int
  NodeStaleAfterSecs :: int
  NodeJanitorIntervalSecs :: int
  RateLimitMaxConcurrentUploads :: int
  IPHashSalt :: string
  AllowedOrigin :: string
  AdminBootstrapUsername :: string
  AdminBootstrapPassword :: string
  cfg_AllowedMimeTypes :: "string slice"
  cfg_BlockedExtensions :: "string slice"
  CloudflareCacheEnabled :: bool
  CloudflareZoneID :: string
  CloudflareAPIToken :: string

definition i32 :: "int \<Rightarrow> int" where
  "i32 x = (x + 2 ^ 31) mod 2 ^ 32 - 2 ^ 31"

section \<open>Reading one variable\<close>

definition getEnvOrDefault :: "environment \<Rightarrow> string \<Rightarrow> string \<Rightarrow> string" where
  "getEnvOrDefault env key fallback = (if env key = [] then fallback else env key)"

definition parseIntOrDefault ::
  "(string \<Rightarrow> string \<Rightarrow> error) \<Rightarrow> environment \<Rightarrow> string \<Rightarrow> int \<Rightarrow> error + int" where
  "parseIntOrDefault num env key fallback =
    (let raw = env key
     in if raw = [] then Inr fallback
        else case Atoi raw of
            None \<Rightarrow> Inl (Wrap (''invalid integer value for '' @ key) (num ''Atoi'' raw))
          | Some parsed \<Rightarrow> Inr parsed)"

definition parseBoolOrDefault ::
  "(string \<Rightarrow> string \<Rightarrow> error) \<Rightarrow> environment \<Rightarrow> string \<Rightarrow> bool \<Rightarrow> error + bool" where
  "parseBoolOrDefault num env key fallback =
    (let raw = env key
     in if raw = [] then Inr fallback
        else case ParseBool raw of
            None \<Rightarrow> Inl (Wrap (''invalid boolean value for '' @ key) (num ''ParseBool'' raw))
          | Some parsed \<Rightarrow> Inr parsed)"

fun trim_parts :: "string list \<Rightarrow> string list \<Rightarrow> string list" where
  "trim_parts result [] = result"
| "trim_parts result (part # parts) =
    (let trimmed = TrimSpace part
     in trim_parts (if trimmed \<noteq> [] then result @ [trimmed] else result) parts)"

definition splitAndTrim :: "string \<Rightarrow> string slice" where
  "splitAndTrim raw = Some (trim_parts [] (Split raw (CHR '','')))"

section \<open>Loading\<close>

definition require :: "bool \<Rightarrow> string \<Rightarrow> error option \<Rightarrow> error option" where
  "require ok msg rest = (if ok then rest else Some (Errorf msg))"

definition validate_salt :: "(string \<Rightarrow> string \<Rightarrow> error) \<Rightarrow> environment \<Rightarrow> Config \<Rightarrow> error option" where
  "validate_salt num env c =
    (if IPHashSalt c = insecureDefaultIPHashSalt \<or> IPHashSalt c = []
     then case parseBoolOrDefault num env ''ALLOW_INSECURE_IP_HASH_SALT'' False of
         Inl err \<Rightarrow> Some err
       | Inr allowInsecure \<Rightarrow>
           if \<not> allowInsecure
           then Some (Errorf ''IP_HASH_SALT must be set to a random secret (refusing to start with the well-known default; set ALLOW_INSECURE_IP_HASH_SALT=true to override for local development only)'')
           else None
     else None)"

definition validate_cloudflare :: "Config \<Rightarrow> error option" where
  "validate_cloudflare c =
    (if CloudflareCacheEnabled c
     then require (CloudflareZoneID c \<noteq> []) ''CLOUDFLARE_ZONE_ID must be set when CLOUDFLARE_CACHE_ENABLED is true''
       (require (CloudflareAPIToken c \<noteq> []) ''CLOUDFLARE_API_TOKEN must be set when CLOUDFLARE_CACHE_ENABLED is true'' None)
     else None)"

definition validate :: "(string \<Rightarrow> string \<Rightarrow> error) \<Rightarrow> environment \<Rightarrow> Config \<Rightarrow> error option" where
  "validate num env c =
    require (cfg_R2Endpoint c \<noteq> []) ''R2_ENDPOINT must be set''
    (require (cfg_R2AccessKeyID c \<noteq> [] \<and> cfg_R2SecretAccessKey c \<noteq> []) ''R2_ACCESS_KEY_ID and R2_SECRET_ACCESS_KEY must be set''
    (require (R2PublicBaseURL c \<noteq> []) ''R2_PUBLIC_BASE_URL must be set''
    (require (cfg_R2BucketName c \<noteq> []) ''R2_BUCKET_NAME must be set''
    (require (AllowedOrigin c \<noteq> []) ''ALLOWED_ORIGIN must be set''
    (case validate_salt num env c of
       Some err \<Rightarrow> Some err
     | None \<Rightarrow>
    (require (DatabaseMaxConns c > 0) ''DATABASE_MAX_CONNS must be positive''
    (require (NodeHeartbeatIntervalSecs c > 0) ''NODE_HEARTBEAT_INTERVAL_SECONDS must be positive''
    (require (NodeStaleAfterSecs c > NodeHeartbeatIntervalSecs c)
       (''NODE_STALE_AFTER_SECONDS ('' @ show_int (NodeStaleAfterSecs c) @ '') must be greater than NODE_HEARTBEAT_INTERVAL_SECONDS ('' @ show_int (NodeHeartbeatIntervalSecs c) @ ''), or a healthy node with one slow heartbeat would be flagged offline'')
    (require (NodeJanitorIntervalSecs c > 0) ''NODE_JANITOR_INTERVAL_SECONDS must be positive''
    (validate_cloudflare c))))))))))"

text \<open>\<^verbatim>\<open>x, err := e; if err != nil { return nil, err }\<close>.\<close>

definition bindE :: "error + 'a \<Rightarrow> ('a \<Rightarrow> error + 'b) \<Rightarrow> error + 'b" where
  "bindE m k = (case m of Inl err \<Rightarrow> Inl err | Inr x \<Rightarrow> k x)"

definition load_concurrency :: "(string \<Rightarrow> string \<Rightarrow> error) \<Rightarrow> environment \<Rightarrow> error + int" where
  "load_concurrency num env =
    bindE (parseIntOrDefault num env ''SERVER_MAX_CONCURRENT_UPLOADS'' (-1)) (\<lambda>maxConcurrent.
    if maxConcurrent = -1 then parseIntOrDefault num env ''RATE_LIMIT_MAX_CONCURRENT_UPLOADS'' 50
    else Inr maxConcurrent)"

definition Load :: "(string \<Rightarrow> string \<Rightarrow> error) \<Rightarrow> environment \<Rightarrow> error + Config" where
  "Load num env =
    bindE (parseBoolOrDefault num env ''CLOUDFLARE_CACHE_ENABLED'' False) (\<lambda>cloudflareEnabled.
    bindE (parseIntOrDefault num env ''SERVER_MAX_UPLOAD_MB'' 100) (\<lambda>maxUploadMB.
    bindE (parseIntOrDefault num env ''DATABASE_MAX_CONNS'' 5) (\<lambda>maxDBConns.
    bindE (parseIntOrDefault num env ''FILE_TTL_HOURS'' 24) (\<lambda>ttlHours.
    bindE (parseIntOrDefault num env ''FILE_SWEEP_INTERVAL_MINUTES'' 5) (\<lambda>sweepIntervalMins.
    bindE (load_concurrency num env) (\<lambda>maxConcurrent.
    bindE (parseIntOrDefault num env ''NODE_HEARTBEAT_INTERVAL_SECONDS'' 15) (\<lambda>heartbeatIntervalSecs.
    bindE (parseIntOrDefault num env ''NODE_STALE_AFTER_SECONDS'' 45) (\<lambda>staleAfterSecs.
    bindE (parseIntOrDefault num env ''NODE_JANITOR_INTERVAL_SECONDS'' 20) (\<lambda>janitorIntervalSecs.
    let cfg = \<lparr>ServerPort = getEnvOrDefault env ''SERVER_PORT'' ''8080'',
        ServerMaxUploadMB = maxUploadMB,
        cfg_R2AccessKeyID = env ''R2_ACCESS_KEY_ID'',
        cfg_R2SecretAccessKey = env ''R2_SECRET_ACCESS_KEY'',
        cfg_R2BucketName = getEnvOrDefault env ''R2_BUCKET_NAME'' ''tempcdn-files'',
        cfg_R2Endpoint = env ''R2_ENDPOINT'',
        R2PublicBaseURL = env ''R2_PUBLIC_BASE_URL'',
        DatabaseDSN = env ''DATABASE_DSN'',
        DatabaseMaxConns = i32 maxDBConns,
        FileTTLHours = ttlHours,
        FileSweepIntervalMins = sweepIntervalMins,
        cfg_NodeID = env ''NODE_ID'',
        NodeHeartbeatIntervalSecs = heartbeatIntervalSecs,
        NodeStaleAfterSecs = staleAfterSecs,
        NodeJanitorIntervalSecs = janitorIntervalSecs,
        RateLimitMaxConcurrentUploads = maxConcurrent,
        IPHashSalt = getEnvOrDefault env ''IP_HASH_SALT'' insecureDefaultIPHashSalt,
        AllowedOrigin = env ''ALLOWED_ORIGIN'',
        AdminBootstrapUsername = env ''ADMIN_BOOTSTRAP_USERNAME'',
        AdminBootstrapPassword = env ''ADMIN_BOOTSTRAP_PASSWORD'',
        cfg_AllowedMimeTypes = splitAndTrim (getEnvOrDefault env ''ALLOWED_MIME_TYPES'' ''image/*,video/*,application/pdf,application/zip,text/plain''),
        cfg_BlockedExtensions = splitAndTrim (getEnvOrDefault env ''BLOCKED_EXTENSIONS'' ''.exe,.bat,.sh,.msi,.dll,.scr''),
        CloudflareCacheEnabled = cloudflareEnabled,
        CloudflareZoneID = env ''CLOUDFLARE_ZONE_ID'',
        CloudflareAPIToken = env ''CLOUDFLARE_API_TOKEN''\<rparr>
    in case validate num env cfg of Some err \<Rightarrow> Inl err | None \<Rightarrow> Inr cfg)))))))))"

section \<open>What a loaded configuration guarantees\<close>

lemma bindE_Inr: "bindE m k = Inr y \<longleftrightarrow> (\<exists>x. m = Inr x \<and> k x = Inr y)"
  by (auto simp: bindE_def split: sum.splits)

lemma require_None: "require ok msg rest = None \<longleftrightarrow> ok \<and> rest = None"
  by (simp add: require_def)

lemma show_int_not_Nil [simp]: "show_int n \<noteq> []"
  by (simp add: show_int_def)

lemma parseInt_show:
  "is_i64 n \<Longrightarrow> env key = show_int n \<Longrightarrow> parseIntOrDefault num env key fallback = Inr n"
  by (simp add: parseIntOrDefault_def Let_def Atoi_show_int)

lemma trim_parts_eq: "trim_parts result parts = result @ filter (\<lambda>p. p \<noteq> []) (map TrimSpace parts)"
  by (induction parts arbitrary: result) (auto simp: Let_def)

lemma splitAndTrim_elems:
  "p \<in> set (elems (splitAndTrim raw)) \<Longrightarrow> p \<noteq> [] \<and> TrimSpace p = p"
  by (auto simp: splitAndTrim_def trim_parts_eq)

lemma validate_None:
  "validate num env c = None \<longleftrightarrow>
    cfg_R2Endpoint c \<noteq> [] \<and> cfg_R2AccessKeyID c \<noteq> [] \<and> cfg_R2SecretAccessKey c \<noteq> [] \<and> R2PublicBaseURL c \<noteq> [] \<and>
    cfg_R2BucketName c \<noteq> [] \<and> AllowedOrigin c \<noteq> [] \<and> validate_salt num env c = None \<and> 0 < DatabaseMaxConns c \<and>
    0 < NodeHeartbeatIntervalSecs c \<and> NodeHeartbeatIntervalSecs c < NodeStaleAfterSecs c \<and>
    0 < NodeJanitorIntervalSecs c \<and> validate_cloudflare c = None"
  by (auto simp: validate_def require_None split: option.splits)

lemma Load_validated: "Load num env = Inr c \<Longrightarrow> validate num env c = None"
  by (auto simp: Load_def bindE_Inr Let_def split: option.splits)

lemma Load_lists:
  "Load num env = Inr c \<Longrightarrow> p \<in> set (elems (cfg_AllowedMimeTypes c)) \<union> set (elems (cfg_BlockedExtensions c)) \<Longrightarrow>
    p \<noteq> [] \<and> TrimSpace p = p"
  by (auto simp: Load_def bindE_Inr Let_def split: option.splits dest: splitAndTrim_elems)

lemma is_i64_small [simp]: "\<bar>n\<bar> < 2 ^ 40 \<Longrightarrow> is_i64 n"
  by (auto simp: is_i64_def abs_less_iff)

end
