(* ===== verification/Metrics.thy ===== *)
theory Metrics
  imports Upload_Handler
begin

text \<open>
  \<^verbatim>\<open>internal/httpserver/metrics.go\<close> and the constructor of the upload handler, which is given the counters.
  Registering is the Prometheus client's: \<open>register\<close> says whether it accepts a name with its labels; if
  not, \<^verbatim>\<open>promauto\<close> panics, which is \<open>None\<close>. A registered counter starts at zero; of the histogram the
  model keeps the labels.
\<close>

record Metrics =
  UploadsTotal :: int
  UploadBytesTotal :: int
  UploadErrorsTotal :: int
  RequestLatency :: "string list"

definition NewMetrics :: "(string \<Rightarrow> string list \<Rightarrow> bool) \<Rightarrow> Metrics option" where
  "NewMetrics register =
    (if register ''tempcdn_uploads_total'' [] \<and> register ''tempcdn_upload_bytes_total'' [] \<and>
        register ''tempcdn_upload_errors_total'' [] \<and>
        register ''tempcdn_request_latency_seconds'' [''path'', ''method'']
     then Some \<lparr>UploadsTotal = 0, UploadBytesTotal = 0, UploadErrorsTotal = 0, RequestLatency = [''path'', ''method'']\<rparr>
     else None)"

definition upload_NewHandler :: "ConcurrencyLimiter \<Rightarrow> Metrics \<Rightarrow> upload_handler" where
  "upload_NewHandler limiter m = \<lparr>concurrencyLimiter = limiter, uploadsTotal = UploadsTotal m,
     uploadBytesTotal = UploadBytesTotal m, uploadErrorsTotal = UploadErrorsTotal m\<rparr>"

lemma NewMetrics_fresh:
  "NewMetrics register = Some m \<Longrightarrow> uploadsTotal (upload_NewHandler limiter m) = 0 \<and>
    uploadBytesTotal (upload_NewHandler limiter m) = 0 \<and> uploadErrorsTotal (upload_NewHandler limiter m) = 0 \<and>
    concurrencyLimiter (upload_NewHandler limiter m) = limiter"
  by (auto simp: NewMetrics_def upload_NewHandler_def split: if_splits)

end
