(* ===== verification/Startup.thy ===== *)
theory Startup
  imports Bootstrap Settings Legal Migrate Config Wiring Nodes Metrics
begin

text \<open>
  \<^verbatim>\<open>cmd/server/main.go\<close>: what starts before requests are served. Every failure exits. What the standard
  library or the Prometheus client panics on is \<open>Crashed\<close>: in \<^verbatim>\<open>main\<close> a channel of negative size or a metric
  that is refused, and in the goroutines, which no one recovers, a ticker whose interval is not positive.
  The pool, bcrypt, the SDK, the host name and the random bytes come from outside.
\<close>

datatype 'r boot = Exited error | Crashed | Serving 'r

record ('pool, 'cfg, 'w) host =
  host_env :: environment
  host_num :: "string \<Rightarrow> string \<Rightarrow> error"
  host_pgx :: "'pool pgx_pool"
  host_script :: "string \<Rightarrow> ('w, unit) stmt"
  host_ReadDir :: "string \<Rightarrow> error + dir_entry list"
  host_ReadFile :: "string \<Rightarrow> error + string"
  host_bcrypt :: "string \<Rightarrow> error + string"
  host_sdk :: "('cfg, 'w) aws_sdk"
  host_http :: "purgeRequest \<Rightarrow> ('w, error, purgeReply) io"
  host_url :: "string \<Rightarrow> error option"
  host_unmarshal :: "bytes \<Rightarrow> error + purgeResponseBody"
  host_uuid :: string
  host_now :: time
  host_register :: "string \<Rightarrow> string list \<Rightarrow> bool"
  host_Hostname :: "error + string"
  host_rand :: "error + bytes"

record 'w "instance" =
  inst_config :: Config
  inst_rules :: validatorRules
  inst_handler :: upload_handler
  inst_uploads :: "'w upload_Service"
  inst_files :: "'w file_Service"
  inst_sweeper :: "'w Sweeper"
  inst_reporter :: "'w Reporter"
  inst_janitor :: "'w Janitor"

definition exit_on :: "('w, error, 'a) io \<Rightarrow> ('a \<Rightarrow> ('w, 'r boot) state) \<Rightarrow> ('w, 'r boot) state" where
  "exit_on m k = do { r \<leftarrow> m; case r of Inl err \<Rightarrow> State_Monad.return (Exited err) | Inr x \<Rightarrow> k x }"

text \<open>\<^verbatim>\<open>time.Duration(n) * unit\<close> and \<^verbatim>\<open>time.NewTicker\<close> in the goroutines of reporter, janitor and sweeper.\<close>

definition interval :: "int \<Rightarrow> duration \<Rightarrow> duration" where
  "interval n unit = i64 (n * unit)"

definition tickers_start :: "Config \<Rightarrow> bool" where
  "tickers_start cfg \<longleftrightarrow>
    0 < interval (NodeHeartbeatIntervalSecs cfg) Second \<and>
    0 < interval (NodeJanitorIntervalSecs cfg) Second \<and>
    0 < interval (FileSweepIntervalMins cfg) Minute"

definition stored_rules :: "UploadSettings \<Rightarrow> validatorRules" where
  "stored_rules s = NewValidator (i64 (MaxUploadSizeMB s * 1024 * 1024)) (AllowedMimeTypes s) (BlockedExtensions s)"

definition start_purger ::
  "('pool, 'cfg, 'a pg_scheme) host \<Rightarrow> Config \<Rightarrow> ('a pg_scheme) cf_Client option" where
  "start_purger h cfg =
    (if CloudflareCacheEnabled cfg
     then Some (cf_NewClient (host_http h) (host_url h) (host_unmarshal h) (CloudflareZoneID cfg) (CloudflareAPIToken cfg))
     else None)"

text \<open>The part of \<^verbatim>\<open>main\<close> that only builds values.\<close>

definition build ::
  "('pool, 'cfg, 'a pg_scheme) host \<Rightarrow> Config \<Rightarrow> UploadSettings \<Rightarrow> ('a pg_scheme) instance boot" where
  "build h cfg uploadSettings =
    (case NewR2Client (host_sdk h) \<lparr>AccessKeyID = cfg_R2AccessKeyID cfg, SecretAccessKey = cfg_R2SecretAccessKey cfg,
        BucketName = cfg_R2BucketName cfg, Endpoint = cfg_R2Endpoint cfg\<rparr> of
       Inl err \<Rightarrow> Exited err
     | Inr r2 \<Rightarrow>
    (case NewMetrics (host_register h) of
       None \<Rightarrow> Crashed
     | Some metrics \<Rightarrow>
    (case NewConcurrencyLimiter (RateLimitMaxConcurrentUploads cfg) of
       None \<Rightarrow> Crashed
     | Some limiter \<Rightarrow>
    (case host_Hostname h of
       Inl err \<Rightarrow> Exited err
     | Inr hostname \<Rightarrow>
    (case ResolveNodeID (host_rand h) (cfg_NodeID cfg) hostname of
       Inl err \<Rightarrow> Exited err
     | Inr nodeID \<Rightarrow>
         if \<not> tickers_start cfg then Crashed
         else Serving \<lparr>inst_config = cfg, inst_rules = stored_rules uploadSettings, inst_handler = upload_NewHandler limiter metrics,
           inst_uploads = main_upload r2 (interval (FileTTLHours cfg) Hour) (R2PublicBaseURL cfg),
           inst_files = main_files r2 (start_purger h cfg) (CloudflareCacheEnabled cfg),
           inst_sweeper = main_sweeper r2 (start_purger h cfg) (CloudflareCacheEnabled cfg),
           inst_reporter = NewReporter PostgresNodes nodeID hostname (interval (NodeHeartbeatIntervalSecs cfg) Second) (host_now h),
           inst_janitor = NewJanitor PostgresNodes (interval (NodeJanitorIntervalSecs cfg) Second)
             (interval (NodeStaleAfterSecs cfg) Second)\<rparr>)))))"

definition start :: "('pool, 'cfg, 'a pg_scheme) host \<Rightarrow> ('a pg_scheme, ('a pg_scheme) instance boot) state" where
  "start h =
    (case Load (host_num h) (host_env h) of
       Inl err \<Rightarrow> State_Monad.return (Exited err)
     | Inr cfg \<Rightarrow>
    (case NewRepository (host_pgx h) (DatabaseDSN cfg) (DatabaseMaxConns cfg) of
       Inl err \<Rightarrow> State_Monad.return (Exited err)
     | Inr _ \<Rightarrow>
    exit_on (Migrate (host_script h) (host_ReadDir h) (host_ReadFile h)) (\<lambda>_.
    exit_on (Bootstrap (host_bcrypt h) PostgresAdmins (host_now h) (host_uuid h)
        \<lparr>boot_Username = AdminBootstrapUsername cfg, boot_Password = AdminBootstrapPassword cfg\<rparr>) (\<lambda>_.
    exit_on (SeedUploadSettings PostgresSettings (host_now h)
        \<lparr>def_MaxUploadSizeMB = ServerMaxUploadMB cfg, def_AllowedMimeTypes = cfg_AllowedMimeTypes cfg,
          def_BlockedExtensions = cfg_BlockedExtensions cfg\<rparr>) (\<lambda>_.
    exit_on (repo_GetUploadSettings PostgresSettings) (\<lambda>uploadSettings.
    exit_on (SeedLegalDocuments PostgresLegal (host_now h)) (\<lambda>_.
    State_Monad.return (build h cfg uploadSettings))))))))"

section \<open>What holds once the instance serves\<close>

lemma run_exit_on_Serving:
  "run_state (exit_on m k) w = (Serving i, w'') \<longleftrightarrow>
    (\<exists>x w'. run_state m w = (Inr x, w') \<and> run_state (k x) w' = (Serving i, w''))"
  by (auto simp: exit_on_def split: prod.splits sum.splits)

lemma build_Serving:
  "build h cfg s = Serving i \<Longrightarrow> inst_config i = cfg \<and> inst_rules i = stored_rules s \<and> tickers_start cfg \<and>
    0 \<le> RateLimitMaxConcurrentUploads cfg \<and>
    concurrencyLimiter (inst_handler i) = \<lparr>capacity = nat (RateLimitMaxConcurrentUploads cfg), in_use = 0\<rparr>"
  by (auto simp: build_def NewConcurrencyLimiter_def upload_NewHandler_def split: sum.splits option.splits if_splits)

lemma seeded_legal_frame: "preserves (same admins) (SeedLegalDocuments PostgresLegal now)"
  "preserves (same upload_settings) (SeedLegalDocuments PostgresLegal now)"
  unfolding SeedLegalDocuments_def PostgresLegal_def pg_SeedLegalDocumentIfMissing_def
  by (auto intro!: frame simp: seed_legal_stmt_def split: if_splits)

lemma seeded_settings_frame: "preserves (same admins) (SeedUploadSettings PostgresSettings now d)"
  unfolding SeedUploadSettings_def PostgresSettings_def pg_SeedUploadSettingsIfMissing_def
  by (auto intro!: frame split: option.splits)

lemma got_settings_frame: "preserves (same admins) (repo_GetUploadSettings PostgresSettings)"
  unfolding PostgresSettings_def pg_GetUploadSettings_def by (auto intro!: frame)

text \<open>The stages of the start.\<close>

lemma start_stages:
  assumes "run_state (start h) w = (Serving i, w')"
  obtains cfg u w1 w2 w3 s w4 where "Load (host_num h) (host_env h) = Inr cfg" and "isPostgresDSN (DatabaseDSN cfg)"
    and "run_state (Migrate (host_script h) (host_ReadDir h) (host_ReadFile h)) w = (Inr u, w1)"
    and "run_state (Bootstrap (host_bcrypt h) PostgresAdmins (host_now h) (host_uuid h)
      \<lparr>boot_Username = AdminBootstrapUsername cfg, boot_Password = AdminBootstrapPassword cfg\<rparr>) w1 = (Inr (), w2)"
    and "run_state (SeedUploadSettings PostgresSettings (host_now h)
        \<lparr>def_MaxUploadSizeMB = ServerMaxUploadMB cfg, def_AllowedMimeTypes = cfg_AllowedMimeTypes cfg,
          def_BlockedExtensions = cfg_BlockedExtensions cfg\<rparr>) w2 = (Inr (), w3)"
    and "run_state (repo_GetUploadSettings PostgresSettings) w3 = (Inr s, w4)"
    and "run_state (SeedLegalDocuments PostgresLegal (host_now h)) w4 = (Inr (), w')"
    and "build h cfg s = Serving i" and "admins w' = admins w2"
proof -
  obtain cfg where cfg: "Load (host_num h) (host_env h) = Inr cfg"
    using assms by (auto simp: start_def split: sum.splits)
  obtain p where p: "NewRepository (host_pgx h) (DatabaseDSN cfg) (DatabaseMaxConns cfg) = Inr p"
    using assms cfg by (auto simp: start_def split: sum.splits)
  then have dsn: "isPostgresDSN (DatabaseDSN cfg)" by (auto simp: NewRepository_def split: if_splits)
  from assms cfg p show thesis unfolding start_def
  proof (simp, unfold run_exit_on_Serving, elim exE conjE)
    fix u w1 x2 w2 x3 w3 s w4 x5 w5
    assume stages: "run_state (Migrate (host_script h) (host_ReadDir h) (host_ReadFile h)) w = (Inr u, w1)"
      "run_state (Bootstrap (host_bcrypt h) PostgresAdmins (host_now h) (host_uuid h)
        \<lparr>boot_Username = AdminBootstrapUsername cfg, boot_Password = AdminBootstrapPassword cfg\<rparr>) w1 = (Inr x2, w2)"
      "run_state (SeedUploadSettings PostgresSettings (host_now h)
        \<lparr>def_MaxUploadSizeMB = ServerMaxUploadMB cfg, def_AllowedMimeTypes = cfg_AllowedMimeTypes cfg,
          def_BlockedExtensions = cfg_BlockedExtensions cfg\<rparr>) w2 = (Inr x3, w3)"
      "run_state (repo_GetUploadSettings PostgresSettings) w3 = (Inr s, w4)"
      "run_state (SeedLegalDocuments PostgresLegal (host_now h)) w4 = (Inr x5, w5)"
      "run_state (State_Monad.return (build h cfg s)) w5 = (Serving i, w')"
    then have "admins w' = admins w2"
      using preservesD [OF seeded_settings_frame stages(3)] preservesD [OF got_settings_frame stages(4)]
        preservesD [OF seeded_legal_frame(1) stages(5)] by (simp add: same_def)
    then show thesis using that [OF cfg dsn] stages by simp
  qed
qed

lemma start_built:
  assumes "run_state (start h) w = (Serving i, w')"
  obtains cfg st where "Load (host_num h) (host_env h) = Inr cfg" and "build h cfg st = Serving i"
  using assms by (rule start_stages) (rule that)

lemma start_Serving:
  assumes "run_state (start h) w = (Serving i, w')"
  shows "Load (host_num h) (host_env h) = Inr (inst_config i) \<and> isPostgresDSN (DatabaseDSN (inst_config i)) \<and>
    tickers_start (inst_config i) \<and> 0 \<le> RateLimitMaxConcurrentUploads (inst_config i) \<and> admins w' \<noteq> [] \<and>
    concurrencyLimiter (inst_handler i) = \<lparr>capacity = nat (RateLimitMaxConcurrentUploads (inst_config i)), in_use = 0\<rparr> \<and>
    LegalDocTerms \<in> DocType ` set (legal_documents w') \<and> LegalDocPrivacy \<in> DocType ` set (legal_documents w') \<and>
    (\<exists>s. upload_settings w' = Some s \<and> inst_rules i = stored_rules s)"
  using assms
proof (rule start_stages)
  fix cfg u w1 w2 w3 s w4
  assume cfg: "Load (host_num h) (host_env h) = Inr cfg" and dsn: "isPostgresDSN (DatabaseDSN cfg)"
    and b: "run_state (Bootstrap (host_bcrypt h) PostgresAdmins (host_now h) (host_uuid h)
      \<lparr>boot_Username = AdminBootstrapUsername cfg, boot_Password = AdminBootstrapPassword cfg\<rparr>) w1 = (Inr (), w2)"
    and g: "run_state (repo_GetUploadSettings PostgresSettings) w3 = (Inr s, w4)"
    and l: "run_state (SeedLegalDocuments PostgresLegal (host_now h)) w4 = (Inr (), w')"
    and i: "build h cfg s = Serving i" and as: "admins w' = admins w2"
  have "admins w2 \<noteq> []" using b by (rule pgadmins.Bootstrap_cases) auto
  moreover have "upload_settings w' = Some s"
    using pgsettings.GetSettings [OF g] preservesD [OF seeded_legal_frame(2) l] by (simp add: same_def)
  ultimately show ?thesis
    using cfg dsn as build_Serving [OF i] pglegal.SeedLegalDocuments_ok [OF l] by auto
qed

end
