(* ===== verification/Lifecycle.thy ===== *)
theory Lifecycle
  imports Prelude
begin

text \<open>
  The end of \<^verbatim>\<open>cmd/server/main.go\<close>: from where \<^verbatim>\<open>main\<close> has started the goroutine that listens and asked for
  signals to its return. \<open>main_step\<close> is the process with the goroutines that run in it, in any order; a
  log line and what follows it are one step. Of \<^verbatim>\<open>net/http\<close> it has what its documentation says of
  \<^verbatim>\<open>Server\<close>: \<^verbatim>\<open>Shutdown\<close> closes the listener, so that nothing new is accepted and \<^verbatim>\<open>ListenAndServe\<close> returns
  \<^verbatim>\<open>ErrServerClosed\<close>, also when it is called later, and it returns once no connection is busy (with what
  closing the listener returned) or when its context is done. \<^verbatim>\<open>signal.Notify\<close> drops a signal that finds
  the channel full. \<open>loops\<close> counts the background goroutines that have not returned, which they do when the
  root context is cancelled. When \<^verbatim>\<open>main\<close> returns, its deferred calls close the pool and the process ends.
\<close>

datatype phase = Waiting | Notified | Cancelled | Draining | Closing | Ended nat

datatype listener = NotYet | Listening | Closed

datatype log_line = ServerStarting | ServerFailed | ServerShuttingDown | ServerShutdownError

record process =
  phase :: phase
  listener :: listener
  busy :: nat
  loops :: nat
  signalled :: bool
  rootDone :: bool
  poolOpen :: bool
  clock :: time
  deadline :: time
  main_log :: "log_line list"

definition launched :: "time \<Rightarrow> process" where
  "launched now = \<lparr>phase = Waiting, listener = NotYet, busy = 0, loops = 5, signalled = False, rootDone = False,
     poolOpen = True, clock = now, deadline = now, main_log = []\<rparr>"

definition shutdownTimeout :: duration where
  "shutdownTimeout = 15 * Second"

fun ended :: "phase \<Rightarrow> bool" where
  "ended (Ended _) = True"
| "ended _ = False"

definition log_info :: "log_line \<Rightarrow> process \<Rightarrow> process" where
  "log_info line p = p\<lparr>main_log := main_log p @ [line]\<rparr>"

text \<open>The goroutine that listens, and the requests.\<close>

inductive server_step :: "process \<Rightarrow> process \<Rightarrow> bool" where
  listens: "listener p = NotYet \<Longrightarrow>
    server_step p (log_info ServerStarting (p\<lparr>listener := if phase p \<in> {Draining, Closing} then Closed else Listening\<rparr>))"
| listen_fails: "listener p = NotYet \<Longrightarrow> phase p \<notin> {Draining, Closing} \<Longrightarrow>
    server_step p (log_info ServerFailed (log_info ServerStarting (p\<lparr>phase := Ended 1\<rparr>)))"
| serve_fails: "listener p = Listening \<Longrightarrow> server_step p (log_info ServerFailed (p\<lparr>phase := Ended 1\<rparr>))"
| accepts: "listener p = Listening \<Longrightarrow> server_step p (p\<lparr>busy := busy p + 1\<rparr>)"
| answers: "0 < busy p \<Longrightarrow> server_step p (p\<lparr>busy := busy p - 1\<rparr>)"

text \<open>\<^verbatim>\<open>main\<close> after it has started the server.\<close>

inductive shutdown_step :: "process \<Rightarrow> process \<Rightarrow> bool" where
  receives: "phase p = Waiting \<Longrightarrow> signalled p \<Longrightarrow>
    shutdown_step p (log_info ServerShuttingDown (p\<lparr>phase := Notified, signalled := False\<rparr>))"
| cancels: "phase p = Notified \<Longrightarrow>
    shutdown_step p (p\<lparr>phase := Cancelled, rootDone := True, deadline := clock p + shutdownTimeout\<rparr>)"
| begins: "phase p = Cancelled \<Longrightarrow>
    shutdown_step p (p\<lparr>phase := Draining, listener := if listener p = Listening then Closed else listener p\<rparr>)"
| drained: "phase p = Draining \<Longrightarrow> busy p = 0 \<Longrightarrow> shutdown_step p (p\<lparr>phase := Closing\<rparr>)"
| close_failed: "phase p = Draining \<Longrightarrow> busy p = 0 \<Longrightarrow>
    shutdown_step p (log_info ServerShutdownError (p\<lparr>phase := Closing\<rparr>))"
| times_out: "phase p = Draining \<Longrightarrow> deadline p \<le> clock p \<Longrightarrow>
    shutdown_step p (log_info ServerShutdownError (p\<lparr>phase := Closing\<rparr>))"
| closes: "phase p = Closing \<Longrightarrow> shutdown_step p (p\<lparr>phase := Ended 0, poolOpen := False\<rparr>)"

inductive main_step :: "process \<Rightarrow> process \<Rightarrow> bool" where
  server: "\<not> ended (phase p) \<Longrightarrow> server_step p q \<Longrightarrow> main_step p q"
| shutdown: "shutdown_step p q \<Longrightarrow> main_step p q"
| notifies: "\<not> ended (phase p) \<Longrightarrow> main_step p (p\<lparr>signalled := True\<rparr>)"
| loop_returns: "\<not> ended (phase p) \<Longrightarrow> rootDone p \<Longrightarrow> 0 < loops p \<Longrightarrow> main_step p (p\<lparr>loops := loops p - 1\<rparr>)"
| passes: "\<not> ended (phase p) \<Longrightarrow> 0 \<le> d \<Longrightarrow> main_step p (p\<lparr>clock := clock p + d\<rparr>)"

inductive_cases main_stepE: "main_step p q"

section \<open>What holds of every process\<close>

lemma log_info_sel [simp]:
  "phase (log_info l p) = phase p" "listener (log_info l p) = listener p" "busy (log_info l p) = busy p"
  "loops (log_info l p) = loops p" "signalled (log_info l p) = signalled p" "rootDone (log_info l p) = rootDone p"
  "poolOpen (log_info l p) = poolOpen p" "clock (log_info l p) = clock p" "deadline (log_info l p) = deadline p"
  "main_log (log_info l p) = main_log p @ [l]"
  by (simp_all add: log_info_def)

definition past_signal :: "phase \<Rightarrow> bool" where
  "past_signal ph \<longleftrightarrow> ph \<in> {Notified, Cancelled, Draining, Closing, Ended 0}"

definition process_ok :: "process \<Rightarrow> bool" where
  "process_ok p \<longleftrightarrow>
    (case phase p of Ended c \<Rightarrow> c \<le> 1 | _ \<Rightarrow> True) \<and>
    (ServerFailed \<in> set (main_log p) \<longleftrightarrow> phase p = Ended 1) \<and>
    (past_signal (phase p) \<longrightarrow> ServerShuttingDown \<in> set (main_log p)) \<and>
    (phase p = Waiting \<longrightarrow> ServerShuttingDown \<notin> set (main_log p)) \<and>
    (poolOpen p \<longleftrightarrow> phase p \<noteq> Ended 0) \<and>
    (phase p \<in> {Cancelled, Draining, Closing, Ended 0} \<longrightarrow> rootDone p) \<and>
    (phase p \<in> {Waiting, Notified} \<longrightarrow> \<not> rootDone p) \<and>
    (phase p \<in> {Cancelled, Draining} \<longrightarrow> deadline p \<le> clock p + shutdownTimeout) \<and>
    (phase p \<in> {Draining, Closing, Ended 0} \<longrightarrow> listener p \<noteq> Listening) \<and>
    (phase p \<in> {Closing, Ended 0} \<longrightarrow> busy p = 0 \<or>
      deadline p \<le> clock p \<and> ServerShutdownError \<in> set (main_log p)) \<and>
    (\<not> rootDone p \<longrightarrow> loops p = 5)"

lemma launched_ok: "process_ok (launched now)"
  by (simp add: process_ok_def launched_def past_signal_def)

lemma server_step_ok:
  assumes "server_step p q" and "\<not> ended (phase p)" and "process_ok p"
  shows "process_ok q"
  using assms(1)
proof cases
  case listens
  then show ?thesis using assms(2,3) by (cases "phase p") (simp_all add: process_ok_def past_signal_def)
next
  case listen_fails
  then show ?thesis using assms(2,3) by (cases "phase p") (simp_all add: process_ok_def past_signal_def)
next
  case serve_fails
  then show ?thesis using assms(2,3) by (cases "phase p") (simp_all add: process_ok_def past_signal_def)
next
  case accepts
  then show ?thesis using assms(3) by (simp add: process_ok_def)
next
  case answers
  then show ?thesis using assms(3) by (auto simp: process_ok_def)
qed

lemma shutdown_step_ok: "shutdown_step p q \<Longrightarrow> process_ok p \<Longrightarrow> process_ok q"
  by (induction rule: shutdown_step.induct) (simp_all add: process_ok_def past_signal_def)

lemma main_step_ok:
  assumes "main_step p q" and "process_ok p"
  shows "process_ok q"
  using assms(1)
proof cases
  case server
  then show ?thesis using server_step_ok assms(2) by blast
next
  case shutdown
  then show ?thesis using shutdown_step_ok assms(2) by blast
next
  case notifies
  then show ?thesis using assms(2) by (simp add: process_ok_def)
next
  case loop_returns
  then show ?thesis using assms(2) by (simp add: process_ok_def)
next
  case (passes d)
  then show ?thesis using assms(2) by (cases "phase p") (auto simp: process_ok_def)
qed

lemma reachable_ok: "main_step\<^sup>*\<^sup>* (launched now) p \<Longrightarrow> process_ok p"
  by (induction rule: rtranclp_induct) (auto intro: launched_ok main_step_ok)

section \<open>The way to the end\<close>

text \<open>
  \<open>main_alone\<close> is \<^verbatim>\<open>main\<close> going on by itself, or waiting: no request is answered meanwhile and nothing
  else runs. Once a signal has come, this is enough to end, after the timeout at the latest.
\<close>

inductive main_alone :: "process \<Rightarrow> process \<Rightarrow> bool" where
  proceeds: "shutdown_step p q \<Longrightarrow> main_alone p q"
| waits: "\<not> ended (phase p) \<Longrightarrow> 0 \<le> d \<Longrightarrow> main_alone p (p\<lparr>clock := clock p + d\<rparr>)"

lemma shutdown_step_busy: "shutdown_step p q \<Longrightarrow> busy q = busy p"
  by (induction rule: shutdown_step.induct) simp_all

lemma main_alone_step: "main_alone p q \<Longrightarrow> main_step p q \<and> busy q = busy p"
  by (induction rule: main_alone.induct) (auto intro: shutdown passes simp: shutdown_step_busy)

lemma main_alone_steps: "main_alone\<^sup>*\<^sup>* p q \<Longrightarrow> main_step\<^sup>*\<^sup>* p q \<and> busy q = busy p"
proof (induction rule: rtranclp_induct)
  case (step q r)
  then show ?case using main_alone_step [OF step(2)] by (auto intro: rtranclp.rtrancl_into_rtrancl)
qed simp

definition ends_in_time :: "process \<Rightarrow> bool" where
  "ends_in_time p \<longleftrightarrow> (\<exists>q. main_alone\<^sup>*\<^sup>* p q \<and> phase q = Ended 0 \<and> clock q \<le> clock p + shutdownTimeout)"

lemma ends_Draining:
  assumes "phase p = Draining" and "deadline p \<le> clock p + shutdownTimeout"
  shows "ends_in_time p"
proof -
  let ?p1 = "p\<lparr>clock := clock p + shutdownTimeout\<rparr>"
  let ?p2 = "log_info ServerShutdownError (?p1\<lparr>phase := Closing\<rparr>)"
  have "main_alone p ?p1" using assms by (intro waits) (simp_all add: shutdownTimeout_def less_imp_le)
  moreover have "main_alone ?p1 ?p2" using assms by (intro proceeds times_out) simp_all
  moreover have "main_alone ?p2 (?p2\<lparr>phase := Ended 0, poolOpen := False\<rparr>)" by (intro proceeds closes) simp
  ultimately have "main_alone\<^sup>*\<^sup>* p (?p2\<lparr>phase := Ended 0, poolOpen := False\<rparr>)" by auto
  then show ?thesis unfolding ends_in_time_def by (intro exI) auto
qed

lemma ends_after:
  assumes "main_alone p p'" and "clock p' = clock p"
    and "ends_in_time p'"
  shows "ends_in_time p"
  using assms unfolding ends_in_time_def by (metis converse_rtranclp_into_rtranclp)

lemma ends_Cancelled:
  "phase p = Cancelled \<Longrightarrow> deadline p \<le> clock p + shutdownTimeout \<Longrightarrow> ends_in_time p"
  by (rule ends_after [OF proceeds [OF begins]], assumption, simp, rule ends_Draining) simp_all

lemma ends_Notified:
  "phase p = Notified \<Longrightarrow> ends_in_time p"
  by (rule ends_after [OF proceeds [OF cancels]], assumption, simp, rule ends_Cancelled) simp_all

lemma ends_Waiting:
  "phase p = Waiting \<Longrightarrow> signalled p \<Longrightarrow> ends_in_time p"
  by (rule ends_after [OF proceeds [OF receives]], assumption, assumption, simp, rule ends_Notified) simp

lemma ends_Closing:
  assumes "phase p = Closing"
  shows "ends_in_time p"
  using proceeds [OF closes [OF assms]] unfolding ends_in_time_def
  by (intro exI, intro conjI, rule r_into_rtranclp) (auto simp: shutdownTimeout_def less_imp_le)

lemma process_ends:
  assumes "process_ok p" and "\<not> ended (phase p)" and "signalled p \<or> phase p \<noteq> Waiting"
  shows "ends_in_time p"
  using assms ends_Waiting ends_Notified ends_Cancelled ends_Draining ends_Closing
  by (cases "phase p") (auto simp: process_ok_def)

text \<open>The deadline is the timeout after the moment the root context is cancelled, so at least that after any moment before.\<close>

definition grace_from :: "time \<Rightarrow> process \<Rightarrow> bool" where
  "grace_from t p \<longleftrightarrow> t \<le> clock p \<and>
    (phase p \<in> {Cancelled, Draining, Closing, Ended 0} \<longrightarrow> t + shutdownTimeout \<le> deadline p)"

lemma server_step_grace: "server_step p q \<Longrightarrow> grace_from t p \<Longrightarrow> grace_from t q"
  by (induction rule: server_step.induct) (simp_all add: grace_from_def)

lemma shutdown_step_grace: "shutdown_step p q \<Longrightarrow> grace_from t p \<Longrightarrow> grace_from t q"
  by (induction rule: shutdown_step.induct) (simp_all add: grace_from_def)

lemma main_step_grace:
  assumes "main_step p q" and "grace_from t p"
  shows "grace_from t q"
  using assms(1)
proof cases
  case server
  then show ?thesis using server_step_grace assms(2) by blast
next
  case shutdown
  then show ?thesis using shutdown_step_grace assms(2) by blast
qed (use assms(2) in \<open>simp_all add: grace_from_def\<close>)

lemma grace_kept:
  assumes "main_step\<^sup>*\<^sup>* p q" and "phase p \<in> {Waiting, Notified}"
  shows "grace_from (clock p) q"
  using assms(1)
proof (induction rule: rtranclp_induct)
  case base
  then show ?case using assms(2) by (auto simp: grace_from_def)
next
  case (step q r)
  then show ?case using main_step_grace by blast
qed

lemma busy_end_waits:
  assumes "main_step\<^sup>*\<^sup>* p q" and "process_ok q" and "phase p \<in> {Waiting, Notified}"
    and "phase q = Ended 0" and "0 < busy q"
  shows "clock p + shutdownTimeout \<le> clock q"
  using grace_kept [OF assms(1,3)] assms(2,4,5) by (auto simp: grace_from_def process_ok_def)

end
