(* ===== verification/Startup_Properties.thy ===== *)
theory Startup_Properties
  imports Startup Lifecycle
begin

text \<open>
  The properties of configuration and start-up, with an environment and a host on which an instance
  starts.
\<close>

definition example_environment :: environment where
  "example_environment = (\<lambda>_. [])
    (''R2_ENDPOINT'' := ''https://r2.example.com'', ''R2_ACCESS_KEY_ID'' := ''id'', ''R2_SECRET_ACCESS_KEY'' := ''secret'',
     ''R2_PUBLIC_BASE_URL'' := ''https://cdn.example.com'', ''ALLOWED_ORIGIN'' := ''https://example.com'',
     ''IP_HASH_SALT'' := ''pepper'', ''DATABASE_DSN'' := ''postgres://db'', ''ADMIN_BOOTSTRAP_USERNAME'' := ''root'',
     ''ADMIN_BOOTSTRAP_PASSWORD'' := ''correct horse'')"

definition no_num :: "string \<Rightarrow> string \<Rightarrow> error" where
  "no_num f s = Errorf (f @ s)"

lemma example_Load:
  "\<exists>c. Load no_num example_environment = Inr c \<and> FileSweepIntervalMins c = 5 \<and> DatabaseMaxConns c = 5 \<and>
    RateLimitMaxConcurrentUploads c = 50 \<and> FileTTLHours c = 24 \<and> CloudflareCacheEnabled c = False \<and> cfg_NodeID c = [] \<and>
    NodeHeartbeatIntervalSecs c = 15 \<and> NodeJanitorIntervalSecs c = 20 \<and> DatabaseDSN c = ''postgres://db'' \<and>
    AdminBootstrapUsername c = ''root'' \<and> AdminBootstrapPassword c = ''correct horse'' \<and>
    cfg_R2AccessKeyID c \<noteq> [] \<and> cfg_R2SecretAccessKey c \<noteq> []"
  by (simp add: Load_def bindE_def load_concurrency_def parseIntOrDefault_def parseBoolOrDefault_def getEnvOrDefault_def
      example_environment_def validate_def require_def validate_salt_def validate_cloudflare_def insecureDefaultIPHashSalt_def
      i32_def Let_def)

section \<open>What is not checked\<close>

lemma Load_sweep_interval:
  assumes "Load num env = Inr c"
  shows "Load num (env(''FILE_SWEEP_INTERVAL_MINUTES'' := ''0'')) = Inr (c\<lparr>FileSweepIntervalMins := 0\<rparr>)"
proof -
  let ?env = "env(''FILE_SWEEP_INTERVAL_MINUTES'' := ''0'')"
  have zero: "parseIntOrDefault num ?env ''FILE_SWEEP_INTERVAL_MINUTES'' f = Inr 0" for f
    by (rule parseInt_show) (simp, simp, code_simp)
  have int: "parseIntOrDefault num ?env k f = parseIntOrDefault num env k f"
    and bool: "parseBoolOrDefault num ?env k b = parseBoolOrDefault num env k b"
    and val: "getEnvOrDefault ?env k v = getEnvOrDefault env k v" if "k \<noteq> ''FILE_SWEEP_INTERVAL_MINUTES''" for k f b v
    using that by (simp_all add: parseIntOrDefault_def parseBoolOrDefault_def getEnvOrDefault_def)
  obtain m where m: "parseIntOrDefault num env ''FILE_SWEEP_INTERVAL_MINUTES'' 5 = Inr m"
    using assms by (auto simp: Load_def bindE_Inr)
  have "validate num ?env c = validate num env (c\<lparr>FileSweepIntervalMins := m\<rparr>)" for c
    by (simp add: validate_def validate_salt_def validate_cloudflare_def bool cong: option.case_cong)
  moreover have "load_concurrency num ?env = load_concurrency num env"
    by (simp add: load_concurrency_def int cong: if_cong)
  ultimately show ?thesis
    using assms m unfolding Load_def by (auto simp: bindE_Inr Let_def zero int bool val split: option.splits)
qed

text \<open>C40. The sweep interval is not validated: whatever configuration loads also loads with
  \<^verbatim>\<open>FILE_SWEEP_INTERVAL_MINUTES=0\<close>, and then no instance serves, whatever the rest of the world does: if
  nothing else stops it first, the ticker of the sweeper panics.\<close>

theorem unchecked_sweep_interval:
  assumes "Load num env = Inr c"
  shows "Load num (env(''FILE_SWEEP_INTERVAL_MINUTES'' := ''0'')) = Inr (c\<lparr>FileSweepIntervalMins := 0\<rparr>) \<and>
    (run_state (start (h\<lparr>host_num := num, host_env := env(''FILE_SWEEP_INTERVAL_MINUTES'' := ''0'')\<rparr>)) w = (b, w') \<longrightarrow>
      b = Crashed \<or> (\<exists>e. b = Exited e))"
proof -
  note load = Load_sweep_interval [OF assms]
  have "\<not> tickers_start (c\<lparr>FileSweepIntervalMins := 0\<rparr>)" by (simp add: tickers_start_def interval_def i64_def)
  then have "b \<noteq> Serving i"
    if "run_state (start (h\<lparr>host_num := num, host_env := env(''FILE_SWEEP_INTERVAL_MINUTES'' := ''0'')\<rparr>)) w = (b, w')" for i
    using start_Serving [of "h\<lparr>host_num := num, host_env := env(''FILE_SWEEP_INTERVAL_MINUTES'' := ''0'')\<rparr>" w i w'] that load
    by auto
  then show ?thesis using load by (cases b) auto
qed

definition example_host :: "(unit, unit, world) host" where
  "example_host = \<lparr>host_env = example_environment, host_num = no_num,
     host_pgx = \<lparr>ParseConfig = (\<lambda>_. None), NewWithConfig = (\<lambda>_ _. Inr ()), Ping = (\<lambda>_. None)\<rparr>,
     host_script = (\<lambda>_ w. Inr ((), w)), host_ReadDir = (\<lambda>_. Inr []), host_ReadFile = (\<lambda>_. Inr []),
     host_bcrypt = (\<lambda>p. Inr (''hash:'' @ p)),
     host_sdk = \<lparr>LoadDefaultConfig = (\<lambda>_ _ _ _. Inr ()), s3_DeleteObject = (\<lambda>_ _. client_DeleteObject ref_r2),
       manager_Upload = (\<lambda>_ _. uploader_Upload ref_r2)\<rparr>,
     host_http = httpClient_Do ref_cf, host_url = url_error ref_cf, host_unmarshal = json_Unmarshal ref_cf,
     host_uuid = ''admin-1'', host_now = 0, host_register = (\<lambda>_ _. True),
     host_Hostname = Inr ''host'', host_rand = Inr [CHR 0x2A]\<rparr>"

lemma example_host_sel [simp]:
  "host_env example_host = example_environment" "host_num example_host = no_num"
  "NewRepository (host_pgx example_host) ''postgres://db'' n = Inr ()"
  "host_script example_host = (\<lambda>_ w. Inr ((), w))" "host_ReadDir example_host = (\<lambda>_. Inr [])"
  "host_bcrypt example_host p = Inr (''hash:'' @ p)" "host_uuid example_host = ''admin-1''" "host_now example_host = 0"
proof -
  have "isPostgresDSN ''postgres://db''" by code_simp
  then show "NewRepository (host_pgx example_host) ''postgres://db'' n = Inr ()"
    by (simp add: NewRepository_def NewPostgresRepository_def example_host_def)
qed (simp_all add: example_host_def)

lemma example_start_at:
  "\<exists>i w'. run_state (start (example_host\<lparr>host_now := now, host_uuid := uuid, host_Hostname := Inr name, host_rand := Inr buf\<rparr>))
    empty_world = (Serving i, w') \<and> length (admins w') = 1 \<and> db_up w' \<and> admin_sessions w' = []"
proof -
  let ?h = "example_host\<lparr>host_now := now, host_uuid := uuid, host_Hostname := Inr name, host_rand := Inr buf\<rparr>"
  obtain c where c: "Load no_num example_environment = Inr c" "FileSweepIntervalMins c = 5" "DatabaseDSN c = ''postgres://db''"
      "RateLimitMaxConcurrentUploads c = 50" "NodeHeartbeatIntervalSecs c = 15" "NodeJanitorIntervalSecs c = 20"
      "AdminBootstrapUsername c = ''root''" "AdminBootstrapPassword c = ''correct horse''"
    using example_Load by blast
  have ticks: "tickers_start c" by (simp add: tickers_start_def c interval_def i64_def Second_def Minute_def)
  have build: "\<exists>i. build ?h c s = Serving i" for s
    by (simp add: build_def example_host_def NewR2Client_def NewConcurrencyLimiter_def NewMetrics_def c ResolveNodeID_def randomHex_def ticks)
  show ?thesis
    by (simp add: start_def c exit_on_def Migrate_def
        migration_names_def Bootstrap_def PostgresAdmins_def pg_CountAdmins_def pg_InsertAdmin_def insert_admin_stmt_def
        run_pg_exec_ok minPasswordLength_def SeedUploadSettings_def PostgresSettings_def pg_SeedUploadSettingsIfMissing_def
        pg_GetUploadSettings_def find_row_up SeedLegalDocuments_def PostgresLegal_def pg_SeedLegalDocumentIfMissing_def
        seed_legal_stmt_def empty_world_def db_up_def build)
qed

lemma example_start: "\<exists>i w'. run_state (start example_host) empty_world = (Serving i, w') \<and> length (admins w') = 1"
proof -
  have "example_host\<lparr>host_now := 0, host_uuid := ''admin-1'', host_Hostname := Inr ''host'', host_rand := Inr [CHR 0x2A]\<rparr> = example_host"
    by (simp add: example_host_def)
  then show ?thesis using example_start_at by metis
qed

theorem unchecked_sweep_interval_witness:
  "\<exists>c b w'. Load no_num (example_environment(''FILE_SWEEP_INTERVAL_MINUTES'' := ''0'')) = Inr c \<and> FileSweepIntervalMins c = 0 \<and>
    run_state (start (example_host\<lparr>host_num := no_num, host_env := example_environment(''FILE_SWEEP_INTERVAL_MINUTES'' := ''0'')\<rparr>))
      empty_world = (b, w') \<and> (b = Crashed \<or> (\<exists>e. b = Exited e))"
proof -
  let ?h = "example_host\<lparr>host_num := no_num, host_env := example_environment(''FILE_SWEEP_INTERVAL_MINUTES'' := ''0'')\<rparr>"
  obtain c where c: "Load no_num example_environment = Inr c" using example_Load by blast
  obtain b w' where b: "run_state (start ?h) empty_world = (b, w')" by force
  show ?thesis using unchecked_sweep_interval [OF c, of example_host empty_world b w'] b by auto
qed

section \<open>A server that serves\<close>

text \<open>C27. An instance that gets as far as serving runs on a validated configuration: storage credentials, an
  origin and, unless the operator overrode it, a salt of its own are set, a node is only called stale
  after more than a heartbeat's interval, no ticker or channel panics, and every upload slot is free. In the database there is an
  admin account, both legal documents and a row of upload settings, and it is this row that the
  validator starts with.\<close>

theorem serving_instance_ready:
  assumes "run_state (start h) w = (Serving i, w')"
  shows "let c = inst_config i in
    Load (host_num h) (host_env h) = Inr c \<and> isPostgresDSN (DatabaseDSN c) \<and>
    cfg_R2Endpoint c \<noteq> [] \<and> cfg_R2AccessKeyID c \<noteq> [] \<and> cfg_R2SecretAccessKey c \<noteq> [] \<and> R2PublicBaseURL c \<noteq> [] \<and>
    AllowedOrigin c \<noteq> [] \<and> 0 < DatabaseMaxConns c \<and> NodeHeartbeatIntervalSecs c < NodeStaleAfterSecs c \<and>
    (IPHashSalt c \<in> {insecureDefaultIPHashSalt, []} \<longrightarrow> ParseBool (host_env h ''ALLOW_INSECURE_IP_HASH_SALT'') = Some True) \<and>
    (CloudflareCacheEnabled c \<longrightarrow> CloudflareZoneID c \<noteq> [] \<and> CloudflareAPIToken c \<noteq> []) \<and>
    0 < interval (FileSweepIntervalMins c) Minute \<and> 0 \<le> RateLimitMaxConcurrentUploads c \<and>
    concurrencyLimiter (inst_handler i) = \<lparr>capacity = nat (RateLimitMaxConcurrentUploads c), in_use = 0\<rparr> \<and>
    admins w' \<noteq> [] \<and> {LegalDocTerms, LegalDocPrivacy} \<subseteq> DocType ` set (legal_documents w') \<and>
    (\<exists>s. upload_settings w' = Some s \<and> inst_rules i = stored_rules s)"
proof -
  note start = start_Serving [OF assms]
  let ?c = "inst_config i"
  have valid: "validate (host_num h) (host_env h) ?c = None" using start Load_validated by blast
  then have salt: "IPHashSalt ?c \<in> {insecureDefaultIPHashSalt, []} \<longrightarrow>
      ParseBool (host_env h ''ALLOW_INSECURE_IP_HASH_SALT'') = Some True"
    by (auto simp: validate_None validate_salt_def parseBoolOrDefault_def Let_def split: sum.splits if_splits option.splits)
  have "CloudflareCacheEnabled ?c \<longrightarrow> CloudflareZoneID ?c \<noteq> [] \<and> CloudflareAPIToken ?c \<noteq> []"
    using valid by (auto simp: validate_None validate_cloudflare_def require_None)
  then show ?thesis using start valid salt by (simp add: validate_None tickers_start_def)
qed

theorem serving_instance_ready_witness:
  "\<exists>i w'. run_state (start example_host) empty_world = (Serving i, w') \<and> admins w' \<noteq> [] \<and>
    NodeHeartbeatIntervalSecs (inst_config i) < NodeStaleAfterSecs (inst_config i)"
proof -
  obtain i w' where run: "run_state (start example_host) empty_world = (Serving i, w')" using example_start by blast
  then show ?thesis using serving_instance_ready [OF run] by (auto simp: Let_def)
qed

section \<open>The end of the process\<close>

text \<open>C35. Until a process ends, its pool is open. It ends with 1 only if the server failed, and with 0 only
  after a signal, with the background loops told to stop, the listener closed and the pool too. Requests
  that are still being answered then have been given the 15 seconds of the timeout, which is logged: the
  end comes no earlier than 15 seconds after any moment before the root context was cancelled. From the
  signal on, whatever else happens, \<^verbatim>\<open>main\<close> can always go on by itself, without any of these requests
  being answered, and it needs no more than these 15 seconds beyond what closing the pool takes.\<close>

theorem shutdown_orderly:
  assumes "main_step\<^sup>*\<^sup>* (launched now) p"
  shows "(poolOpen p \<longleftrightarrow> phase p \<noteq> Ended 0) \<and>
    (\<forall>c. phase p = Ended c \<longrightarrow> c = (if ServerFailed \<in> set (main_log p) then 1 else 0)) \<and>
    (phase p = Ended 0 \<longrightarrow> ServerShuttingDown \<in> set (main_log p) \<and> rootDone p \<and> listener p \<noteq> Listening \<and>
      (busy p = 0 \<or> deadline p \<le> clock p \<and> ServerShutdownError \<in> set (main_log p))) \<and>
    (\<not> ended (phase p) \<and> (signalled p \<or> phase p \<noteq> Waiting) \<longrightarrow>
      (\<exists>q. main_alone\<^sup>*\<^sup>* p q \<and> main_step\<^sup>*\<^sup>* p q \<and> phase q = Ended 0 \<and> busy q = busy p \<and>
        clock q \<le> clock p + 15 * Second)) \<and>
    (\<forall>q. phase p \<in> {Waiting, Notified} \<and> main_step\<^sup>*\<^sup>* p q \<and> phase q = Ended 0 \<and> 0 < busy q \<longrightarrow>
      clock p + 15 * Second \<le> clock q)"
proof -
  note ok = reachable_ok [OF assms]
  have "c = (if ServerFailed \<in> set (main_log p) then 1 else 0)" if "phase p = Ended c" for c
  proof -
    have "c \<le> 1" using ok that by (simp add: process_ok_def)
    then have "c = 0 \<or> c = 1" by auto
    then show ?thesis using ok that by (auto simp: process_ok_def)
  qed
  moreover have "\<exists>q. main_alone\<^sup>*\<^sup>* p q \<and> main_step\<^sup>*\<^sup>* p q \<and> phase q = Ended 0 \<and> busy q = busy p \<and>
      clock q \<le> clock p + 15 * Second" if "\<not> ended (phase p)" "signalled p \<or> phase p \<noteq> Waiting"
    using process_ends [OF ok that] main_alone_steps unfolding ends_in_time_def shutdownTimeout_def by blast
  moreover have "clock p + 15 * Second \<le> clock q"
    if "phase p \<in> {Waiting, Notified}" "main_step\<^sup>*\<^sup>* p q" "phase q = Ended 0" "0 < busy q" for q
    using busy_end_waits [OF that(2) reachable_ok [OF rtranclp_trans [OF assms that(2)]] that(1,3,4)]
    by (simp add: shutdownTimeout_def)
  ultimately show ?thesis using ok by (simp add: process_ok_def past_signal_def)
qed

theorem shutdown_orderly_witness:
  "\<exists>p. main_step\<^sup>*\<^sup>* (launched 0) p \<and> busy p = 1 \<and> signalled p \<and> poolOpen p \<and>
    (\<exists>q. main_step\<^sup>*\<^sup>* p q \<and> phase q = Ended 0 \<and> busy q = 1 \<and> clock q = 15 * Second)"
proof -
  let ?p1 = "log_info ServerStarting ((launched 0)\<lparr>listener := Listening\<rparr>)"
  let ?p2 = "?p1\<lparr>busy := busy ?p1 + 1\<rparr>" let ?p = "?p2\<lparr>signalled := True\<rparr>"
  have "main_step (launched 0) ?p1"
    using server [OF _ listens, of "launched 0"] by (simp add: launched_def)
  moreover have "main_step ?p1 ?p2" by (intro server accepts) (simp_all add: launched_def)
  moreover have "main_step ?p2 ?p" by (rule notifies) (simp add: launched_def)
  ultimately have run: "main_step\<^sup>*\<^sup>* (launched 0) ?p" by auto
  have p: "phase ?p = Waiting" "busy ?p = 1" "clock ?p = 0" "signalled ?p" "poolOpen ?p" by (simp_all add: launched_def)
  have "\<not> ended (phase ?p)" by (simp add: launched_def)
  with shutdown_orderly [OF run] p
  obtain q where q: "main_step\<^sup>*\<^sup>* ?p q" "phase q = Ended 0" "busy q = 1" "clock q \<le> 15 * Second"
    and least: "\<forall>q. main_step\<^sup>*\<^sup>* ?p q \<and> phase q = Ended 0 \<and> 0 < busy q \<longrightarrow> 15 * Second \<le> clock q"
    by auto
  then have "clock q = 15 * Second" by (simp add: order_antisym)
  then show ?thesis using run p q(1-3) by blast
qed

end
