(* ===== verification/System.thy ===== *)
theory System
  imports File_Properties
begin

text \<open>
  The file service as a whole: instances upload, delete and sweep in any order on one database and one
  bucket, while anything may fail at any call. \<open>store_step\<close> is the specification, a table from file ids
  to records and the content behind them; \<open>system_step\<close> is the code, and refines it.
\<close>

section \<open>The specification\<close>

type_synonym stored = "FileRecord \<times> (bytes \<times> string) option"

datatype event =
    Uploaded upload_env Input
  | Deleted time string string
  | Swept time
  | Elsewhere

inductive store_step :: "duration \<Rightarrow> event \<Rightarrow> (string \<rightharpoonup> stored) \<Rightarrow> (string \<rightharpoonup> stored) \<Rightarrow> bool" for ttl where
  idle: "store_step ttl e m m"
| add: "m (env_uuid env) = None \<Longrightarrow> file_ID r = env_uuid env \<Longrightarrow> file_ExpiresAt r = env_now env + ttl \<Longrightarrow>
    ChecksumSHA256 r = sha256_hex (content (in_Content input)) \<Longrightarrow>
    (case obj of None \<Rightarrow> True | Some ob \<Rightarrow> stored_as r ob \<and> fst ob = content (in_Content input)) \<Longrightarrow>
    store_step ttl (Uploaded env input) m (m(env_uuid env \<mapsto> (r, obj)))"
| remove: "m fid = Some (r, obj) \<Longrightarrow> token \<noteq> [] \<Longrightarrow> DeleteTokenHash r = sha256_hex token \<Longrightarrow> now \<le> file_ExpiresAt r \<Longrightarrow>
    v \<in> {Some (r, obj), Some (r, None), None} \<Longrightarrow> store_step ttl (Deleted now fid token) m (m(fid := v))"
| expire: "(\<And>fid. m' fid = m fid \<or>
      (\<exists>r obj. m fid = Some (r, obj) \<and> file_ExpiresAt r \<le> now \<and> m' fid \<in> {Some (r, None), None})) \<Longrightarrow>
    store_step ttl (Swept now) m m'"

inductive_cases store_step_UploadedE: "store_step ttl (Uploaded env input) m m'"
inductive_cases store_step_DeletedE: "store_step ttl (Deleted now fid token) m m'"
inductive_cases store_step_SweptE: "store_step ttl (Swept now) m m'"
inductive_cases store_step_ElsewhereE: "store_step ttl Elsewhere m m'"

inductive store_run :: "duration \<Rightarrow> event list \<Rightarrow> (string \<rightharpoonup> stored) \<Rightarrow> (string \<rightharpoonup> stored) \<Rightarrow> bool" for ttl where
  stop: "store_run ttl [] m m"
| go: "store_step ttl e m m' \<Longrightarrow> store_run ttl es m' m'' \<Longrightarrow> store_run ttl (e # es) m m''"

text \<open>An event can affect the file \<open>fid\<close>, once it is stored, only by its token or after its expiry.\<close>

definition may_remove :: "event \<Rightarrow> FileRecord \<Rightarrow> bool" where
  "may_remove e r \<longleftrightarrow>
    (case e of Deleted now fid token \<Rightarrow> fid = file_ID r \<and> token \<noteq> [] \<and> DeleteTokenHash r = sha256_hex token \<and> now \<le> file_ExpiresAt r
     | Swept now \<Rightarrow> file_ExpiresAt r \<le> now
     | _ \<Rightarrow> False)"

lemma store_step_keeps:
  assumes "store_step ttl e m m'" and "m fid = Some (r, obj)" and "file_ID r = fid" and "\<not> may_remove e r"
  shows "m' fid = Some (r, obj)"
  using assms(1)
proof cases
  case idle
  then show ?thesis using assms(2) by simp
next
  case (add env r' input obj')
  then have "fid \<noteq> env_uuid env" using assms(2) by auto
  then show ?thesis using add(2) assms(2) by simp
next
  case (remove fid' r' obj' token now v)
  have "fid \<noteq> fid'"
  proof
    assume "fid = fid'"
    then have "r' = r" using remove(3) assms(2) by simp
    then show False using remove(1,4,5,6) assms(3,4) \<open>fid = fid'\<close> by (simp add: may_remove_def)
  qed
  then show ?thesis using remove(2) assms(2) by simp
next
  case (expire now)
  from expire(2) [of fid] show ?thesis
  proof
    assume "\<exists>r obj. m fid = Some (r, obj) \<and> file_ExpiresAt r \<le> now \<and> m' fid \<in> {Some (r, None), None}"
    then have "file_ExpiresAt r \<le> now" using assms(2) by auto
    then show ?thesis using expire(1) assms(4) by (simp add: may_remove_def)
  qed (use assms(2) in simp)
qed

section \<open>The code\<close>

lemma empty_integrity [simp]: "integrity [] os"
  by (simp add: integrity_def)

definition store_of :: "FileRecord list \<Rightarrow> bucket \<Rightarrow> string \<rightharpoonup> stored" where
  "store_of rs os fid = map_option (\<lambda>r. (r, os (ObjectKey r))) (find (\<lambda>r. file_ID r = fid) rs)"

lemma store_of_Some:
  assumes "distinct (map file_ID rs)"
  shows "store_of rs os fid = Some (r, obj) \<longleftrightarrow> r \<in> set rs \<and> file_ID r = fid \<and> obj = os (ObjectKey r)"
proof -
  have "find (\<lambda>r. file_ID r = fid) rs = Some r \<longleftrightarrow> r \<in> set rs \<and> file_ID r = fid"
  proof
    assume "find (\<lambda>r. file_ID r = fid) rs = Some r"
    then show "r \<in> set rs \<and> file_ID r = fid" using find_SomeD [of "\<lambda>r. file_ID r = fid" rs r] by simp
  next
    assume r: "r \<in> set rs \<and> file_ID r = fid"
    then have "find (\<lambda>r. file_ID r = fid) rs \<noteq> None" by (auto simp: find_None_iff)
    then obtain r' where r': "find (\<lambda>r. file_ID r = fid) rs = Some r'" by blast
    then have "r' \<in> set rs \<and> file_ID r' = fid" using find_SomeD [of "\<lambda>r. file_ID r = fid" rs r'] by simp
    then have "r' = r" using r distinct_map_eq [OF assms] by metis
    then show "find (\<lambda>r. file_ID r = fid) rs = Some r" using r' by simp
  qed
  then show ?thesis by (auto simp: store_of_def)
qed

lemma store_of_None: "store_of rs os fid = None \<longleftrightarrow> fid \<notin> file_ID ` set rs"
  by (auto simp: store_of_def find_None_iff)

lemma store_of_cong:
  "(\<And>r. r \<in> set rs \<Longrightarrow> os' (ObjectKey r) = os (ObjectKey r)) \<Longrightarrow> store_of rs os' = store_of rs os"
proof
  fix fid
  assume "\<And>r. r \<in> set rs \<Longrightarrow> os' (ObjectKey r) = os (ObjectKey r)"
  then show "store_of rs os' fid = store_of rs os fid"
    by (cases "find (\<lambda>r. file_ID r = fid) rs") (simp_all add: store_of_def find_SomeD(2) [of "\<lambda>r. file_ID r = fid"])
qed

lemma store_of_new:
  assumes "file_ID r \<notin> file_ID ` set rs" and "\<And>r'. r' \<in> set rs \<Longrightarrow> os' (ObjectKey r') = os (ObjectKey r')"
  shows "store_of (rs @ [r]) os' = (store_of rs os)(file_ID r \<mapsto> (r, os' (ObjectKey r)))"
proof
  fix fid
  have "store_of (rs @ [r]) os' fid = (case store_of rs os' fid of None \<Rightarrow>
      (if file_ID r = fid then Some (r, os' (ObjectKey r)) else None) | Some x \<Rightarrow> Some x)"
    by (induction rs) (auto simp: store_of_def)
  moreover have "store_of rs os' fid = store_of rs os fid"
    using store_of_cong [of rs os' os] assms(2) by simp
  moreover have "store_of rs os (file_ID r) = None" using assms(1) by (simp add: store_of_None)
  ultimately show "store_of (rs @ [r]) os' fid = ((store_of rs os)(file_ID r \<mapsto> (r, os' (ObjectKey r)))) fid"
    by (auto split: option.splits)
qed

lemma store_of_delete:
  "store_of (delete_rows i rs) os = (store_of rs os)(i := None)"
proof
  fix fid
  show "store_of (delete_rows i rs) os fid = ((store_of rs os)(i := None)) fid"
    by (induction rs) (auto simp: store_of_def delete_rows_def)
qed

lemma store_of_lose:
  assumes "integrity rs os" and "r \<in> set rs"
  shows "store_of rs (os(ObjectKey r := None)) = (store_of rs os)(file_ID r \<mapsto> (r, None))"
proof
  fix fid
  note dist = integrity_distinct [OF assms(1)]
  show "store_of rs (os(ObjectKey r := None)) fid = ((store_of rs os)(file_ID r \<mapsto> (r, None))) fid"
  proof (cases "store_of rs os fid")
    case None
    then have "fid \<noteq> file_ID r" "store_of rs (os(ObjectKey r := None)) fid = None"
      using assms(2) by (auto simp: store_of_None)
    then show ?thesis using None by simp
  next
    case (Some x)
    obtain r' obj where x: "x = (r', obj)" by (cases x)
    then have r': "r' \<in> set rs" "file_ID r' = fid" "obj = os (ObjectKey r')"
      using Some store_of_Some [OF dist] by auto
    have "store_of rs (os(ObjectKey r := None)) fid = Some (r', (os(ObjectKey r := None)) (ObjectKey r'))"
      using store_of_Some [OF dist] r' by blast
    moreover have "file_ID r = fid \<longleftrightarrow> r = r'" using distinct_map_eq [OF dist assms(2) r'(1)] r'(2) by auto
    moreover have "ObjectKey r' = ObjectKey r \<longleftrightarrow> r = r'" using integrity_keys [OF assms(1) r'(1) assms(2)] by auto
    ultimately show ?thesis using Some x r'(3) by auto
  qed
qed

text \<open>
  A step of the system is one operation of one instance. \<open>Elsewhere\<close> is everything that touches neither
  the file records nor the bucket: lookups, the admin service, other tables, services failing and coming
  back. A UUID is 36 characters long and not in use when it is drawn.
\<close>

inductive system_step ::
  "('x pg_scheme) R2Client \<Rightarrow> ('x \<Rightarrow> string \<Rightarrow> bucket) \<Rightarrow> ('x pg_scheme) cf_Client option \<Rightarrow> bool \<Rightarrow> (string \<Rightarrow> string)
    \<Rightarrow> duration \<Rightarrow> string \<Rightarrow> event \<Rightarrow> 'x pg_scheme \<Rightarrow> 'x pg_scheme \<Rightarrow> bool"
  for r2 bkt cf on uni ttl url where
  upload: "run_state (Upload uni (main_upload r2 ttl url) env input) w = (res, w') \<Longrightarrow>
    env_uuid env \<notin> file_ID ` set (files w) \<Longrightarrow> length (env_uuid env) = 36 \<Longrightarrow>
    0 \<le> Year (env_now env) \<Longrightarrow> Year (env_now env) \<le> 9999 \<Longrightarrow>
    system_step r2 bkt cf on uni ttl url (Uploaded env input) w w'"
| delete: "run_state (DeleteBeforeTTL (main_files r2 cf on) now fid token) w = (res', w') \<Longrightarrow>
    system_step r2 bkt cf on uni ttl url (Deleted now fid token) w w'"
| sweep: "run_state (sweepOnce (main_sweeper r2 cf on) now) w = (l, w') \<Longrightarrow>
    system_step r2 bkt cf on uni ttl url (Swept now) w w'"
| elsewhere: "files w' = files w \<Longrightarrow> R2Objects r2 bkt w' = R2Objects r2 bkt w \<Longrightarrow>
    system_step r2 bkt cf on uni ttl url Elsewhere w w'"

inductive system_run ::
  "('x pg_scheme) R2Client \<Rightarrow> ('x \<Rightarrow> string \<Rightarrow> bucket) \<Rightarrow> ('x pg_scheme) cf_Client option \<Rightarrow> bool \<Rightarrow> (string \<Rightarrow> string)
    \<Rightarrow> duration \<Rightarrow> string \<Rightarrow> event list \<Rightarrow> 'x pg_scheme \<Rightarrow> 'x pg_scheme \<Rightarrow> bool"
  for r2 bkt cf on uni ttl url where
  stop: "system_run r2 bkt cf on uni ttl url [] w w"
| go: "system_step r2 bkt cf on uni ttl url e w w' \<Longrightarrow> system_run r2 bkt cf on uni ttl url es w' w'' \<Longrightarrow>
    system_run r2 bkt cf on uni ttl url (e # es) w w''"

abbreviation own_store :: "('x pg_scheme) R2Client \<Rightarrow> ('x \<Rightarrow> string \<Rightarrow> bucket) \<Rightarrow> 'x pg_scheme \<Rightarrow> string \<rightharpoonup> stored" where
  "own_store r2 bkt w \<equiv> store_of (files w) (R2Objects r2 bkt w)"

section \<open>The code refines the specification\<close>

lemma integrity_sweep:
  assumes "integrity rs os" and "swept R rs os rs' os'" and "R \<subseteq> set rs"
  shows "integrity rs' os'"
proof -
  have "\<And>k. os' k = None \<or> os' k = os k" using assms(2) by (auto simp: swept_def)
  then have "integrity rs os'" using integrity_fewer_objects [OF assms(1)] by blast
  moreover obtain D where "D \<subseteq> R" and "rs' = filter (\<lambda>r. file_ID r \<notin> file_ID ` D) rs"
    and "\<forall>r \<in> D. os' (ObjectKey r) = None"
    using assms(2) by (rule sweptE)
  ultimately show ?thesis by (auto simp: integrity_def)
qed

lemma store_of_swept:
  assumes "integrity rs os" and "swept R rs os rs' os'" and "R \<subseteq> set (expired_rows now rs)"
  shows "store_of rs' os' fid = store_of rs os fid \<or>
    (\<exists>r obj. store_of rs os fid = Some (r, obj) \<and> file_ExpiresAt r \<le> now \<and> store_of rs' os' fid \<in> {Some (r, None), None})"
proof -
  have R: "r \<in> set rs \<and> file_ExpiresAt r \<le> now" if "r \<in> R" for r using assms(3) that by auto
  obtain D where D: "D \<subseteq> R" and rs': "rs' = filter (\<lambda>r. file_ID r \<notin> file_ID ` D) rs"
    and "\<forall>r \<in> D. os' (ObjectKey r) = None"
    using assms(2) by (rule sweptE)
  have gone: "fid \<notin> file_ID ` set rs'" if "fid \<in> file_ID ` D"
  proof
    assume "fid \<in> file_ID ` set rs'"
    then obtain x where "x \<in> set rs" "file_ID x = fid" "file_ID x \<notin> file_ID ` D" unfolding rs' by auto
    then show False using that by simp
  qed
  note dist = integrity_distinct [OF assms(1)]
  have dist': "distinct (map file_ID rs')" using dist rs' by simp
  show ?thesis
  proof (cases "store_of rs os fid")
    case None
    then have "store_of rs' os' fid = None" using rs' by (auto simp: store_of_None)
    then show ?thesis using None by simp
  next
    case (Some x)
    then obtain r obj where x: "x = (r, obj)" by (cases x)
    then have r: "r \<in> set rs" "file_ID r = fid" "obj = os (ObjectKey r)"
      using Some store_of_Some [OF dist] by auto
    show ?thesis
    proof (cases "fid \<in> file_ID ` D")
      case True
      then obtain d where d: "d \<in> D" "file_ID d = fid" by blast
      then have "d = r" using R D r distinct_map_eq [OF dist] by blast
      then have "file_ExpiresAt r \<le> now" using R D d by blast
      moreover have "store_of rs' os' fid = None" using gone [OF True] by (simp add: store_of_None)
      ultimately show ?thesis using Some x by simp
    next
      case False
      then have "r \<in> set rs'" using rs' r by simp
      then have new: "store_of rs' os' fid = Some (r, os' (ObjectKey r))"
        using store_of_Some [OF dist'] r(2) by blast
      have "os' (ObjectKey r) = os (ObjectKey r) \<or> os' (ObjectKey r) = None \<and> ObjectKey r \<in> ObjectKey ` R"
        using assms(2) by (simp add: swept_def)
      then show ?thesis
      proof
        assume "os' (ObjectKey r) = None \<and> ObjectKey r \<in> ObjectKey ` R"
        then obtain q where "q \<in> R" "ObjectKey q = ObjectKey r" "os' (ObjectKey r) = None" by auto
        then have "q = r" using integrity_keys [OF assms(1)] R r(1) by blast
        then have "file_ExpiresAt r \<le> now" using R \<open>q \<in> R\<close> by blast
        then show ?thesis using Some x new \<open>os' (ObjectKey r) = None\<close> by simp
      qed (use Some x new r(3) in simp)
    qed
  qed
qed

lemma upload_refines:
  assumes "outside_services r2 bkt s3_up cf" and "integrity (files w) (R2Objects r2 bkt w)"
    and "run_state (Upload uni (main_upload r2 ttl url) env input) w = (res, w')"
    and new: "env_uuid env \<notin> file_ID ` set (files w)" "length (env_uuid env) = 36"
    and year: "0 \<le> Year (env_now env)" "Year (env_now env) \<le> 9999"
  shows "store_step ttl (Uploaded env input) (own_store r2 bkt w) (own_store r2 bkt w')"
proof -
  have key: "ObjectKey r \<noteq> env_key env input" if "r \<in> set (files w)" for r
    using env_key_not_in_use [OF assms(2) new year that] .
  have none: "own_store r2 bkt w (env_uuid env) = None" using new(1) by (simp add: store_of_None)
  let ?s = "main_upload r2 ttl url"
  from assms(1,3) upload_NewService_sel(1,2) show ?thesis
  proof (cases rule: upload_cases)
    case (rejected e)
    then show ?thesis by (auto intro: store_step.idle)
  next
    case (failed e)
    then have "own_store r2 bkt w' = own_store r2 bkt w"
      using store_of_cong [of "files w" "R2Objects r2 bkt w'" "R2Objects r2 bkt w"] key by simp
    then show ?thesis by (simp add: store_step.idle)
  next
    case (duplicate ct body chk r)
    then show ?thesis by (simp add: store_step.idle)
  next
    case (stored ct body chk buf r)
    note prep = upload_prepare_ok [OF stored(1)]
    have rID: "file_ID r = env_uuid env" "ObjectKey r = env_key env input" using stored(4) by simp_all
    have "own_store r2 bkt w' = (own_store r2 bkt w)(env_uuid env \<mapsto> (r, Some (body, ct)))"
      using store_of_new [of r "files w" "R2Objects r2 bkt w'" "R2Objects r2 bkt w"] stored(6-8) rID key by simp
    moreover have "stored_as r (body, ct)" using stored(4) prep by (simp add: stored_as_def)
    ultimately show ?thesis
      using none store_step.add [of "own_store r2 bkt w" env r ttl input "Some (body, ct)"] stored(4) prep rID by simp
  next
    case (unacked ct body chk buf r e)
    note prep = upload_prepare_ok [OF unacked(1)]
    have rID: "file_ID r = env_uuid env" "ObjectKey r = env_key env input" using unacked(4) by simp_all
    let ?o = "R2Objects r2 bkt w' (env_key env input)"
    have "own_store r2 bkt w' = (own_store r2 bkt w)(env_uuid env \<mapsto> (r, ?o))"
      using store_of_new [of r "files w" "R2Objects r2 bkt w'" "R2Objects r2 bkt w"] unacked(5-8) rID key by simp
    moreover have "stored_as r (body, ct)" using unacked(4) prep by (simp add: stored_as_def)
    ultimately show ?thesis
      using none store_step.add [of "own_store r2 bkt w" env r ttl input ?o] unacked(4,7) prep rID by auto
  qed
qed

lemma one_entry:
  assumes "m x = Some a" and "m' = m \<or> m' = m(x \<mapsto> b) \<or> m' = m(x := None)"
  obtains v where "v \<in> {Some a, Some b, None}" and "m' = m(x := v)"
proof -
  have "m(x := Some a) = m" using assms(1) by (rule fun_upd_idem)
  then have "m' = m \<Longrightarrow> m' = m(x := Some a)" by (simp only:)
  then show thesis using assms(2) that by blast
qed

lemma delete_refines:
  assumes "outside_services r2 bkt s3_up cf" and "integrity (files w) (R2Objects r2 bkt w)"
    and "run_state (DeleteBeforeTTL (main_files r2 cf on) now fid token) w = (res, w')"
  shows "store_step ttl (Deleted now fid token) (own_store r2 bkt w) (own_store r2 bkt w')"
  using assms(1,3) file_NewService_sel(1-3)
proof (cases rule: delete_cases)
  case (unchanged e)
  then show ?thesis by (simp add: store_step.idle)
next
  case (deleted r)
  let ?m = "own_store r2 bkt w" and ?o = "R2Objects r2 bkt w (ObjectKey r)"
  have m: "?m fid = Some (r, ?o)"
    using store_of_Some [OF integrity_distinct [OF assms(2)]] deleted(1,2) by blast
  have lose: "store_of (files w) ((R2Objects r2 bkt w)(ObjectKey r := None)) = ?m(fid \<mapsto> (r, None))"
    using store_of_lose [OF assms(2) deleted(1)] deleted(2) by simp
  have "own_store r2 bkt w' = ?m \<or> own_store r2 bkt w' = ?m(fid \<mapsto> (r, None)) \<or> own_store r2 bkt w' = ?m(fid := None)"
    using deleted(5)
  proof
    assume "files w' = files w"
    then show ?thesis using deleted(7) lose by metis
  next
    assume "files w' = delete_rows fid (files w)"
    then have "own_store r2 bkt w' = (store_of (files w) (R2Objects r2 bkt w'))(fid := None)"
      by (simp only: store_of_delete)
    moreover have "store_of (files w) (R2Objects r2 bkt w') = ?m \<or>
        store_of (files w) (R2Objects r2 bkt w') = ?m(fid \<mapsto> (r, None))"
      using deleted(7) lose by metis
    ultimately show ?thesis by (metis fun_upd_upd)
  qed
  then obtain v where "v \<in> {Some (r, ?o), Some (r, None), None}" and "own_store r2 bkt w' = ?m(fid := v)"
    using one_entry [of ?m fid "(r, ?o)" "own_store r2 bkt w'" "(r, None)"] m by metis
  then show ?thesis
    using m store_step.remove [of ?m fid r ?o token now v ttl] deleted(3,4) by (simp add: token_matches_iff file_IsExpired_def)
qed

lemma sweep_refines:
  assumes "outside_services r2 bkt s3_up cf" and "integrity (files w) (R2Objects r2 bkt w)"
    and "run_state (sweepOnce (main_sweeper r2 cf on) now) w = (l, w')"
  shows "store_step ttl (Swept now) (own_store r2 bkt w) (own_store r2 bkt w')"
    and "integrity (files w') (R2Objects r2 bkt w')"
proof -
  obtain R where R: "R \<subseteq> set (expired_rows now (files w))"
      "swept R (files w) (R2Objects r2 bkt w) (files w') (R2Objects r2 bkt w')"
    using file_backend.sweepOnce_swept [OF outside_services.backend [OF assms(1)] assms(3)] by auto
  show "store_step ttl (Swept now) (own_store r2 bkt w) (own_store r2 bkt w')"
    by (rule store_step.expire) (rule store_of_swept [OF assms(2) R(2,1)])
  show "integrity (files w') (R2Objects r2 bkt w')"
    using integrity_sweep [OF assms(2) R(2)] R(1) by auto
qed

lemma step_refines:
  assumes "outside_services r2 bkt s3_up cf" and "integrity (files w) (R2Objects r2 bkt w)"
    and "system_step r2 bkt cf on uni ttl url e w w'"
  shows "store_step ttl e (own_store r2 bkt w) (own_store r2 bkt w') \<and> integrity (files w') (R2Objects r2 bkt w')"
  using assms(3)
proof cases
  case (upload env input res)
  note prem = assms(2) upload(3,4,5,6)
  show ?thesis
    using upload_refines [OF assms(1,2) upload(2-6)] upload(1)
      file_backend.Upload_integrity [OF outside_services.backend [OF assms(1)] upload(2)
        upload_NewService_sel(1,2) assms(2) upload(3-6)] by simp
next
  case (delete now fid token res')
  then show ?thesis
    using delete_refines [OF assms(1,2) delete(2)]
      file_backend.DeleteBeforeTTL_integrity [OF outside_services.backend [OF assms(1)] delete(2)
        file_NewService_sel(1-3) assms(2)] by simp
next
  case (sweep now l)
  then show ?thesis using sweep_refines [OF assms(1,2) sweep(2)] by simp
next
  case elsewhere
  then show ?thesis using assms(2) by (simp add: store_step.idle)
qed

lemma run_refines:
  assumes "outside_services r2 bkt s3_up cf" and "system_run r2 bkt cf on uni ttl url es w w'"
    and "integrity (files w) (R2Objects r2 bkt w)"
  shows "store_run ttl es (own_store r2 bkt w) (own_store r2 bkt w') \<and> integrity (files w') (R2Objects r2 bkt w')"
  using assms(2,3)
proof (induction rule: system_run.induct)
  case (stop w)
  then show ?case by (simp add: store_run.stop)
next
  case (go e w w' es w'')
  then show ?case using step_refines [OF assms(1) go.prems go.hyps(1)] by (blast intro: store_run.go)
qed

lemma run_keeps:
  assumes "outside_services r2 bkt s3_up cf" and "system_run r2 bkt cf on uni ttl url es w w'"
    and "integrity (files w) (R2Objects r2 bkt w)" and "own_store r2 bkt w fid = Some (r, obj)" and "file_ID r = fid"
    and "\<forall>e \<in> set es. \<not> may_remove e r"
  shows "own_store r2 bkt w' fid = Some (r, obj)"
  using assms(2-)
proof (induction rule: system_run.induct)
  case (go e w w' es w'')
  note step = step_refines [OF assms(1) go.prems(1) go.hyps(1)]
  have "own_store r2 bkt w' fid = Some (r, obj)"
    using store_step_keeps [OF conjunct1 [OF step] go.prems(2,3)] go.prems(4) by simp
  then show ?case using go.IH go.prems step by simp
qed

end
