(* ===== verification/Threads.thy ===== *)
theory Threads
  imports Prelude
begin

text \<open>
  Programs that can be interrupted. A thread is finished or calls a service; the call is one step on the
  world, what the thread does next depends on its result. \<open>finish\<close> runs a thread without interruption,
  \<open>pool_step\<close> interleaves a list of threads with each other and with the rest of the world. What a thread
  relies on and guarantees is stated over the world and a history that every step may extend; \<open>safe\<close> says
  that a thread keeps its guarantee as long as the others let it rely, and \<open>rely_guarantee\<close> that safe
  threads that let each other rely stay safe together.
\<close>

datatype ('w, 'r) thread = Finished 'r | Calls "'w \<Rightarrow> ('w, 'r) thread \<times> 'w"

definition call :: "('w, 'a) state \<Rightarrow> ('a \<Rightarrow> ('w, 'r) thread) \<Rightarrow> ('w, 'r) thread" where
  "call m k = Calls (\<lambda>w. case run_state m w of (x, w') \<Rightarrow> (k x, w'))"

definition call_or :: "('w, 'e, 'a) io \<Rightarrow> ('e \<Rightarrow> 'e) \<Rightarrow> ('a \<Rightarrow> ('w, 'e + 'r) thread) \<Rightarrow> ('w, 'e + 'r) thread" where
  "call_or m h k = call m (\<lambda>r. case r of Inl e \<Rightarrow> Finished (Inl (h e)) | Inr x \<Rightarrow> k x)"

primrec finish :: "('w, 'r) thread \<Rightarrow> 'w \<Rightarrow> 'r \<times> 'w" where
  "finish (Finished r) = Pair r"
| "finish (Calls f) = (\<lambda>w. case map_prod finish id (f w) of (run, w') \<Rightarrow> run w')"

lemma finish_call: "finish (call m k) w = (case run_state m w of (x, w') \<Rightarrow> finish (k x) w')"
  by (simp add: call_def split: prod.split)

lemma finish_call_or:
  "finish (call_or m h k) w =
    (case run_state m w of (Inl e, w') \<Rightarrow> (Inl (h e), w') | (Inr x, w') \<Rightarrow> finish (k x) w')"
  by (simp add: call_or_def finish_call split: prod.split sum.split)

lemma finish_map_thread: "finish (map_thread g t) w = map_prod g id (finish t w)"
proof (induction t arbitrary: w)
  case (Calls f)
  obtain t' w' where f: "f w = (t', w')" by force
  have "finish (map_thread g t') w' = map_prod g id (finish t' w')"
    by (rule Calls.IH [OF rangeI, of _ w]) (simp add: f)
  then show ?case by (simp add: f map_prod_def)
qed simp

section \<open>Interleaving\<close>

inductive pool_step ::
  "('w \<Rightarrow> 'w \<Rightarrow> bool) \<Rightarrow> ('w, 'r) thread list \<times> 'w \<Rightarrow> ('w, 'r) thread list \<times> 'w \<Rightarrow> bool" for others where
  moves: "i < length ts \<Longrightarrow> ts ! i = Calls f \<Longrightarrow> f w = (t, w') \<Longrightarrow> pool_step others (ts, w) (ts[i := t], w')"
| outside: "others w w' \<Longrightarrow> pool_step others (ts, w) (ts, w')"

inductive_cases pool_stepE: "pool_step others (ts, w) (ts', w')"

lemma pool_step_length: "pool_step others (ts, w) (ts', w') \<Longrightarrow> length ts' = length ts"
  by (auto elim: pool_stepE)

section \<open>Relying and guaranteeing\<close>

inductive safe ::
  "('h \<times> 'w \<Rightarrow> 'h \<times> 'w \<Rightarrow> bool) \<Rightarrow> ('h \<times> 'w \<Rightarrow> 'h \<times> 'w \<Rightarrow> bool) \<Rightarrow> ('h \<Rightarrow> 'w \<Rightarrow> 'h) \<Rightarrow> ('r \<Rightarrow> 'h \<times> 'w \<Rightarrow> bool)
    \<Rightarrow> ('w, 'r) thread \<Rightarrow> 'h \<times> 'w \<Rightarrow> bool" for rely guar seen post where
  finished: "(\<And>c'. rely c c' \<Longrightarrow> post r c') \<Longrightarrow> safe rely guar seen post (Finished r) c"
| calls: "(\<And>h w t w'. rely c (h, w) \<Longrightarrow> f w = (t, w') \<Longrightarrow>
      guar (h, w) (seen h w', w') \<and> safe rely guar seen post t (seen h w', w')) \<Longrightarrow>
    safe rely guar seen post (Calls f) c"

inductive_cases safe_finishedE: "safe rely guar seen post (Finished r) c"
inductive_cases safe_callsE: "safe rely guar seen post (Calls f) c"

lemma safe_call:
  assumes "\<And>h w x w'. rely c (h, w) \<Longrightarrow> run_state m w = (x, w') \<Longrightarrow>
    guar (h, w) (seen h w', w') \<and> safe rely guar seen post (k x) (seen h w', w')"
  shows "safe rely guar seen post (call m k) c"
  unfolding call_def by (rule calls) (use assms in \<open>auto split: prod.splits\<close>)

lemma safe_map_thread:
  "safe rely guar seen (\<lambda>r. post (g r)) t c \<Longrightarrow> safe rely guar seen post (map_thread g t) c"
proof (induction rule: safe.induct)
  case (calls c f)
  show ?case
  proof (simp, rule safe.calls)
    fix h w t w'
    assume "rely c (h, w)" "(map_prod (map_thread g) id \<circ> f) w = (t, w')"
    then show "guar (h, w) (seen h w', w') \<and> safe rely guar seen post t (seen h w', w')"
      using calls by (cases "f w") auto
  qed
qed (auto intro: safe.finished)

text \<open>Threads in which \<open>apart\<close> labels rely on no more than the others guarantee.\<close>

locale rely_guarantee =
  fixes rely guar :: "'e \<Rightarrow> 'h \<times> 'w \<Rightarrow> 'h \<times> 'w \<Rightarrow> bool"
    and seen :: "'h \<Rightarrow> 'w \<Rightarrow> 'h"
    and apart :: "'e \<Rightarrow> 'e \<Rightarrow> bool"
  assumes rely_refl: "rely e c c"
    and rely_trans: "rely e c c' \<Longrightarrow> rely e c' c'' \<Longrightarrow> rely e c c''"
    and guar_rely: "apart e e' \<Longrightarrow> guar e c c' \<Longrightarrow> rely e' c c'"
begin

lemma safe_rely:
  assumes "safe (rely e) (guar e) seen post t c" and "rely e c c'"
  shows "safe (rely e) (guar e) seen post t c'"
  using assms(1)
proof cases
  case (finished r)
  then show ?thesis using rely_trans [OF assms(2)] by (auto intro: safe.finished)
next
  case (calls f)
  show ?thesis
    unfolding calls(1) by (rule safe.calls) (use calls(2) rely_trans [OF assms(2)] in blast)
qed

lemma safe_step:
  assumes "safe (rely e) (guar e) seen post (Calls f) (h, w)" and "f w = (t, w')"
  shows "guar e (h, w) (seen h w', w')" and "safe (rely e) (guar e) seen post t (seen h w', w')"
  by (rule safe_callsE [OF assms(1)]; use assms(2) rely_refl [of e "(h, w)"] in blast)+

lemma safe_result:
  "safe (rely e) (guar e) seen post (Finished r) c \<Longrightarrow> post r c"
  by (erule safe_finishedE) (use rely_refl in blast)

text \<open>The whole pool: one step keeps every thread safe, and is a step that its thread guarantees.\<close>

definition pool_safe :: "'e list \<Rightarrow> ('e \<Rightarrow> 'r \<Rightarrow> 'h \<times> 'w \<Rightarrow> bool) \<Rightarrow> ('w, 'r) thread list \<Rightarrow> 'h \<times> 'w \<Rightarrow> bool" where
  "pool_safe es post ts c \<longleftrightarrow> length ts = length es \<and>
    (\<forall>i < length es. safe (rely (es ! i)) (guar (es ! i)) seen (post (es ! i)) (ts ! i) c)"

lemma pool_safe_result:
  assumes "pool_safe es post ts c" and "i < length es" and "ts ! i = Finished r"
  shows "post (es ! i) r c"
proof -
  have "safe (rely (es ! i)) (guar (es ! i)) seen (post (es ! i)) (ts ! i) c"
    using assms(1,2) unfolding pool_safe_def by blast
  then show ?thesis unfolding assms(3) by (rule safe_result)
qed

lemma pool_safe_step:
  assumes "pool_step others (ts, w) (ts', w')" and "pool_safe es post ts (h, w)"
    and "\<And>i j. i < length es \<Longrightarrow> j < length es \<Longrightarrow> i \<noteq> j \<Longrightarrow> apart (es ! i) (es ! j)"
    and "\<And>e w w'. others w w' \<Longrightarrow> rely e (h, w) (seen h w', w')"
  shows "pool_safe es post ts' (seen h w', w') \<and>
    (others w w' \<or> (\<exists>e \<in> set es. guar e (h, w) (seen h w', w')))"
  using assms(1)
proof cases
  case (moves i f t)
  then have i: "i < length es" and safe_i: "safe (rely (es ! i)) (guar (es ! i)) seen (post (es ! i)) (Calls f) (h, w)"
    using assms(2) by (auto simp: pool_safe_def)
  note step = safe_step [OF safe_i moves(4)]
  have "safe (rely (es ! j)) (guar (es ! j)) seen (post (es ! j)) (ts' ! j) (seen h w', w')" if "j < length es" for j
  proof (cases "j = i")
    case True
    then show ?thesis using step moves(1,2) by simp
  next
    case False
    then have "rely (es ! j) (h, w) (seen h w', w')"
      using guar_rely [OF assms(3) step(1)] i that by auto
    moreover have "safe (rely (es ! j)) (guar (es ! j)) seen (post (es ! j)) (ts ! j) (h, w)"
      using assms(2) that by (simp add: pool_safe_def)
    ultimately show ?thesis using safe_rely False moves(1) by simp blast
  qed
  then show ?thesis using step(1) i assms(2) moves(1) by (auto simp: pool_safe_def)
next
  case outside
  have "safe (rely (es ! i)) (guar (es ! i)) seen (post (es ! i)) (ts ! i) (seen h w', w')" if "i < length es" for i
    using safe_rely [OF _ assms(4) [OF outside(2)]] assms(2) that unfolding pool_safe_def by blast
  then show ?thesis using outside assms(2) by (simp add: pool_safe_def)
qed

end

end
