(* ===== verification/Interleaving.thy ===== *)
theory Interleaving
  imports System Threads
begin

text \<open>
  Uploads, deletions and sweeps as threads: the same programs as \<open>Upload\<close>, \<open>DeleteBeforeTTL\<close> and
  \<open>sweepOnce\<close>, which \<open>finish\<close> shows, but other threads may run between any two calls of the repository, of
  the storage or of Cloudflare. A repository method is one step: each is one statement or transaction.
  \<open>interleaved\<close> runs a pool of threads, one per event, on one database and one bucket.
\<close>

definition insert_thread :: "'w upload_Service \<Rightarrow> FileRecord \<Rightarrow> string \<Rightarrow> ('w, error + Result) thread" where
  "insert_thread s record deleteToken =
    call (Insert (repository s) record) (\<lambda>inserted. case inserted of
        Inl err \<Rightarrow> call (DeleteObject (objectStorage s) (ObjectKey record))
          (\<lambda>_. Finished (Inl (Wrap ''persist file metadata'' err)))
      | Inr _ \<Rightarrow> Finished (Inr \<lparr>Record = record, Duplicate = False, DeleteToken = deleteToken\<rparr>))"

definition upload_new_thread ::
  "'w upload_Service \<Rightarrow> upload_env \<Rightarrow> Input \<Rightarrow> string \<Rightarrow> bytes \<Rightarrow> string \<Rightarrow> ('w, error + Result) thread" where
  "upload_new_thread s env input detectedContentType spooled checksum =
    (case temp_seek env of
       Some err \<Rightarrow> Finished (Inl (Wrap ''rewind spool file'' err))
     | None \<Rightarrow>
    (case NewDeleteToken (env_rand env) of
       Inl err \<Rightarrow> Finished (Inl (Wrap ''generate delete token'' err))
     | Inr deleteToken \<Rightarrow>
         call_or (PutObject (objectStorage s) \<lparr>Key = buildObjectKey (env_now env) (env_uuid env) (in_OriginalName input),
             Body = spooled, put_ContentType = detectedContentType, put_SizeBytes = int (length spooled)\<rparr>)
           (Wrap ''upload object to storage'')
           (\<lambda>_. insert_thread s (new_record s env input detectedContentType spooled checksum deleteToken) deleteToken)))"

definition Upload_thread ::
  "(string \<Rightarrow> string) \<Rightarrow> 'w upload_Service \<Rightarrow> upload_env \<Rightarrow> Input \<Rightarrow> ('w, error + Result) thread" where
  "Upload_thread uni s env input =
    (case upload_prepare uni env input of
       Inl err \<Rightarrow> Finished (Inl err)
     | Inr (detectedContentType, spooled, checksum) \<Rightarrow>
         call (FindActiveByChecksum (repository s) checksum (env_now env)) (\<lambda>existing. case existing of
             Inr existingRecord \<Rightarrow> Finished (Inr \<lparr>Record = existingRecord, Duplicate = True, DeleteToken = []\<rparr>)
           | Inl dedupErr \<Rightarrow>
               if dedupErr \<noteq> ErrFileNotFound then Finished (Inl (Wrap ''lookup checksum for dedup'' dedupErr))
               else upload_new_thread s env input detectedContentType spooled checksum))"

definition purge_thread :: "bool \<Rightarrow> 'w Purger option \<Rightarrow> string list \<Rightarrow> 'r \<Rightarrow> ('w, 'r) thread" where
  "purge_thread on purger urls r = call (purge_if_on on purger urls) (\<lambda>_. Finished r)"

definition Delete_thread :: "'w file_Service \<Rightarrow> time \<Rightarrow> string \<Rightarrow> string \<Rightarrow> ('w, error + unit) thread" where
  "Delete_thread s now fid deleteToken =
    call_or (FindByID (f_repository s) fid)
      (\<lambda>err. if errors_Is err ErrFileNotFound then ErrNotFound else err)
      (\<lambda>record.
        if \<not> DeleteTokenMatches deleteToken (DeleteTokenHash record) then Finished (Inl ErrInvalidDeleteToken)
        else if file_IsExpired record now then Finished (Inl ErrAlreadyExpired)
        else call (DeleteObject (f_objectStorage s) (ObjectKey record)) (\<lambda>_.
          call (DeleteByID (f_repository s) fid) (\<lambda>deleted.
            if (case deleted of Inl err \<Rightarrow> \<not> errors_Is err ErrFileNotFound | Inr _ \<Rightarrow> False)
            then Finished deleted
            else purge_thread (f_cachePurgeOn s) (f_cachePurger s)
              (if CDNURL record \<noteq> [] then [CDNURL record] else []) (Inr ()))))"

fun sweep_loop_thread ::
  "'w Sweeper \<Rightarrow> FileRecord list \<Rightarrow> string list \<Rightarrow> nat \<Rightarrow> (string list \<Rightarrow> nat \<Rightarrow> ('w, 'r) thread) \<Rightarrow> ('w, 'r) thread" where
  "sweep_loop_thread s [] purgeURLs deletedCount k = k purgeURLs deletedCount"
| "sweep_loop_thread s (record # rest) purgeURLs deletedCount k =
     call (DeleteObject (w_objectStorage s) (ObjectKey record)) (\<lambda>d. case d of
         Inl _ \<Rightarrow> sweep_loop_thread s rest purgeURLs deletedCount k
       | Inr _ \<Rightarrow> call (DeleteByID (w_repository s) (file_ID record)) (\<lambda>r.
           if (case r of Inl err \<Rightarrow> \<not> errors_Is err ErrFileNotFound | Inr _ \<Rightarrow> False)
           then sweep_loop_thread s rest purgeURLs deletedCount k
           else sweep_loop_thread s rest
             (if CDNURL record \<noteq> [] then purgeURLs @ [CDNURL record] else purgeURLs) (deletedCount + 1) k))"

definition Sweep_thread :: "'w Sweeper \<Rightarrow> time \<Rightarrow> ('w, sweep_log) thread" where
  "Sweep_thread s now =
    call (FindExpired (w_repository s) now batchSize) (\<lambda>found. case found of
        Inl err \<Rightarrow> Finished (FindExpiredFailed err)
      | Inr records \<Rightarrow>
          if records = [] then Finished NothingExpired
          else sweep_loop_thread s records [] 0 (\<lambda>purgeURLs deletedCount.
            purge_thread (w_cachePurgeOn s) (w_cachePurger s) purgeURLs (Tick (length records) deletedCount)))"

section \<open>Without interruption\<close>

lemma finish_upload_new: "finish (upload_new_thread s env input ct b c) w = run_state (upload_new s env input ct b c) w"
  by (auto simp: upload_new_thread_def upload_new_def insert_thread_def Let_def finish_call finish_call_or
      split: option.split sum.split prod.split)

lemma finish_Upload: "finish (Upload_thread uni s env input) w = run_state (Upload uni s env input) w"
  by (auto simp: Upload_thread_def Upload_def finish_call finish_upload_new split: sum.split prod.split)

lemma finish_purge: "finish (purge_thread on purger urls r) w = (r, snd (run_state (purge_if_on on purger urls) w))"
  by (simp add: purge_thread_def finish_call split: prod.split)

lemma finish_Delete: "finish (Delete_thread s now fid token) w = run_state (DeleteBeforeTTL s now fid token) w"
  by (auto simp: Delete_thread_def DeleteBeforeTTL_def finish_call finish_call_or finish_purge
      split: sum.split prod.split)

lemma finish_sweep_loop:
  "finish (sweep_loop_thread s records urls n k) w =
    (case run_state (sweep_loop s records urls n) w of ((urls', n'), w') \<Rightarrow> finish (k urls' n') w')"
  by (induction records arbitrary: urls n w) (auto simp: finish_call split: sum.split prod.split)

lemma finish_Sweep: "finish (Sweep_thread s now) w = run_state (sweepOnce s now) w"
  by (auto simp: Sweep_thread_def sweepOnce_def finish_call finish_sweep_loop finish_purge
      split: sum.split prod.split)

section \<open>The pool\<close>

datatype outcome = UploadDone "error + Result" | DeleteDone "error + unit" | SweepDone sweep_log | NothingDone

fun event_thread ::
  "('x pg_scheme) R2Client \<Rightarrow> ('x pg_scheme) cf_Client option \<Rightarrow> bool \<Rightarrow> (string \<Rightarrow> string) \<Rightarrow> duration \<Rightarrow> string
    \<Rightarrow> event \<Rightarrow> ('x pg_scheme, outcome) thread" where
  "event_thread r2 cf on uni ttl url (Uploaded env input) =
     map_thread UploadDone (Upload_thread uni (main_upload r2 ttl url) env input)"
| "event_thread r2 cf on uni ttl url (Deleted now fid token) =
     map_thread DeleteDone (Delete_thread (main_files r2 cf on) now fid token)"
| "event_thread r2 cf on uni ttl url (Swept now) =
     map_thread SweepDone (Sweep_thread (main_sweeper r2 cf on) now)"
| "event_thread r2 cf on uni ttl url Elsewhere = Finished NothingDone"

text \<open>What else happens touches neither the records nor the bucket.\<close>

definition elsewhere_step :: "('x pg_scheme) R2Client \<Rightarrow> ('x \<Rightarrow> string \<Rightarrow> bucket) \<Rightarrow> 'x pg_scheme \<Rightarrow> 'x pg_scheme \<Rightarrow> bool" where
  "elsewhere_step r2 bkt w w' \<longleftrightarrow> files w' = files w \<and> R2Objects r2 bkt w' = R2Objects r2 bkt w"

definition interleaved ::
  "('x pg_scheme) R2Client \<Rightarrow> ('x \<Rightarrow> string \<Rightarrow> bucket) \<Rightarrow> ('x pg_scheme) cf_Client option \<Rightarrow> bool \<Rightarrow> (string \<Rightarrow> string)
    \<Rightarrow> duration \<Rightarrow> string \<Rightarrow> event list \<Rightarrow> 'x pg_scheme \<Rightarrow> ('x pg_scheme, outcome) thread list \<Rightarrow> 'x pg_scheme \<Rightarrow> bool" where
  "interleaved r2 bkt cf on uni ttl url es w ts w' \<longleftrightarrow>
    (pool_step (elsewhere_step r2 bkt))\<^sup>*\<^sup>* (map (event_thread r2 cf on uni ttl url) es, w) (ts, w')"

fun own_id :: "event \<Rightarrow> string option" where
  "own_id (Uploaded env _) = Some (env_uuid env)"
| "own_id _ = None"

text \<open>The UUIDs of the uploads: well formed, not in the database, no two the same; and dates of four digits.\<close>

fun upload_ids :: "event list \<Rightarrow> string list" where
  "upload_ids [] = []"
| "upload_ids (e # es) = (case own_id e of None \<Rightarrow> upload_ids es | Some u \<Rightarrow> u # upload_ids es)"

definition fresh_events :: "event list \<Rightarrow> FileRecord list \<Rightarrow> bool" where
  "fresh_events es rs \<longleftrightarrow> distinct (upload_ids es) \<and> set (upload_ids es) \<inter> file_ID ` set rs = {} \<and>
    (\<forall>env input. Uploaded env input \<in> set es \<longrightarrow>
      length (env_uuid env) = 36 \<and> 0 \<le> Year (env_now env) \<and> Year (env_now env) \<le> 9999)"

lemma upload_ids_iff: "u \<in> set (upload_ids es) \<longleftrightarrow> (\<exists>e \<in> set es. own_id e = Some u)"
  by (induction es) (auto split: option.splits)

lemma upload_ids_apart:
  assumes "distinct (upload_ids es)" and "i < length es" and "j < length es" and "i \<noteq> j" and "own_id (es ! i) = Some u"
  shows "own_id (es ! j) \<noteq> Some u"
  using assms
proof (induction es arbitrary: i j)
  case (Cons e es)
  have later: "u \<in> set (upload_ids es)" if "own_id (es ! k) = Some u" "k < length es" for k
    using that by (auto simp: upload_ids_iff)
  have dist: "distinct (upload_ids es)" "own_id e = Some u \<Longrightarrow> u \<notin> set (upload_ids es)"
    using Cons.prems(1) by (auto split: option.splits)
  show ?case
  proof (cases i)
    case 0
    then obtain k where "j = Suc k" using Cons.prems(4) by (cases j) auto
    then show ?thesis using later [of k] dist(2) Cons.prems 0 by auto
  next
    case (Suc i')
    then have i': "own_id (es ! i') = Some u" "i' < length es" using Cons.prems by simp_all
    show ?thesis
    proof (cases j)
      case 0
      then show ?thesis using later [OF i'] dist(2) by auto
    next
      case (Suc k)
      then show ?thesis using Cons.IH [OF dist(1) i'(2) _ _ i'(1), of k] Cons.prems \<open>i = Suc i'\<close> by auto
    qed
  qed
qed simp

text \<open>One call of one thread.\<close>

lemma map_thread_call [simp]: "map_thread g (call m k) = call m (\<lambda>x. map_thread g (k x))"
  by (simp add: call_def o_def split_def)

lemma moves_call:
  "i < length ts \<Longrightarrow> ts ! i = call m k \<Longrightarrow> run_state m w = (x, w') \<Longrightarrow> pool_step others (ts, w) (ts[i := k x], w')"
  by (rule pool_step.moves [where f = "\<lambda>w. case run_state m w of (x, w') \<Rightarrow> (k x, w')"]) (simp_all add: call_def)

lemma moves_call_map:
  assumes "i < length ts" and "ts ! i = map_thread g (call m k)" and "run_state m w = (x, w')"
  shows "pool_step others (ts, w) (ts[i := map_thread g (k x)], w')"
  using moves_call [OF assms(1) assms(2) [unfolded map_thread_call] assms(3)] .

lemma moves_call_or:
  assumes "i < length ts" and "ts ! i = map_thread g (call_or m h k)" and "run_state m w = (Inr x, w')"
  shows "pool_step others (ts, w) (ts[i := map_thread g (k x)], w')"
  using moves_call [OF assms(1) assms(2) [unfolded call_or_def map_thread_call] assms(3)] by simp

context file_backend
begin

lemma Upload_thread_call:
  assumes "upload_prepare uni env input = Inr (ct, body, chk)" and "repository s = repo"
    and "run_state (FindActiveByChecksum repo chk (env_now env)) w = (Inl ErrFileNotFound, w')"
    and "i < length ts" and "ts ! i = map_thread g (Upload_thread uni s env input)"
  shows "pool_step others (ts, w) (ts[i := map_thread g (upload_new_thread s env input ct body chk)], w')"
  using moves_call [OF assms(4) assms(5) [unfolded Upload_thread_def assms(1,2) sum.case prod.case map_thread_call] assms(3)]
  by simp

text \<open>Where the services answer, the rest of an upload that is left alone takes two calls.\<close>

lemma upload_new_thread_run:
  assumes "up w" and "sto_up w" and s: "repository s = repo" "objectStorage s = sto"
    and "env_uuid env \<notin> file_ID ` set (rows w)" and "env_rand env = Inr buf" and "temp_seek env = None"
    and i: "i < length ts" "ts ! i = map_thread g (upload_new_thread s env input ct body chk)"
  defines "r \<equiv> new_record s env input ct body chk (EncodeToString buf)"
  shows "\<exists>w'. (pool_step others)\<^sup>*\<^sup>* (ts, w)
      (ts[i := Finished (g (Inr \<lparr>Record = r, Duplicate = False, DeleteToken = EncodeToString buf\<rparr>))], w') \<and>
    up w' \<and> sto_up w' \<and> rows w' = rows w @ [r]"
proof -
  let ?put = "\<lparr>Key = env_key env input, Body = body, put_ContentType = ct, put_SizeBytes = int (length body)\<rparr>"
  obtain w1 where put: "run_state (PutObject sto ?put) w = (Inr (), w1)" "sto_up w1" using Put_up assms(2) by blast
  have w1: "rows w1 = rows w" "up w1" using sto_rows(1,3) [OF put(1)] assms(1) by simp_all
  obtain w2 where ins: "run_state (Insert repo r) w1 = (Inr (), w2)" "up w2"
    using Insert_up [OF w1(2), of r] assms(5) w1(1) by (auto simp: r_def)
  let ?t = "insert_thread s r (EncodeToString buf)"
    and ?done = "Finished (g (Inr \<lparr>Record = r, Duplicate = False, DeleteToken = EncodeToString buf\<rparr>))"
  have "pool_step others (ts, w) (ts[i := map_thread g ?t], w1)"
    using moves_call_or [OF i(1) i(2) [unfolded upload_new_thread_def assms(6,7) NewDeleteToken_def option.case sum.case s], OF put(1)]
    by (simp add: r_def)
  moreover have "pool_step others (ts[i := map_thread g ?t], w1) (ts[i := ?done], w2)"
  proof -
    define ts' where "ts' = ts[i := map_thread g ?t]"
    have len: "i < length ts'" and nth: "ts' ! i = map_thread g ?t" using i(1) by (simp_all add: ts'_def)
    show ?thesis using moves_call_map [OF len nth [unfolded insert_thread_def s] ins(1), of others] by (simp add: ts'_def)
  qed
  ultimately have "(pool_step others)\<^sup>*\<^sup>* (ts, w) (ts[i := ?done], w2)"
    by (meson converse_rtranclp_into_rtranclp r_into_rtranclp)
  then show ?thesis
    using ins(2) Insert_ok [OF ins(1)] w1(1) repo_sto_up(1) [OF ins(1)] put(2) by auto
qed

text \<open>Two uploads of one content: both look for a duplicate before either has inserted its record.\<close>

lemma two_uploads_run:
  assumes "up w" and "sto_up w" and s: "repository s = repo" "objectStorage s = sto"
    and prep: "upload_prepare uni env1 input1 = Inr (ct1, body, chk)" "upload_prepare uni env2 input2 = Inr (ct2, body, chk)"
    and none: "active_with_checksum chk (env_now env1) (rows w) = []" "active_with_checksum chk (env_now env2) (rows w) = []"
    and ids: "env_uuid env1 \<notin> file_ID ` set (rows w)" "env_uuid env2 \<notin> file_ID ` set (rows w)" "env_uuid env1 \<noteq> env_uuid env2"
    and env1: "env_rand env1 = Inr buf1" "temp_seek env1 = None" and env2: "env_rand env2 = Inr buf2" "temp_seek env2 = None"
  defines "r1 \<equiv> new_record s env1 input1 ct1 body chk (EncodeToString buf1)"
    and "r2 \<equiv> new_record s env2 input2 ct2 body chk (EncodeToString buf2)"
  shows "\<exists>w'. (pool_step others)\<^sup>*\<^sup>*
      ([map_thread g (Upload_thread uni s env1 input1), map_thread g (Upload_thread uni s env2 input2)], w)
      ([Finished (g (Inr \<lparr>Record = r1, Duplicate = False, DeleteToken = EncodeToString buf1\<rparr>)),
        Finished (g (Inr \<lparr>Record = r2, Duplicate = False, DeleteToken = EncodeToString buf2\<rparr>))], w') \<and>
    rows w' = rows w @ [r1, r2]"
proof -
  let ?new1 = "map_thread g (upload_new_thread s env1 input1 ct1 body chk)"
    and ?new2 = "map_thread g (upload_new_thread s env2 input2 ct2 body chk)"
    and ?done1 = "Finished (g (Inr \<lparr>Record = r1, Duplicate = False, DeleteToken = EncodeToString buf1\<rparr>))"
  obtain w1 where f1: "run_state (FindActiveByChecksum repo chk (env_now env1)) w = (Inl ErrFileNotFound, w1)" "up w1"
    using FindActive_up [OF assms(1) none(1)] by blast
  have w1: "rows w1 = rows w" "sto_up w1" using FindActive_rows [OF f1(1)] repo_sto_up(2) [OF f1(1)] assms(2) by simp_all
  obtain w2 where f2: "run_state (FindActiveByChecksum repo chk (env_now env2)) w1 = (Inl ErrFileNotFound, w2)" "up w2"
    using FindActive_up [OF f1(2)] none(2) w1(1) by metis
  have w2: "rows w2 = rows w" "sto_up w2" using FindActive_rows [OF f2(1)] repo_sto_up(2) [OF f2(1)] w1 by simp_all
  have "(pool_step others) ([map_thread g (Upload_thread uni s env1 input1), map_thread g (Upload_thread uni s env2 input2)], w)
      ([?new1, map_thread g (Upload_thread uni s env2 input2)], w1)"
    using Upload_thread_call [OF prep(1) s(1) f1(1), of 0 "[_, _]" g] by simp
  moreover have "(pool_step others) ([?new1, map_thread g (Upload_thread uni s env2 input2)], w1) ([?new1, ?new2], w2)"
    using Upload_thread_call [OF prep(2) s(1) f2(1), of 1 "[_, _]" g] by simp
  moreover obtain w3 where w3: "(pool_step others)\<^sup>*\<^sup>* ([?new1, ?new2], w2) ([?done1, ?new2], w3)"
      "up w3" "sto_up w3" "rows w3 = rows w2 @ [r1]"
    using upload_new_thread_run [OF f2(2) w2(2) s _ env1, of 0 "[?new1, ?new2]" g input1 ct1 body chk others] ids(1) w2(1)
    by (auto simp: r1_def)
  moreover have "env_uuid env2 \<notin> file_ID ` set (rows w3)" using ids w3(4) w2(1) by (auto simp: r1_def)
  then obtain w4 where "(pool_step others)\<^sup>*\<^sup>* ([?done1, ?new2], w3)
      ([?done1, Finished (g (Inr \<lparr>Record = r2, Duplicate = False, DeleteToken = EncodeToString buf2\<rparr>))], w4)"
      "rows w4 = rows w3 @ [r2]"
    using upload_new_thread_run [OF w3(2,3) s _ env2, of 1 "[?done1, ?new2]" g input2 ct2 body chk others] by (auto simp: r2_def)
  ultimately show ?thesis using w2(1) w3(4)
    by (intro exI [of _ w4]) (auto intro: converse_rtranclp_into_rtranclp rtranclp_trans)
qed

end

section \<open>The specification\<close>

text \<open>
  One step of a thread is a step of the table \<open>store_step\<close> describes, except that an upload whose insertion
  was not confirmed takes back its own object.
\<close>

inductive call_step :: "duration \<Rightarrow> event \<Rightarrow> (string \<rightharpoonup> stored) \<Rightarrow> (string \<rightharpoonup> stored) \<Rightarrow> bool" for ttl where
  step: "store_step ttl e m m' \<Longrightarrow> call_step ttl e m m'"
| retract: "m (env_uuid env) = Some (r, obj) \<Longrightarrow>
    call_step ttl (Uploaded env input) m (m(env_uuid env \<mapsto> (r, None)))"

inductive_cases call_stepE: "call_step ttl e m m'"

lemma call_step_keeps:
  assumes "call_step ttl e m m'" and "m fid = Some (r, obj)" and "file_ID r = fid" and "\<not> may_remove e r"
    and "own_id e \<noteq> Some fid"
  shows "m' fid = Some (r, obj)"
  using assms(1)
proof cases
  case step
  then show ?thesis using store_step_keeps [OF step(1) assms(2-4)] by blast
next
  case (retract env r' obj' input)
  then show ?thesis using assms(2,5) by simp
qed

end
