(* ===== verification/Interleaving_Safety.thy ===== *)
theory Interleaving_Safety
  imports Interleaving
begin

text \<open>
  Why the interleaved threads refine the table of files. The history of a run is the set \<open>H\<close> of all records
  that were ever in the database; since UUIDs are fresh, an id in the history stands for one record for
  ever. A thread guarantees that each step is one of \<open>call_step\<close>, that only an upload adds to the history,
  and only its own id, and that no one touches an object of a record that is not yet inserted but the
  upload that will. With \<open>P\<close> a set of records that no thread of the pool may remove, an upload relies on its
  record to stay once it is in \<open>P\<close>.
\<close>

definition history_ok :: "('w \<Rightarrow> FileRecord list) \<Rightarrow> ('w \<Rightarrow> bucket) \<Rightarrow> FileRecord set \<Rightarrow> 'w \<Rightarrow> bool" where
  "history_ok rows objs H w \<longleftrightarrow> integrity (rows w) (objs w) \<and> set (rows w) \<subseteq> H \<and> inj_on file_ID H \<and>
    (\<forall>r \<in> H. key_file_ID (ObjectKey r) = file_ID r)"

definition seen_rows :: "('w \<Rightarrow> FileRecord list) \<Rightarrow> FileRecord set \<Rightarrow> 'w \<Rightarrow> FileRecord set" where
  "seen_rows rows H w = H \<union> set (rows w)"

definition file_guar ::
  "duration \<Rightarrow> ('w \<Rightarrow> FileRecord list) \<Rightarrow> ('w \<Rightarrow> bucket) \<Rightarrow> event \<Rightarrow> FileRecord set \<times> 'w \<Rightarrow> FileRecord set \<times> 'w \<Rightarrow> bool" where
  "file_guar ttl rows objs e = (\<lambda>(H, w) (H', w'). history_ok rows objs H w \<longrightarrow>
     history_ok rows objs H' w' \<and> H \<subseteq> H' \<and> (\<forall>r \<in> H' - H. own_id e = Some (file_ID r)) \<and>
     (\<forall>k. key_file_ID k \<notin> file_ID ` H \<longrightarrow> own_id e \<noteq> Some (key_file_ID k) \<longrightarrow> objs w' k = objs w k) \<and>
     call_step ttl e (store_of (rows w) (objs w)) (store_of (rows w') (objs w')))"

text \<open>What happens to the upload with id \<open>u\<close> when others move.\<close>

definition keeps_own ::
  "(FileRecord \<Rightarrow> bool) \<Rightarrow> ('w \<Rightarrow> FileRecord list) \<Rightarrow> ('w \<Rightarrow> bucket) \<Rightarrow> string \<Rightarrow> FileRecord set \<times> 'w \<Rightarrow> FileRecord set \<times> 'w
    \<Rightarrow> bool" where
  "keeps_own P rows objs u = (\<lambda>(H, w) (H', w'). (\<forall>r \<in> H' - H. file_ID r \<noteq> u) \<and>
     (u \<notin> file_ID ` H \<longrightarrow> (\<forall>k. key_file_ID k = u \<longrightarrow> objs w' k = objs w k)) \<and>
     (\<forall>r \<in> H. file_ID r = u \<and> P r \<and> r \<in> set (rows w) \<longrightarrow>
        r \<in> set (rows w') \<and> objs w' (ObjectKey r) = objs w (ObjectKey r)))"

definition file_rely ::
  "(FileRecord \<Rightarrow> bool) \<Rightarrow> ('w \<Rightarrow> FileRecord list) \<Rightarrow> ('w \<Rightarrow> bucket) \<Rightarrow> event \<Rightarrow> FileRecord set \<times> 'w \<Rightarrow> FileRecord set \<times> 'w
    \<Rightarrow> bool" where
  "file_rely P rows objs e = (\<lambda>(H, w) (H', w'). history_ok rows objs H w \<longrightarrow>
     history_ok rows objs H' w' \<and> H \<subseteq> H' \<and>
     (\<forall>u. own_id e = Some u \<longrightarrow> keeps_own P rows objs u (H, w) (H', w')))"

definition apart_events :: "(FileRecord \<Rightarrow> bool) \<Rightarrow> event \<Rightarrow> event \<Rightarrow> bool" where
  "apart_events P e e' \<longleftrightarrow> (own_id e' = None \<or> own_id e \<noteq> own_id e') \<and> (\<forall>r. P r \<longrightarrow> \<not> may_remove e r)"

lemma seen_rows_id: "history_ok rows objs H w \<Longrightarrow> rows w' = rows w \<Longrightarrow> seen_rows rows H w' = H"
  by (auto simp: history_ok_def seen_rows_def)

lemma history_store:
  "history_ok rows objs H w \<Longrightarrow> store_of (rows w) (objs w) fid = Some (r, obj) \<longleftrightarrow>
    r \<in> set (rows w) \<and> file_ID r = fid \<and> obj = objs w (ObjectKey r)"
  by (rule store_of_Some) (auto simp: history_ok_def dest: integrity_distinct)

lemma history_key:
  "history_ok rows objs H w \<Longrightarrow> r \<in> H \<Longrightarrow> r' \<in> H \<Longrightarrow> ObjectKey r = ObjectKey r' \<Longrightarrow> r = r'"
  unfolding history_ok_def by (metis inj_onD)

lemma guar_rely_files:
  assumes "apart_events P e e'" and "file_guar ttl rows objs e c c'"
  shows "file_rely P rows objs e' c c'"
proof -
  obtain H w H' w' where c: "c = (H, w)" "c' = (H', w')" by (cases c, cases c') auto
  have "r \<in> set (rows w') \<and> objs w' (ObjectKey r) = objs w (ObjectKey r)"
    if "history_ok rows objs H w" "P r" "r \<in> set (rows w)" "own_id e' = Some (file_ID r)" for r
  proof -
    let ?m = "store_of (rows w) (objs w)" and ?m' = "store_of (rows w') (objs w')"
    have step: "call_step ttl e ?m ?m'" "history_ok rows objs H' w'"
      using assms(2) that(1) by (simp_all add: c file_guar_def)
    have "?m (file_ID r) = Some (r, objs w (ObjectKey r))" using history_store [OF that(1)] that(3) by blast
    moreover have "\<not> may_remove e r" "own_id e \<noteq> Some (file_ID r)"
      using assms(1) that(2,4) by (auto simp: apart_events_def)
    ultimately have "?m' (file_ID r) = Some (r, objs w (ObjectKey r))" using call_step_keeps [OF step(1)] by blast
    then show ?thesis using history_store [OF step(2)] by metis
  qed
  then show ?thesis using assms unfolding c file_guar_def file_rely_def keeps_own_def apart_events_def by auto
qed

lemma keeps_own_trans:
  assumes "keeps_own P rows objs u (H, w) (H', w')" and "keeps_own P rows objs u (H', w') (H'', w'')" and "H \<subseteq> H'"
  shows "keeps_own P rows objs u (H, w) (H'', w'')"
proof -
  note one = assms(1) [unfolded keeps_own_def prod.case] and two = assms(2) [unfolded keeps_own_def prod.case]
  have "u \<notin> file_ID ` H'" if "u \<notin> file_ID ` H" using one that by blast
  then have "objs w'' k = objs w k" if "u \<notin> file_ID ` H" "key_file_ID k = u" for k
    using one two that by metis
  moreover have "r \<in> set (rows w'') \<and> objs w'' (ObjectKey r) = objs w (ObjectKey r)"
    if "r \<in> H" "file_ID r = u" "P r" "r \<in> set (rows w)" for r
  proof -
    have "r \<in> set (rows w') \<and> objs w' (ObjectKey r) = objs w (ObjectKey r)" using one that by blast
    moreover from this have "r \<in> set (rows w'') \<and> objs w'' (ObjectKey r) = objs w' (ObjectKey r)"
      using two that assms(3) by blast
    ultimately show ?thesis by simp
  qed
  moreover have "\<forall>r \<in> H'' - H. file_ID r \<noteq> u" using one two by blast
  ultimately show ?thesis unfolding keeps_own_def by simp
qed

lemma rely_trans_files:
  assumes "file_rely P rows objs e c c'" and "file_rely P rows objs e c' c''"
  shows "file_rely P rows objs e c c''"
proof -
  obtain H w H' w' H'' w'' where c: "c = (H, w)" "c' = (H', w')" "c'' = (H'', w'')"
    by (cases c, cases c', cases c'') auto
  note rely = assms [unfolded c file_rely_def prod.case]
  have "keeps_own P rows objs u (H, w) (H'', w'')" if "history_ok rows objs H w" "own_id e = Some u" for u
    by (rule keeps_own_trans [of P rows objs u H w H' w']) (use rely that in blast)+
  then show ?thesis using rely unfolding c file_rely_def by auto
qed

interpretation files_rg: rely_guarantee "file_rely P rows objs" "file_guar ttl rows objs" "seen_rows rows" "apart_events P"
  for P ttl rows objs
proof
  show "file_rely P rows objs e c c" for e c by (cases c) (simp add: file_rely_def keeps_own_def)
  show "file_rely P rows objs e c c''" if "file_rely P rows objs e c c'" "file_rely P rows objs e c' c''" for e c c' c''
    using rely_trans_files that .
  show "file_rely P rows objs e' c c'" if "apart_events P e e'" "file_guar ttl rows objs e c c'" for e e' c c'
    using guar_rely_files that .
qed

section \<open>What each call guarantees\<close>

lemma may_remove_step:
  assumes "may_remove e r" and "m (file_ID r) = Some (r, obj)" and "v \<in> {Some (r, obj), Some (r, None), None}"
  shows "store_step ttl e m (m(file_ID r := v))"
proof (cases e)
  case (Deleted now fid token)
  then show ?thesis using assms store_step.remove [of m fid r obj token now v ttl] by (simp add: may_remove_def)
next
  case (Swept now)
  have step: "(m(file_ID r := v)) fid = m fid \<or> (\<exists>x ob. m fid = Some (x, ob) \<and> file_ExpiresAt x \<le> now \<and>
      (m(file_ID r := v)) fid \<in> {Some (x, None), None})" for fid
    using assms Swept by (cases "fid = file_ID r") (auto simp: may_remove_def)
  show ?thesis unfolding Swept by (rule store_step.expire, rule step)
qed (use assms(1) in \<open>simp_all add: may_remove_def\<close>)

lemma guar_idle:
  assumes "rows w' = rows w" and "\<And>k. objs w' k \<noteq> objs w k \<Longrightarrow> own_id e = Some (key_file_ID k) \<and> key_file_ID k \<notin> file_ID ` H"
  shows "file_guar ttl rows objs e (H, w) (seen_rows rows H w', w')"
proof (cases "history_ok rows objs H w")
  case True
  have same: "objs w' (ObjectKey r) = objs w (ObjectKey r)" if "r \<in> H" for r
    using assms(2) [of "ObjectKey r"] that True by (auto simp: history_ok_def)
  then have own: "r \<in> set (rows w) \<Longrightarrow> objs w' (ObjectKey r) = objs w (ObjectKey r)" for r
    using True by (auto simp: history_ok_def)
  have "history_ok rows objs H w'"
    using True own integrity_other_objects [of "rows w" "objs w" "objs w'"] by (simp add: history_ok_def assms(1))
  moreover have "store_of (rows w) (objs w') = store_of (rows w) (objs w)" using own by (rule store_of_cong)
  then have "call_step ttl e (store_of (rows w) (objs w)) (store_of (rows w') (objs w'))"
    using call_step.step [OF store_step.idle] by (simp add: assms(1))
  ultimately show ?thesis
    using assms(2) by (auto simp: file_guar_def seen_rows_id [OF True assms(1)])
qed (simp add: file_guar_def)

lemma guar_same:
  "rows w' = rows w \<Longrightarrow> objs w' = objs w \<Longrightarrow> file_guar ttl rows objs e (H, w) (seen_rows rows H w', w')"
  by (rule guar_idle) simp_all

lemma guar_insert:
  assumes "rows w' = rows w @ [r]" and "objs w' = objs w" and "file_ID r = env_uuid env" and "file_ID r \<notin> file_ID ` H"
    and "key_file_ID (ObjectKey r) = file_ID r" and "file_ExpiresAt r = env_now env + ttl"
    and "ChecksumSHA256 r = sha256_hex (content (in_Content input))"
    and "objs w (ObjectKey r) = Some ob" and "stored_as r ob" and "fst ob = content (in_Content input)"
  shows "file_guar ttl rows objs (Uploaded env input) (H, w) (seen_rows rows H w', w')"
proof (cases "history_ok rows objs H w")
  case True
  let ?m = "store_of (rows w) (objs w)"
  have H: "set (rows w) \<subseteq> H" "integrity (rows w) (objs w)" using True by (simp_all add: history_ok_def)
  then have new: "file_ID r \<notin> file_ID ` set (rows w)" using assms(4) by blast
  have "integrity (rows w') (objs w')"
    unfolding assms(1) using assms by (intro integrity_new [OF H(2) new]) simp_all
  moreover have seen: "seen_rows rows H w' = insert r H" using H(1) assms(1) by (auto simp: seen_rows_def)
  ultimately have "history_ok rows objs (insert r H) w'"
    using True assms(1,4,5) by (auto simp: history_ok_def inj_on_insert)
  moreover have "store_of (rows w') (objs w') = ?m(env_uuid env \<mapsto> (r, objs w (ObjectKey r)))"
    using store_of_new [OF new, of "objs w'" "objs w"] assms(1-3) by simp
  moreover have "?m (env_uuid env) = None" using new assms(3) by (simp add: store_of_None)
  then have "store_step ttl (Uploaded env input) ?m (?m(env_uuid env \<mapsto> (r, Some ob)))"
    by (rule store_step.add) (simp_all add: assms)
  then have "call_step ttl (Uploaded env input) ?m (?m(env_uuid env \<mapsto> (r, Some ob)))" by (rule call_step.step)
  ultimately show ?thesis using assms(2,3,8) by (auto simp: file_guar_def seen)
qed (simp add: file_guar_def)

lemma guar_lose_object:
  assumes "rows w' = rows w" and "objs w' = objs w \<or> objs w' = (objs w)(ObjectKey r := None)" and "r \<in> H"
    and "may_remove e r \<or> own_id e = Some (file_ID r)"
  shows "file_guar ttl rows objs e (H, w) (seen_rows rows H w', w')"
proof (cases "history_ok rows objs H w \<and> objs w' \<noteq> objs w")
  case True
  then have ok: "history_ok rows objs H w" and objs': "objs w' = (objs w)(ObjectKey r := None)" using assms(2) by auto
  let ?m = "store_of (rows w) (objs w)"
  have int: "integrity (rows w) (objs w)" "set (rows w) \<subseteq> H" using ok by (simp_all add: history_ok_def)
  have "call_step ttl e ?m (store_of (rows w) (objs w'))"
  proof (cases "r \<in> set (rows w)")
    case True
    have m: "?m (file_ID r) = Some (r, objs w (ObjectKey r))" using history_store [OF ok] True by blast
    have m': "store_of (rows w) (objs w') = ?m(file_ID r \<mapsto> (r, None))"
      unfolding objs' by (rule store_of_lose [OF int(1) True])
    from assms(4) show ?thesis
    proof
      assume "may_remove e r"
      from may_remove_step [where ?m = ?m, OF this m, of "Some (r, None)"] show ?thesis
        unfolding m' by (intro call_step.step) simp
    next
      assume "own_id e = Some (file_ID r)"
      then obtain env input where e: "e = Uploaded env input" "env_uuid env = file_ID r" by (cases e) auto
      show ?thesis unfolding m' e(1) using call_step.retract [of ?m env] m e(2) by simp
    qed
  next
    case False
    have "objs w' (ObjectKey r') = objs w (ObjectKey r')" if "r' \<in> set (rows w)" for r'
    proof -
      have "r' \<in> H" "r \<noteq> r'" using that int(2) False by auto
      then have "ObjectKey r \<noteq> ObjectKey r'" using history_key [OF ok assms(3)] by blast
      then show ?thesis unfolding objs' by simp
    qed
    then have "store_of (rows w) (objs w') = ?m" by (rule store_of_cong)
    then show ?thesis using call_step.step [OF store_step.idle] by simp
  qed
  moreover have "history_ok rows objs H w'"
    using ok integrity_fewer_objects [OF int(1), of "objs w'"] objs' by (simp add: history_ok_def assms(1))
  moreover have "objs w' k = objs w k" if "key_file_ID k \<notin> file_ID ` H" for k
    using that assms(3) ok objs' by (auto simp: history_ok_def)
  ultimately show ?thesis by (auto simp: file_guar_def seen_rows_id [OF ok assms(1)] assms(1))
next
  case False
  then show ?thesis using guar_same [of rows w' w objs] assms(1) by (auto simp: file_guar_def)
qed

lemma guar_lose_row:
  assumes "rows w' = rows w \<or> rows w' = delete_rows (file_ID r) (rows w)" and "objs w' = objs w" and "r \<in> H"
    and "may_remove e r"
  shows "file_guar ttl rows objs e (H, w) (seen_rows rows H w', w')"
proof (cases "history_ok rows objs H w \<and> rows w' \<noteq> rows w")
  case True
  then have ok: "history_ok rows objs H w" and rows': "rows w' = delete_rows (file_ID r) (rows w)" using assms(1) by auto
  let ?m = "store_of (rows w) (objs w)"
  have seen: "seen_rows rows H w' = H" using ok rows' by (auto simp: seen_rows_def history_ok_def)
  have "file_ID r \<in> file_ID ` set (rows w)" using True rows' delete_rows_id by metis
  then obtain r' where "r' \<in> set (rows w)" "file_ID r' = file_ID r" by auto
  then have "r \<in> set (rows w)" using ok assms(3) unfolding history_ok_def by (metis inj_onD subsetD)
  then have "?m (file_ID r) = Some (r, objs w (ObjectKey r))" using history_store [OF ok] by blast
  then have "store_step ttl e ?m (?m(file_ID r := None))" using may_remove_step [OF assms(4)] by blast
  moreover have "store_of (rows w') (objs w') = ?m(file_ID r := None)"
    unfolding rows' assms(2) by (rule store_of_delete)
  ultimately have "call_step ttl e ?m (store_of (rows w') (objs w'))" by (auto intro: call_step.step)
  moreover have "history_ok rows objs H w'"
    using ok integrity_fewer_rows [of "rows w" "objs w"] assms(2) by (auto simp: history_ok_def rows')
  ultimately show ?thesis using assms(2) by (auto simp: file_guar_def seen)
next
  case False
  then show ?thesis using guar_same [of rows w' w objs] assms(2) by (auto simp: file_guar_def)
qed

end
