(* ===== verification/Interleaving_Threads.thy ===== *)
theory Interleaving_Threads
  imports Interleaving_Safety
begin

text \<open>
  Each thread is safe: from the start, and from every point at which it can be interrupted. The lemmas go
  backwards through the calls of a thread.
\<close>

text \<open>What an upload that reports a new file knows from then on.\<close>

definition stored_result ::
  "(FileRecord \<Rightarrow> bool) \<Rightarrow> duration \<Rightarrow> ('w \<Rightarrow> FileRecord list) \<Rightarrow> ('w \<Rightarrow> bucket) \<Rightarrow> upload_env \<Rightarrow> Input \<Rightarrow> error + Result
    \<Rightarrow> FileRecord set \<times> 'w \<Rightarrow> bool" where
  "stored_result P ttl rows objs env input res = (\<lambda>(H, w). \<forall>x. res = Inr x \<and> \<not> Duplicate x \<longrightarrow>
     file_ID (Record x) = env_uuid env \<and> file_ExpiresAt (Record x) = env_now env + ttl \<and>
     ChecksumSHA256 (Record x) = sha256_hex (content (in_Content input)) \<and>
     (P (Record x) \<longrightarrow> Record x \<in> set (rows w) \<and>
        objs w (ObjectKey (Record x)) = Some (content (in_Content input), ContentType (Record x))))"

lemma rely_history:
  "file_rely P rows objs e (H, w) (H', w') \<Longrightarrow> history_ok rows objs H w \<Longrightarrow> history_ok rows objs H' w' \<and> H \<subseteq> H'"
  by (simp add: file_rely_def)

lemma rely_unborn:
  assumes "file_rely P rows objs e (H, w) (H', w')" and "history_ok rows objs H w" and "own_id e = Some u"
    and "u \<notin> file_ID ` H"
  shows "history_ok rows objs H' w' \<and> u \<notin> file_ID ` H' \<and> (\<forall>k. key_file_ID k = u \<longrightarrow> objs w' k = objs w k)"
  using assms by (auto simp: file_rely_def keeps_own_def)

lemma rely_stored:
  assumes "file_rely P rows objs e (H, w) (H', w')" and "history_ok rows objs H w" and "own_id e = Some (file_ID r)"
    and "r \<in> set (rows w)" and "P r"
  shows "r \<in> set (rows w') \<and> objs w' (ObjectKey r) = objs w (ObjectKey r)"
proof -
  have "r \<in> H" using assms(2,4) by (auto simp: history_ok_def)
  then show ?thesis using assms by (auto simp: file_rely_def keeps_own_def)
qed

text \<open>After a step that a thread guarantees, the history is still in order.\<close>

lemma guar_history:
  "file_guar ttl rows objs e (H, w) (H', w') \<Longrightarrow> history_ok rows objs H w \<Longrightarrow> history_ok rows objs H' w' \<and> H \<subseteq> H'"
  by (simp add: file_guar_def)

lemma safe_stop:
  "(\<And>c. post r c) \<Longrightarrow> safe rely guar seen post (Finished r) c"
  by (rule finished)

abbreviation file_safe ::
  "(FileRecord \<Rightarrow> bool) \<Rightarrow> duration \<Rightarrow> ('w \<Rightarrow> FileRecord list) \<Rightarrow> ('w \<Rightarrow> bucket) \<Rightarrow> event \<Rightarrow> ('r \<Rightarrow> FileRecord set \<times> 'w \<Rightarrow> bool)
    \<Rightarrow> ('w, 'r) thread \<Rightarrow> FileRecord set \<times> 'w \<Rightarrow> bool" where
  "file_safe P ttl rows objs e post \<equiv> safe (file_rely P rows objs e) (file_guar ttl rows objs e) (seen_rows rows) post"

text \<open>A call that reads only: the thread goes on from the same history.\<close>

lemma safe_read:
  assumes "history_ok rows objs H w"
    and "\<And>w x w'. run_state m w = (x, w') \<Longrightarrow> rows w' = rows w \<and> objs w' = objs w"
    and "\<And>H' w' x w''. file_rely P rows objs e (H, w) (H', w') \<Longrightarrow> history_ok rows objs H' w'' \<Longrightarrow>
      run_state m w' = (x, w'') \<Longrightarrow> rows w'' = rows w' \<Longrightarrow> objs w'' = objs w' \<Longrightarrow>
      file_safe P ttl rows objs e post (k x) (H', w'')"
  shows "file_safe P ttl rows objs e post (call m k) (H, w)"
proof (rule safe_call)
  fix H' w' x w''
  assume rely: "file_rely P rows objs e (H, w) (H', w')" and run: "run_state m w' = (x, w'')"
  note same = assms(2) [OF run, THEN conjunct1] assms(2) [OF run, THEN conjunct2]
  have ok: "history_ok rows objs H' w'" using rely_history [OF rely assms(1)] by simp
  then have "history_ok rows objs H' w''" using same by (simp add: history_ok_def)
  then show "file_guar ttl rows objs e (H', w') (seen_rows rows H' w'', w'') \<and>
      file_safe P ttl rows objs e post (k x) (seen_rows rows H' w'', w'')"
    using guar_same [OF same, of ttl e H'] assms(3) [OF rely _ run same] seen_rows_id [OF ok same(1)] by simp
qed

context file_backend
begin

lemma safe_purge:
  assumes "history_ok rows objs H w" and "\<And>c. post r c"
  shows "file_safe P ttl rows objs e post (purge_thread on purger urls r) (H, w)"
  unfolding purge_thread_def by (rule safe_read [OF assms(1)]) (auto intro: safe_stop assms(2) dest: purge_if_on_same)

section \<open>Uploads\<close>

lemma safe_compensate:
  assumes "history_ok rows objs H w" and "own_id e = Some u" and "key_file_ID k = u"
    and "u \<notin> file_ID ` H \<or> (\<exists>r \<in> H. ObjectKey r = k \<and> file_ID r = u)" and "\<And>c. post r c"
  shows "file_safe P ttl rows objs e post (call (DeleteObject sto k) (\<lambda>_. Finished r)) (H, w)"
proof (rule safe_call)
  fix H' w' x w''
  assume rely: "file_rely P rows objs e (H, w) (H', w')" and run: "run_state (DeleteObject sto k) w' = (x, w'')"
  note rows = sto_rows(2) [OF run] and objs = Delete_objs [OF run]
  have "file_guar ttl rows objs e (H', w') (seen_rows rows H' w'', w'')"
    using assms(4)
  proof
    assume "u \<notin> file_ID ` H"
    then have u: "u \<notin> file_ID ` H'" using rely_unborn [OF rely assms(1,2)] by blast
    have "j = k" if "objs w'' j \<noteq> objs w' j" for j using objs that by (metis fun_upd_apply)
    then show ?thesis using u assms(2,3) by (intro guar_idle) (use rows in blast)+
  next
    assume "\<exists>r \<in> H. ObjectKey r = k \<and> file_ID r = u"
    then obtain q where q: "q \<in> H'" "ObjectKey q = k" "file_ID q = u" using rely_history [OF rely assms(1)] by blast
    have del: "objs w'' = objs w' \<or> objs w'' = (objs w')(ObjectKey q := None)" using objs q(2) by blast
    show ?thesis
      by (rule guar_lose_object [where rows = rows and objs = objs and r = q, OF rows del q(1)]) (simp add: assms(2) q(3))
  qed
  then show "file_guar ttl rows objs e (H', w') (seen_rows rows H' w'', w'') \<and>
      file_safe P ttl rows objs e post (Finished r) (seen_rows rows H' w'', w'')"
    by (intro conjI safe_stop assms(5))
qed

lemma safe_insert:
  assumes ok: "history_ok rows objs H w" and new: "env_uuid env \<notin> file_ID ` H"
    and r: "file_ID r = env_uuid env" "key_file_ID (ObjectKey r) = file_ID r" "file_ExpiresAt r = env_now env + ttl"
      "ChecksumSHA256 r = sha256_hex (content (in_Content input))"
    and ob: "objs w (ObjectKey r) = Some (content (in_Content input), ContentType r)"
      "stored_as r (content (in_Content input), ContentType r)"
    and e: "e = Uploaded env input" and s: "repository s = repo" "objectStorage s = sto"
  shows "file_safe P ttl rows objs e (stored_result P ttl rows objs env input) (insert_thread s r tok) (H, w)"
  unfolding insert_thread_def s
proof (rule safe_call)
  fix H' w' x w''
  assume rely: "file_rely P rows objs e (H, w) (H', w')" and run: "run_state (Insert repo r) w' = (x, w'')"
  have own: "own_id e = Some (env_uuid env)" by (simp add: e)
  note unborn = rely_unborn [OF rely ok own new]
  have o': "objs w' (ObjectKey r) = objs w (ObjectKey r)" using unborn r(1,2) by simp
  note objs = repo_objs(1) [OF run]
  let ?H = "seen_rows rows H' w''"
  have outcome: "rows w'' = rows w' \<or> rows w'' = rows w' @ [r]"
    using run Insert_ok Insert_err by (cases x) blast+
  then have guar: "file_guar ttl rows objs e (H', w') (?H, w'')"
  proof
    assume added: "rows w'' = rows w' @ [r]"
    have "file_ID r \<notin> file_ID ` H'" using unborn r(1) by simp
    moreover have "objs w' (ObjectKey r) = Some (content (in_Content input), ContentType r)" using ob(1) o' by simp
    ultimately show ?thesis
      unfolding e by (rule guar_insert [where rows = rows and objs = objs, OF added objs r(1) _ r(2-4) _ ob(2) fst_conv])
  qed (rule guar_same [OF _ objs])
  then have hist: "history_ok rows objs ?H w''" using guar_history [OF guar] unborn by simp
  show "file_guar ttl rows objs e (H', w') (?H, w'') \<and>
    file_safe P ttl rows objs e (stored_result P ttl rows objs env input)
     (case x of Inl err \<Rightarrow> call (DeleteObject sto (ObjectKey r)) (\<lambda>_. Finished (Inl (Wrap ''persist file metadata'' err)))
      | Inr _ \<Rightarrow> Finished (Inr \<lparr>Record = r, Duplicate = False, DeleteToken = tok\<rparr>)) (?H, w'')"
  proof (cases x)
    case (Inl err)
    have "env_uuid env \<notin> file_ID ` ?H \<or> (\<exists>r' \<in> ?H. ObjectKey r' = ObjectKey r \<and> file_ID r' = env_uuid env)"
      using outcome unborn r(1) by (auto simp: seen_rows_def history_ok_def)
    then have "file_safe P ttl rows objs e (stored_result P ttl rows objs env input)
        (call (DeleteObject sto (ObjectKey r)) (\<lambda>_. Finished (Inl (Wrap ''persist file metadata'' err)))) (?H, w'')"
      by (intro safe_compensate [OF hist own]) (simp_all add: r stored_result_def split_beta)
    then show ?thesis using guar Inl by simp
  next
    case (Inr u)
    have "r \<in> set (rows w'')" "objs w'' (ObjectKey r) = Some (content (in_Content input), ContentType r)"
      using Insert_ok [OF run [unfolded Inr]] objs o' ob(1) by simp_all
    then have "stored_result P ttl rows objs env input (Inr \<lparr>Record = r, Duplicate = False, DeleteToken = tok\<rparr>) c"
      if "file_rely P rows objs e (?H, w'') c" for c
      using rely_stored [of P rows objs e ?H w'' "fst c" "snd c" r] that hist own r
      by (cases c) (auto simp: stored_result_def)
    then have "file_safe P ttl rows objs e (stored_result P ttl rows objs env input)
        (Finished (Inr \<lparr>Record = r, Duplicate = False, DeleteToken = tok\<rparr>)) (?H, w'')"
      by (rule finished)
    then show ?thesis using guar Inr by simp
  qed
qed

lemma safe_upload_new:
  assumes ok: "history_ok rows objs H w" and new: "env_uuid env \<notin> file_ID ` H"
    and s: "repository s = repo" "objectStorage s = sto" "fileTTL s = ttl"
    and prep: "upload_prepare uni env input = Inr (ct, body, chk)"
    and valid: "length (env_uuid env) = 36" "0 \<le> Year (env_now env)" "Year (env_now env) \<le> 9999"
    and e: "e = Uploaded env input"
  shows "file_safe P ttl rows objs e (stored_result P ttl rows objs env input)
    (upload_new_thread s env input ct body chk) (H, w)"
proof (cases "temp_seek env \<noteq> None \<or> (\<exists>err. env_rand env = Inl err)")
  case True
  then show ?thesis by (auto simp: upload_new_thread_def NewDeleteToken_def stored_result_def split: option.split intro!: safe_stop)
next
  case False
  then obtain buf where seek: "temp_seek env = None" and rand: "env_rand env = Inr buf" by (cases "env_rand env") auto
  let ?r = "new_record s env input ct body chk (EncodeToString buf)"
  let ?put = "\<lparr>Key = env_key env input, Body = body, put_ContentType = ct, put_SizeBytes = int (length body)\<rparr>"
  note pr = upload_prepare_ok [OF prep]
  have key: "key_file_ID (env_key env input) = env_uuid env" using key_file_ID_build [OF valid(2,3,1)] .
  have own: "own_id e = Some (env_uuid env)" by (simp add: e)
  show ?thesis
    unfolding upload_new_thread_def call_or_def Let_def s seek rand NewDeleteToken_def option.case sum.case
  proof (rule safe_call)
    fix H' w' x w''
    assume rely: "file_rely P rows objs e (H, w) (H', w')" and run: "run_state (PutObject sto ?put) w' = (x, w'')"
    note unborn = rely_unborn [OF rely ok own new] and rows = sto_rows(1) [OF run]
    have "objs w'' k = objs w' k" if "k \<noteq> env_key env input" for k using Put_objs [OF run] that by auto
    then have "own_id e = Some (key_file_ID k) \<and> key_file_ID k \<notin> file_ID ` H'" if "objs w'' k \<noteq> objs w' k" for k
      using that own key unborn by metis
    then have guar: "file_guar ttl rows objs e (H', w') (seen_rows rows H' w'', w'')"
      by (rule guar_idle [where rows = rows and objs = objs, OF rows])
    have seen: "seen_rows rows H' w'' = H'" using seen_rows_id [where rows = rows, OF _ rows] unborn by blast
    have hist: "history_ok rows objs H' w''" using guar_history [OF guar] unborn seen by simp
    show "file_guar ttl rows objs e (H', w') (seen_rows rows H' w'', w'') \<and>
      file_safe P ttl rows objs e (stored_result P ttl rows objs env input)
       (case x of Inl err \<Rightarrow> Finished (Inl (Wrap ''upload object to storage'' err))
        | Inr _ \<Rightarrow> insert_thread s ?r (EncodeToString buf))
       (seen_rows rows H' w'', w'')"
    proof (cases x)
      case (Inl err)
      have "file_safe P ttl rows objs e (stored_result P ttl rows objs env input)
          (Finished (Inl (Wrap ''upload object to storage'' err))) (H', w'')"
        by (rule safe_stop) (simp add: stored_result_def split_beta)
      then show ?thesis using guar Inl seen by simp
    next
      case (Inr u)
      have ob: "objs w'' (ObjectKey ?r) = Some (content (in_Content input), ContentType ?r)"
        using Put_ok [OF run [unfolded Inr]] pr(1) by simp
      moreover have "stored_as ?r (content (in_Content input), ContentType ?r)" by (simp add: stored_as_def pr)
      ultimately show ?thesis
        using guar Inr seen unborn key pr(2) s(3) safe_insert [OF hist, of env ?r ttl input e s P] e s
        by simp
    qed
  qed
qed

lemma safe_Upload:
  assumes "history_ok rows objs H w" and "env_uuid env \<notin> file_ID ` H"
    and s: "repository s = repo" "objectStorage s = sto" "fileTTL s = ttl"
    and "length (env_uuid env) = 36" "0 \<le> Year (env_now env)" "Year (env_now env) \<le> 9999"
    and e: "e = Uploaded env input"
  shows "file_safe P ttl rows objs e (stored_result P ttl rows objs env input) (Upload_thread uni s env input) (H, w)"
proof (cases "upload_prepare uni env input")
  case (Inl err)
  then show ?thesis by (auto simp: Upload_thread_def stored_result_def intro: safe_stop)
next
  case (Inr y)
  then obtain ct body chk where prep: "upload_prepare uni env input = Inr (ct, body, chk)" by (cases y) auto
  show ?thesis
    unfolding Upload_thread_def prep sum.case prod.case s(1)
  proof (rule safe_read [OF assms(1)])
    fix H' w' x w''
    assume rely: "file_rely P rows objs e (H, w) (H', w')" and hist: "history_ok rows objs H' w''"
    have "env_uuid env \<notin> file_ID ` H'" using rely_unborn [OF rely assms(1) _ assms(2)] by (simp add: e)
    then show "file_safe P ttl rows objs e (stored_result P ttl rows objs env input)
       (case x of Inl dedupErr \<Rightarrow>
            if dedupErr \<noteq> ErrFileNotFound then Finished (Inl (Wrap ''lookup checksum for dedup'' dedupErr))
            else upload_new_thread s env input ct body chk
        | Inr r \<Rightarrow> Finished (Inr \<lparr>Record = r, Duplicate = True, DeleteToken = []\<rparr>)) (H', w'')"
      using safe_upload_new [OF hist _ s prep assms(6-8) e]
      by (auto simp: stored_result_def split: sum.split intro!: safe_stop)
  qed (auto dest: FindActive_rows repo_objs(2))
qed

section \<open>Deletions and sweeps\<close>

text \<open>Both delete the object of a record they may remove, and then its row; in between others may run.\<close>

lemma safe_drop_object:
  assumes "history_ok rows objs H w" and "r \<in> H" and "may_remove e r"
    and "\<And>x H' w'. history_ok rows objs H' w' \<Longrightarrow> H \<subseteq> H' \<Longrightarrow> file_safe P ttl rows objs e post (k x) (H', w')"
  shows "file_safe P ttl rows objs e post (call (DeleteObject sto (ObjectKey r)) k) (H, w)"
proof (rule safe_call)
  fix H' w' x w''
  assume rely: "file_rely P rows objs e (H, w) (H', w')" and run: "run_state (DeleteObject sto (ObjectKey r)) w' = (x, w'')"
  have H: "history_ok rows objs H' w'" "r \<in> H'" "H \<subseteq> H'" using rely_history [OF rely assms(1)] assms(2) by auto
  have guar: "file_guar ttl rows objs e (H', w') (seen_rows rows H' w'', w'')"
    using assms(3) by (intro guar_lose_object [where rows = rows and objs = objs, OF sto_rows(2) [OF run] Delete_objs [OF run] H(2)]) simp
  then show "file_guar ttl rows objs e (H', w') (seen_rows rows H' w'', w'') \<and>
      file_safe P ttl rows objs e post (k x) (seen_rows rows H' w'', w'')"
    using assms(4) guar_history [OF guar H(1)] H(3) guar by auto
qed

lemma safe_drop_row:
  assumes "history_ok rows objs H w" and "r \<in> H" and "may_remove e r"
    and "\<And>x H' w'. history_ok rows objs H' w' \<Longrightarrow> H \<subseteq> H' \<Longrightarrow> file_safe P ttl rows objs e post (k x) (H', w')"
  shows "file_safe P ttl rows objs e post (call (DeleteByID repo (file_ID r)) k) (H, w)"
proof (rule safe_call)
  fix H' w' x w''
  assume rely: "file_rely P rows objs e (H, w) (H', w')" and run: "run_state (DeleteByID repo (file_ID r)) w' = (x, w'')"
  have H: "history_ok rows objs H' w'" "r \<in> H'" "H \<subseteq> H'" using rely_history [OF rely assms(1)] assms(2) by auto
  have guar: "file_guar ttl rows objs e (H', w') (seen_rows rows H' w'', w'')"
    by (rule guar_lose_row [where rows = rows and objs = objs, OF DeleteByID_rows [OF run] repo_objs(4) [OF run] H(2) assms(3)])
  then show "file_guar ttl rows objs e (H', w') (seen_rows rows H' w'', w'') \<and>
      file_safe P ttl rows objs e post (k x) (seen_rows rows H' w'', w'')"
    using assms(4) guar_history [OF guar H(1)] H(3) guar by auto
qed

lemma safe_Delete:
  assumes "history_ok rows objs H w"
    and s: "f_repository s = repo" "f_objectStorage s = sto" "f_cachePurger s = purger"
  shows "file_safe P ttl rows objs (Deleted now fid token) (\<lambda>_ _. True) (Delete_thread s now fid token) (H, w)"
  unfolding Delete_thread_def call_or_def s
proof (rule safe_read [OF assms(1)])
  fix H' w' x w''
  let ?e = "Deleted now fid token"
  assume hist: "history_ok rows objs H' w''" and run: "run_state (FindByID repo fid) w' = (x, w'')"
  show "file_safe P ttl rows objs ?e (\<lambda>_ _. True) (case x of
      Inl err \<Rightarrow> Finished (Inl (if errors_Is err ErrFileNotFound then ErrNotFound else err))
    | Inr record \<Rightarrow>
        if \<not> DeleteTokenMatches token (DeleteTokenHash record) then Finished (Inl ErrInvalidDeleteToken)
        else if file_IsExpired record now then Finished (Inl ErrAlreadyExpired)
        else call (DeleteObject sto (ObjectKey record)) (\<lambda>_. call (DeleteByID repo fid) (\<lambda>deleted.
          if (case deleted of Inl err \<Rightarrow> \<not> errors_Is err ErrFileNotFound | Inr _ \<Rightarrow> False)
          then Finished deleted
          else purge_thread (f_cachePurgeOn s) purger (if CDNURL record \<noteq> [] then [CDNURL record] else []) (Inr ()))))
    (H', w'')"
  proof (cases "\<exists>r. x = Inr r \<and> DeleteTokenMatches token (DeleteTokenHash r) \<and> \<not> file_IsExpired r now")
    case False
    then show ?thesis by (cases x) (auto intro: safe_stop)
  next
    case True
    then obtain r where x: "x = Inr r" "DeleteTokenMatches token (DeleteTokenHash r)" "\<not> file_IsExpired r now" by blast
    note found = FindByID_ok [OF run [unfolded x]]
    have "r \<in> H'" using found hist by (auto simp: history_ok_def)
    moreover have fid: "fid = file_ID r" using found by simp
    then have "may_remove ?e r" using x by (simp add: may_remove_def token_matches_iff file_IsExpired_def)
    ultimately show ?thesis
      unfolding x(1) sum.case using x(2,3) fid
      by (auto intro!: safe_drop_object [OF hist] safe_drop_row safe_stop safe_purge)
  qed
qed (auto dest: FindByID_rows repo_objs(3))

lemma safe_sweep_loop:
  assumes "history_ok rows objs H w" and "set records \<subseteq> H" and "\<forall>r \<in> set records. file_ExpiresAt r \<le> now"
    and s: "w_repository s = repo" "w_objectStorage s = sto"
    and "\<And>urls n H w. history_ok rows objs H w \<Longrightarrow> file_safe P ttl rows objs (Swept now) post (k urls n) (H, w)"
  shows "file_safe P ttl rows objs (Swept now) post (sweep_loop_thread s records urls n k) (H, w)"
  using assms(1-3)
proof (induction records arbitrary: urls n H w)
  case Nil
  then show ?case using assms(6) by simp
next
  case (Cons r records)
  have r: "r \<in> H" "may_remove (Swept now) r" using Cons.prems by (simp_all add: may_remove_def)
  have rest: "file_safe P ttl rows objs (Swept now) post (sweep_loop_thread s records urls n k) (H', w')"
    if "history_ok rows objs H' w'" "H \<subseteq> H'" for H' w' urls n
    using Cons.IH [OF that(1)] Cons.prems(2,3) that(2) by auto
  have row: "file_safe P ttl rows objs (Swept now) post (call (DeleteByID repo (file_ID r)) (\<lambda>x.
      if (case x of Inl err \<Rightarrow> \<not> errors_Is err ErrFileNotFound | Inr _ \<Rightarrow> False)
      then sweep_loop_thread s records urls n k
      else sweep_loop_thread s records (if CDNURL r \<noteq> [] then urls @ [CDNURL r] else urls) (n + 1) k)) (H', w')"
    if "history_ok rows objs H' w'" "H \<subseteq> H'" for H' w'
    using that r by (intro safe_drop_row [OF that(1)]) (auto intro: rest)
  show ?case
    unfolding sweep_loop_thread.simps s
    by (rule safe_drop_object [OF Cons.prems(1) r], split sum.split, intro conjI allI impI; (rule rest | rule row); assumption)
qed

lemma safe_Sweep:
  assumes "history_ok rows objs H w"
    and s: "w_repository s = repo" "w_objectStorage s = sto" "w_cachePurger s = purger"
  shows "file_safe P ttl rows objs (Swept now) (\<lambda>_ _. True) (Sweep_thread s now) (H, w)"
  unfolding Sweep_thread_def s
proof (rule safe_read [OF assms(1)])
  fix H' w' x w''
  assume hist: "history_ok rows objs H' w''" and run: "run_state (FindExpired repo now batchSize) w' = (x, w'')"
    and same: "rows w'' = rows w'"
  have "set rs \<subseteq> H' \<and> (\<forall>r \<in> set rs. file_ExpiresAt r \<le> now)" if "x = Inr rs" for rs
    using FindExpired_ok [OF run [unfolded that]] hist same by (auto simp: history_ok_def)
  then show "file_safe P ttl rows objs (Swept now) (\<lambda>_ _. True) (case x of
      Inl err \<Rightarrow> Finished (FindExpiredFailed err)
    | Inr records \<Rightarrow>
        if records = [] then Finished NothingExpired
        else sweep_loop_thread s records [] 0 (\<lambda>purgeURLs deletedCount.
          purge_thread (w_cachePurgeOn s) purger purgeURLs (Tick (length records) deletedCount))) (H', w'')"
    by (auto split: sum.split intro!: safe_stop safe_sweep_loop [OF hist] safe_purge s)
qed (auto dest: FindExpired_rows repo_objs(5))

end

section \<open>The pool\<close>

definition stored_outcome ::
  "(FileRecord \<Rightarrow> bool) \<Rightarrow> duration \<Rightarrow> ('w \<Rightarrow> FileRecord list) \<Rightarrow> ('w \<Rightarrow> bucket) \<Rightarrow> event \<Rightarrow> outcome
    \<Rightarrow> FileRecord set \<times> 'w \<Rightarrow> bool" where
  "stored_outcome P ttl rows objs e out c \<longleftrightarrow>
     (\<forall>env input res. e = Uploaded env input \<longrightarrow> out = UploadDone res \<longrightarrow> stored_result P ttl rows objs env input res c)"

lemma stored_outcome_simps [simp]:
  "stored_outcome P ttl rows objs (Uploaded env input) (UploadDone res) = stored_result P ttl rows objs env input res"
  "stored_outcome P ttl rows objs (Deleted now fid token) out = (\<lambda>_. True)"
  "stored_outcome P ttl rows objs (Swept now) out = (\<lambda>_. True)"
  "stored_outcome P ttl rows objs Elsewhere out = (\<lambda>_. True)"
  by (simp_all add: stored_outcome_def fun_eq_iff)

lemma event_thread_safe:
  assumes "outside_services r2 bkt s3_up cf" and "history_ok files (R2Objects r2 bkt) H w"
    and "\<And>env input. e = Uploaded env input \<Longrightarrow> env_uuid env \<notin> file_ID ` H \<and> length (env_uuid env) = 36 \<and>
      0 \<le> Year (env_now env) \<and> Year (env_now env) \<le> 9999"
  shows "file_safe P ttl files (R2Objects r2 bkt) e (stored_outcome P ttl files (R2Objects r2 bkt) e)
    (event_thread r2 cf on uni ttl url e) (H, w)"
proof -
  note backend = outside_services.backend [OF assms(1)]
  show ?thesis
  proof (cases e)
    case (Uploaded env input)
    have "env_uuid env \<notin> file_ID ` H" "length (env_uuid env) = 36" "0 \<le> Year (env_now env)" "Year (env_now env) \<le> 9999"
      using assms(3) [OF Uploaded] by simp_all
    note safe = file_backend.safe_Upload [OF backend assms(2) this(1) upload_NewService_sel this(2-4) refl]
    show ?thesis unfolding Uploaded event_thread.simps by (rule safe_map_thread) (simp add: safe)
  next
    case (Deleted now fid token)
    show ?thesis unfolding Deleted event_thread.simps
      by (rule safe_map_thread) (simp add: file_backend.safe_Delete [OF backend assms(2) file_NewService_sel(1-3)])
  next
    case (Swept now)
    show ?thesis unfolding Swept event_thread.simps
      by (rule safe_map_thread) (simp add: file_backend.safe_Sweep [OF backend assms(2) sweeper_New_sel(1-3)])
  next
    case Elsewhere
    then show ?thesis by (simp add: safe_stop)
  qed
qed

lemma rely_elsewhere:
  "elsewhere_step r2 bkt w w' \<Longrightarrow>
    file_rely P files (R2Objects r2 bkt) e (H, w) (seen_rows files H w', w')"
  by (auto simp: file_rely_def keeps_own_def elsewhere_step_def history_ok_def seen_rows_def Un_absorb2)

lemma initial_history:
  "integrity (rows w) (objs w) \<Longrightarrow> history_ok rows objs (set (rows w)) w"
  by (auto simp: history_ok_def integrity_def distinct_map)

lemma fresh_events_apart:
  assumes "fresh_events es rs" and "i < length es" and "j < length es" and "i \<noteq> j"
  shows "apart_events (\<lambda>r. \<forall>e \<in> set es. \<not> may_remove e r) (es ! i) (es ! j)"
  using assms upload_ids_apart [of es j i] by (cases "own_id (es ! j)") (auto simp: apart_events_def fresh_events_def)

abbreviation pool_calls :: "duration \<Rightarrow> event list \<Rightarrow> (string \<rightharpoonup> stored) \<Rightarrow> (string \<rightharpoonup> stored) \<Rightarrow> bool" where
  "pool_calls ttl es \<equiv> (\<lambda>m m'. \<exists>e \<in> set es. call_step ttl e m m')\<^sup>*\<^sup>*"

lemma interleaved_invariant:
  assumes out: "outside_services r2 bkt s3_up cf" and int: "integrity (files w) (R2Objects r2 bkt w)"
    and fresh: "fresh_events es (files w)" and run: "interleaved r2 bkt cf on uni ttl url es w ts w'"
  defines "P \<equiv> \<lambda>r. \<forall>e \<in> set es. \<not> may_remove e r" and "objs \<equiv> R2Objects r2 bkt"
  shows "\<exists>H. history_ok files objs H w' \<and>
    files_rg.pool_safe P files objs ttl es (stored_outcome P ttl files objs) ts (H, w') \<and>
    pool_calls ttl es (store_of (files w) (objs w)) (store_of (files w') (objs w'))"
  using run unfolding interleaved_def
proof (induction "(ts, w')" arbitrary: ts w' rule: rtranclp_induct)
  case base
  have hist: "history_ok files objs (set (files w)) w" using int unfolding objs_def by (rule initial_history)
  have "env_uuid env \<notin> file_ID ` set (files w) \<and> length (env_uuid env) = 36 \<and> 0 \<le> Year (env_now env) \<and> Year (env_now env) \<le> 9999"
    if "i < length es" "es ! i = Uploaded env input" for i env input
  proof -
    have e: "Uploaded env input \<in> set es" using that nth_mem by metis
    then have "env_uuid env \<in> set (upload_ids es)" by (force simp: upload_ids_iff)
    then show ?thesis using fresh e by (auto simp: fresh_events_def)
  qed
  then have "files_rg.pool_safe P files objs ttl es (stored_outcome P ttl files objs)
      (map (event_thread r2 cf on uni ttl url) es) (set (files w), w)"
    unfolding files_rg.pool_safe_def objs_def
    using event_thread_safe [OF out hist [unfolded objs_def]] by simp
  then show ?case using hist by blast
next
  case (step c)
  obtain ts0 w0 where c: "c = (ts0, w0)" by (cases c)
  from step.hyps(3) [OF c] obtain H where H: "history_ok files objs H w0"
      "files_rg.pool_safe P files objs ttl es (stored_outcome P ttl files objs) ts0 (H, w0)"
      "pool_calls ttl es (store_of (files w) (objs w)) (store_of (files w0) (objs w0))"
    by blast
  let ?H = "seen_rows files H w'"
  have next_: "files_rg.pool_safe P files objs ttl es (stored_outcome P ttl files objs) ts (?H, w') \<and>
      (elsewhere_step r2 bkt w0 w' \<or> (\<exists>e \<in> set es. file_guar ttl files objs e (H, w0) (?H, w')))"
    by (rule files_rg.pool_safe_step [OF step.hyps(2) [unfolded c] H(2)])
       (use fresh_events_apart [OF fresh] rely_elsewhere in \<open>auto simp: P_def objs_def\<close>)
  have "history_ok files objs ?H w' \<and>
      pool_calls ttl es (store_of (files w) (objs w)) (store_of (files w') (objs w'))"
  proof (cases "elsewhere_step r2 bkt w0 w'")
    case True
    then show ?thesis using H by (auto simp: elsewhere_step_def history_ok_def seen_rows_def objs_def Un_absorb2)
  next
    case False
    then obtain e where e: "e \<in> set es" "file_guar ttl files objs e (H, w0) (?H, w')" using next_ by blast
    then have "history_ok files objs ?H w'"
        "call_step ttl e (store_of (files w0) (objs w0)) (store_of (files w') (objs w'))"
      using H(1) by (simp_all add: file_guar_def)
    then show ?thesis using H(3) e(1) rtranclp.rtrancl_into_rtrancl by (metis (mono_tags, lifting))
  qed
  then show ?case using next_ by blast
qed

end
