(* ===== verification/Concurrency_Properties.thy ===== *)
theory Concurrency_Properties
  imports Interleaving_Threads
begin

text \<open>
  The properties of uploads, deletions and sweeps that overlap, in one instance or in several, with a pool
  of two uploads of the same content as the example.
\<close>

text \<open>The threads are the program: one that is not interrupted does exactly what the operation of its
  component does, in every state and with the same result.\<close>

lemma threads_run_the_code:
  "finish (event_thread r2 cf on uni ttl url (Uploaded env input)) w =
    map_prod UploadDone id (run_state (Upload uni (main_upload r2 ttl url) env input) w) \<and>
   finish (event_thread r2 cf on uni ttl url (Deleted now fid token)) w =
    map_prod DeleteDone id (run_state (DeleteBeforeTTL (main_files r2 cf on) now fid token) w) \<and>
   finish (event_thread r2 cf on uni ttl url (Swept now)) w =
    map_prod SweepDone id (run_state (sweepOnce (main_sweeper r2 cf on) now) w)"
  by (simp add: finish_map_thread finish_Upload finish_Delete finish_Sweep)

section \<open>Example\<close>

definition second_env :: upload_env where
  "second_env = example_env\<lparr>env_uuid := ''223e4567-e89b-42d3-a456-426614174000'', env_rand := Inr (replicate 32 (CHR 0x2B))\<rparr>"

definition second_record :: FileRecord where
  "second_record = new_record example_service second_env example_input ''image/png'' example_png
     (sha256_hex example_png) (EncodeToString (replicate 32 (CHR 0x2B)))"

abbreviation two_uploads :: "event list" where
  "two_uploads \<equiv> [Uploaded example_env example_input, Uploaded second_env example_input]"

lemma second_env_sel [simp]:
  "env_uuid second_env = ''223e4567-e89b-42d3-a456-426614174000''" "env_now second_env = example_now"
  "env_rand second_env = Inr (replicate 32 (CHR 0x2B))" "temp_seek second_env = None"
  by (simp_all add: second_env_def)

lemma upload_prepare_uuid:
  "upload_prepare uni (env\<lparr>env_uuid := u, env_rand := b\<rparr>) input = upload_prepare uni env input"
  by (simp add: upload_prepare_def upload_spool_def cong: option.case_cong sum.case_cong prod.case_cong if_cong)

lemma second_prepare:
  "upload_prepare (\<lambda>s. s) second_env example_input = Inr (''image/png'', example_png, sha256_hex example_png)"
  unfolding second_env_def upload_prepare_uuid by (rule example_prepare)

section \<open>Two uploads at a time\<close>

text \<open>C31. Looking for a duplicate and storing a file are separate steps: while everything answers, two
  uploads of one content that overlap can both store it, under two keys and with two records, where the
  second of two uploads in a row only returns the record of the first.\<close>

theorem overlapping_duplicates:
  assumes out: "outside_services r2 bkt s3_up cf" and up: "pg_up w" "s3_up (pg.more w)"
    and prep: "upload_prepare uni env1 input1 = Inr (ct1, body, chk)" "upload_prepare uni env2 input2 = Inr (ct2, body, chk)"
    and none: "active_with_checksum chk (env_now env1) (files w) = []" "active_with_checksum chk (env_now env2) (files w) = []"
    and ids: "env_uuid env1 \<notin> file_ID ` set (files w)" "env_uuid env2 \<notin> file_ID ` set (files w)" "env_uuid env1 \<noteq> env_uuid env2"
    and env: "env_rand env1 = Inr buf1" "temp_seek env1 = None" "env_rand env2 = Inr buf2" "temp_seek env2 = None"
  shows "\<exists>res1 res2 w'. interleaved r2 bkt cf on uni ttl url [Uploaded env1 input1, Uploaded env2 input2] w
      [Finished (UploadDone (Inr res1)), Finished (UploadDone (Inr res2))] w' \<and>
    \<not> Duplicate res1 \<and> \<not> Duplicate res2 \<and> files w' = files w @ [Record res1, Record res2] \<and>
    ChecksumSHA256 (Record res1) = chk \<and> ChecksumSHA256 (Record res2) = chk \<and>
    ObjectKey (Record res1) = env_key env1 input1 \<and> ObjectKey (Record res2) = env_key env2 input2"
proof -
  let ?s = "main_upload r2 ttl url"
  let ?r1 = "new_record ?s env1 input1 ct1 body chk (EncodeToString buf1)"
    and ?r2 = "new_record ?s env2 input2 ct2 body chk (EncodeToString buf2)"
  from file_backend.two_uploads_run [OF outside_services.backend [OF out], where s = ?s and g = UploadDone
      and others = "elsewhere_step r2 bkt", OF up _ _ prep none ids env]
  obtain w' where "interleaved r2 bkt cf on uni ttl url [Uploaded env1 input1, Uploaded env2 input2] w
      [Finished (UploadDone (Inr \<lparr>Record = ?r1, Duplicate = False, DeleteToken = EncodeToString buf1\<rparr>)),
       Finished (UploadDone (Inr \<lparr>Record = ?r2, Duplicate = False, DeleteToken = EncodeToString buf2\<rparr>))] w'"
      "files w' = files w @ [?r1, ?r2]"
    unfolding interleaved_def by auto
  then show ?thesis by (intro exI conjI) (assumption | simp)+
qed

theorem overlapping_duplicates_witness:
  "\<exists>res1 res2 w'. interleaved ref_r2 s3_buckets (Some ref_cf) True (\<lambda>s. s) (24 * Hour) example_url two_uploads empty_world
      [Finished (UploadDone (Inr res1)), Finished (UploadDone (Inr res2))] w' \<and>
    \<not> Duplicate res1 \<and> \<not> Duplicate res2 \<and> length (files w') = 2"
proof -
  have "env_uuid example_env \<noteq> env_uuid second_env" by simp
  from overlapping_duplicates [OF ref.outside_services_axioms _ _ example_prepare second_prepare _ _ _ _ this, of empty_world]
  obtain res1 res2 w' where "interleaved ref_r2 s3_buckets (Some ref_cf) True (\<lambda>s. s) (24 * Hour) example_url two_uploads empty_world
      [Finished (UploadDone (Inr res1)), Finished (UploadDone (Inr res2))] w'" "\<not> Duplicate res1" "\<not> Duplicate res2"
      "files w' = [Record res1, Record res2]"
    by (simp add: active_with_checksum_def) metis
  then show ?thesis by (intro exI conjI) (assumption | simp)+
qed

lemma two_uploads_overlap:
  "\<exists>w'. interleaved ref_r2 s3_buckets (Some ref_cf) True (\<lambda>s. s) (24 * Hour) example_url two_uploads empty_world
      [Finished (UploadDone (Inr \<lparr>Record = example_record, Duplicate = False, DeleteToken = example_token\<rparr>)),
       Finished (UploadDone (Inr \<lparr>Record = second_record, Duplicate = False, DeleteToken = EncodeToString (replicate 32 (CHR 0x2B))\<rparr>))] w'"
  using ref.own.two_uploads_run [where s = example_service and g = UploadDone and others = "elsewhere_step ref_r2 s3_buckets",
      OF _ _ _ _ example_prepare second_prepare, of empty_world]
  by (auto simp: interleaved_def active_with_checksum_def example_record_def second_record_def example_token_def)

lemma two_uploads_fresh: "fresh_events two_uploads []"
  by (auto simp: fresh_events_def example_year)

section \<open>Any number of threads\<close>

text \<open>C8. Whatever uploads, deletions and sweeps overlap, however their calls interleave, and whatever
  fails, every call is a step of one table of files: it adds the entry of its own upload, or changes an
  entry whose delete token it carried or that had expired, or takes back the object of its own failed
  upload, or changes nothing. At every moment the ids are distinct, no two records share an object, and
  every object a record refers to has the recorded content.\<close>

theorem interleaved_refines:
  assumes "outside_services r2 bkt s3_up cf" and "integrity (files w) (R2Objects r2 bkt w)"
    and "fresh_events es (files w)" and "interleaved r2 bkt cf on uni ttl url es w ts w'"
  shows "(\<lambda>m m'. \<exists>e \<in> set es. call_step ttl e m m')\<^sup>*\<^sup>* (own_store r2 bkt w) (own_store r2 bkt w') \<and>
    integrity (files w') (R2Objects r2 bkt w')"
  using interleaved_invariant [OF assms] by (auto simp: history_ok_def)

theorem interleaved_refines_witness:
  "\<exists>ts w'. interleaved ref_r2 s3_buckets (Some ref_cf) True (\<lambda>s. s) (24 * Hour) example_url two_uploads empty_world ts w' \<and>
    (\<lambda>m m'. \<exists>e \<in> set two_uploads. call_step (24 * Hour) e m m')\<^sup>*\<^sup>* (own_store ref_r2 s3_buckets empty_world)
      (own_store ref_r2 s3_buckets w') \<and> integrity (files w') (R2Objects ref_r2 s3_buckets w')"
proof -
  obtain ts w' where run: "interleaved ref_r2 s3_buckets (Some ref_cf) True (\<lambda>s. s) (24 * Hour) example_url two_uploads empty_world ts w'"
    using two_uploads_overlap by blast
  show ?thesis
    using run interleaved_refines [OF ref.outside_services_axioms _ _ run] two_uploads_fresh by (auto simp: integrity_def)
qed

text \<open>C7. A file that an upload has reported as stored keeps its record and its whole content for as long as
  no thread carries its delete token or is a sweep after its expiry, whatever else overlaps with the
  upload or comes after it.\<close>

theorem interleaved_keeps_file:
  assumes "outside_services r2 bkt s3_up cf" and "integrity (files w) (R2Objects r2 bkt w)"
    and "fresh_events es (files w)" and "interleaved r2 bkt cf on uni ttl url es w ts w'"
    and "i < length es" and "es ! i = Uploaded env input" and "ts ! i = Finished (UploadDone (Inr res))"
    and "\<not> Duplicate res" and "list_all (\<lambda>e. \<not> may_remove e (Record res)) es"
  shows "Record res \<in> set (files w') \<and> file_ID (Record res) = env_uuid env \<and>
    file_ExpiresAt (Record res) = env_now env + ttl \<and>
    R2Objects r2 bkt w' (ObjectKey (Record res)) = Some (content (in_Content input), ContentType (Record res))"
proof -
  let ?P = "\<lambda>r. \<forall>e \<in> set es. \<not> may_remove e r" and ?objs = "R2Objects r2 bkt"
  obtain H where safe: "files_rg.pool_safe ?P files ?objs ttl es (stored_outcome ?P ttl files ?objs) ts (H, w')"
    using interleaved_invariant [OF assms(1-4)] by blast
  have "stored_outcome ?P ttl files ?objs (es ! i) (UploadDone (Inr res)) (H, w')"
    by (rule files_rg.pool_safe_result [OF safe assms(5,7)])
  then show ?thesis using assms(6,8,9) by (simp add: stored_result_def list_all_iff)
qed

theorem interleaved_keeps_file_witness:
  "\<exists>ts w'. interleaved ref_r2 s3_buckets (Some ref_cf) True (\<lambda>s. s) (24 * Hour) example_url two_uploads empty_world ts w' \<and>
    R2Objects ref_r2 s3_buckets w' (ObjectKey second_record) = Some (example_png, ''image/png'')"
proof -
  obtain w' where run: "interleaved ref_r2 s3_buckets (Some ref_cf) True (\<lambda>s. s) (24 * Hour) example_url two_uploads empty_world
      [Finished (UploadDone (Inr \<lparr>Record = example_record, Duplicate = False, DeleteToken = example_token\<rparr>)),
       Finished (UploadDone (Inr \<lparr>Record = second_record, Duplicate = False, DeleteToken = EncodeToString (replicate 32 (CHR 0x2B))\<rparr>))] w'"
    using two_uploads_overlap by blast
  have "R2Objects ref_r2 s3_buckets w' (ObjectKey second_record) = Some (example_png, ''image/png'')"
    using interleaved_keeps_file [OF ref.outside_services_axioms _ _ run, of 1 second_env example_input] two_uploads_fresh
    by (simp add: integrity_def may_remove_def second_record_def)
  then show ?thesis using run by blast
qed

end
