(* ===== verification/Repository_Calls.thy ===== *)
theory Repository_Calls
  imports Schema Startup
begin

text \<open>
  What the rows of the tables look like: the Go and SQL types of their columns where the model's are wider
  (an \<^verbatim>\<open>int64\<close>, a state of two values), and the forms the code gives ids, digests, keys and times. And the
  services over them: a relation between databases that the calls of the repository keep, for rows of that
  form, is kept by every service and by the start of an instance. The interface is the locale
  \<open>repository_calls\<close>.
\<close>

definition file_formed :: "duration \<Rightarrow> string \<Rightarrow> FileRecord \<Rightarrow> bool" where
  "file_formed ttl url r \<longleftrightarrow> length (file_ID r) = 36 \<and> 0 < SizeBytes r \<and> is_i64 (SizeBytes r) \<and>
     is_digest (ChecksumSHA256 r) \<and> is_digest (UploaderIPHash r) \<and> is_digest (DeleteTokenHash r) \<and>
     ObjectKey r = buildObjectKey (file_CreatedAt r) (file_ID r) (OriginalName r) \<and>
     CDNURL r = TrimRight url (CHR ''/'') @ ''/'' @ ObjectKey r \<and> file_ExpiresAt r = file_CreatedAt r + ttl"

definition admin_formed :: "Admin \<Rightarrow> bool" where
  "admin_formed a \<longleftrightarrow> length (admin_ID a) = 36 \<and> Username a \<noteq> []"

definition session_formed :: "AdminSession \<Rightarrow> bool" where
  "session_formed s \<longleftrightarrow> is_digest (session_TokenHash s) \<and> session_ExpiresAt s = session_CreatedAt s + 24 * Hour"

definition key_formed :: "APIKey \<Rightarrow> bool" where
  "key_formed k \<longleftrightarrow> length (key_ID k) = 36 \<and> is_digest (key_TokenHash k) \<and> TrimSpace (key_Name k) = key_Name k \<and> key_Name k \<noteq> []"

definition document_formed :: "LegalDocument \<Rightarrow> bool" where
  "document_formed d \<longleftrightarrow> TrimSpace (Content d) \<noteq> []"

definition node_formed :: "NodeStatus \<Rightarrow> bool" where
  "node_formed n \<longleftrightarrow> (Status n = ''online'' \<and> MarkedOfflineAt n = None) \<or> (Status n = ''offline'' \<and> MarkedOfflineAt n \<noteq> None)"

definition settings_formed :: "UploadSettings \<Rightarrow> bool" where
  "settings_formed s \<longleftrightarrow> is_i64 (MaxUploadSizeMB s)"

section \<open>Migrations\<close>

text \<open>The migrations only create tables and indexes: the data of a database that has its tables stays.\<close>

definition table_data :: "'a pg_scheme \<Rightarrow> 'a pg_scheme" where
  "table_data w = w\<lparr>schema_migrations := [], db_faults := []\<rparr>"

lemma tables_data: "tables w' = tables w \<Longrightarrow> table_data w' = table_data w"
  unfolding table_data_def tables_def by (cases w; cases w') simp

lemma run_migration_data:
  assumes "run_state (run_migration apply_script f c) w = (res, w')" and "is_script (apply_script c)"
    and data: "\<And>w w'. apply_script c w = Inr ((), w') \<Longrightarrow> table_data w' = table_data w"
  shows "table_data w' = table_data w"
  using assms(1,2)
proof (cases rule: run_migration_cases)
  case (applied w1)
  have "table_data w' = table_data (tables w')" by (simp add: table_data_def tables_def)
  also have "\<dots> = table_data w1" by (simp add: applied(4) table_data_def)
  also have "\<dots> = table_data w" using data [OF applied(1)] by (simp add: table_data_def tables_def)
  finally show ?thesis .
qed (rule tables_data)

lemma Migrate_data:
  assumes "\<And>c. is_script (apply_script c)" and "\<And>c w w'. apply_script c w = Inr ((), w') \<Longrightarrow> table_data w' = table_data w"
  shows "preserves (same table_data) (Migrate apply_script ReadDir ReadFile)"
proof -
  have loop: "table_data w' = table_data w" if "run_state (migrate_loop apply_script ReadFile names) w = (res, w')" for names res w w'
    using that
  proof (induction names arbitrary: w)
    case (Cons f names)
    from Cons.prems show ?case
    proof (cases rule: migrate_loop_step)
      case stopped
      then show ?thesis using tables_data by blast
    next
      case (recorded w0)
      then show ?thesis using Cons.IH tables_data by metis
    next
      case (runs c w0 r w1)
      have "table_data w1 = table_data w"
        using run_migration_data [OF runs(4) assms] tables_data [OF runs(3)] by simp
      then show ?thesis using runs(5) Cons.IH by (cases r) auto
    qed
  qed simp
  have "preserves (same table_data) (migrate_loop apply_script ReadFile names)" for names
    using loop by (auto simp: preserves_def same_def)
  moreover have "table_data (w\<lparr>db_faults := fs\<rparr>) = table_data w" for w fs by (simp add: table_data_def)
  ultimately show ?thesis unfolding Migrate_def by (auto intro!: frame split: sum.split)
qed

section \<open>Starting an instance\<close>

text \<open>The numbers of a configuration fit their types.\<close>

lemma Atoi_i64: "Atoi s = Some n \<Longrightarrow> is_i64 n"
  by (auto simp: Atoi_def Let_def split: option.splits if_splits)

lemma parseInt_i64: "parseIntOrDefault num env key d = Inr n \<Longrightarrow> is_i64 d \<Longrightarrow> is_i64 n"
  by (auto simp: parseIntOrDefault_def Let_def split: if_splits option.splits dest: Atoi_i64)

lemma Load_i64: "Load num env = Inr cfg \<Longrightarrow> is_i64 (ServerMaxUploadMB cfg)"
  by (auto simp: Load_def bindE_Inr Let_def split: option.splits dest!: parseInt_i64 [where key = "''SERVER_MAX_UPLOAD_MB''"])

lemma exit_on_keeps [relates]:
  "reflp R \<Longrightarrow> transp R \<Longrightarrow> preserves R m \<Longrightarrow> (\<And>x. preserves R (k x)) \<Longrightarrow> preserves R (exit_on m k)"
  unfolding exit_on_def by (auto intro!: relates split: sum.split)

lemma new_session_formed [simp]: "session_formed (new_session token i now)"
  by (simp add: session_formed_def new_session_def sessionTTL_def)

lemma default_documents: "TrimSpace defaultTermsContent \<noteq> []" "TrimSpace defaultPrivacyContent \<noteq> []"
  by code_simp+

lemma PostgresFiles_sel [simp]:
  "Insert PostgresFiles = pg_Insert" "FindActiveByChecksum PostgresFiles = pg_FindActiveByChecksum"
  "FindByID PostgresFiles = pg_FindByID" "DeleteByID PostgresFiles = pg_DeleteByID"
  "FindExpired PostgresFiles = pg_FindExpired" "repo_Stats PostgresFiles = pg_Stats"
  by (simp_all add: PostgresFiles_def)

section \<open>The interface\<close>

locale repository_calls =
  fixes R :: "'a pg_scheme \<Rightarrow> 'a pg_scheme \<Rightarrow> bool"
  assumes preorder: "reflp R" "transp R"
    and data: "table_data w' = table_data w \<Longrightarrow> R w w'"
    and file_calls: "preserves R (pg_FindByID i)" "preserves R (pg_Stats now)"
    and admin_calls: "admin_formed a \<Longrightarrow> preserves R (pg_InsertAdmin a)" "preserves R (pg_FindAdminByUsername u)"
      "preserves R (pg_FindAdminByID i)" "preserves R pg_CountAdmins" "preserves R (pg_TouchAdminLastLogin i now)"
      "session_formed s \<Longrightarrow> preserves R (pg_InsertAdminSession s)"
      "preserves R (pg_FindAdminSessionByTokenHash h)" "preserves R (pg_TouchAdminSession h now)"
      "preserves R (pg_DeleteAdminSession h)" "preserves R (pg_DeleteExpiredAdminSessions now)"
    and key_calls: "key_formed k \<Longrightarrow> preserves R (pg_InsertAPIKey k)" "preserves R (pg_FindAPIKeyByTokenHash h)"
      "preserves R pg_ListAPIKeys" "preserves R (pg_TouchAPIKey i now)" "preserves R (pg_RevokeAPIKey i now)"
    and settings_calls: "preserves R pg_GetUploadSettings"
      "settings_formed st \<Longrightarrow> preserves R (pg_SeedUploadSettingsIfMissing st)"
      "settings_formed st \<Longrightarrow> preserves R (pg_UpdateUploadSettings st i now)"
    and legal_calls: "preserves R (pg_GetLegalDocument t)"
      "document_formed d \<Longrightarrow> preserves R (pg_SeedLegalDocumentIfMissing d)"
      "TrimSpace b \<noteq> [] \<Longrightarrow> preserves R (pg_UpdateLegalDocument t b i now)"
    and node_calls: "preserves R (pg_Heartbeat i h started now)" "preserves R (pg_MarkStaleOffline cutoff now)"
      "preserves R pg_ListNodeStatus"
begin

lemma file_reads: "f_repository s = PostgresFiles \<Longrightarrow> preserves R (GetInfo s now fid)"
  unfolding GetInfo_def by (auto intro!: relates preorder file_calls)

lemma accounts_kept:
  "preserves R (Login bcrypt PostgresAdmins now rand user password)"
  "preserves R (VerifySession PostgresAdmins now token)" "preserves R (Logout PostgresAdmins token)"
  "preserves R (SessionJanitor_Run (NewSessionJanitor PostgresAdmins) [now])"
  unfolding Login_def login_account_def VerifySession_def Logout_def Let_def
  by (auto simp: PostgresAdmins_def NewSessionJanitor_def intro!: relates preorder admin_calls split: sum.split option.split)

lemma keys_kept:
  "length uuid = 36 \<Longrightarrow> preserves R (CreateAPIKey PostgresKeys now uuid rand name)"
  "preserves R (ListAPIKeys PostgresKeys)" "preserves R (RevokeAPIKey PostgresKeys now i)"
  "preserves R (VerifyAPIKey PostgresKeys now key)"
  unfolding CreateAPIKey_def ListAPIKeys_def RevokeAPIKey_def VerifyAPIKey_def Let_def
  by (auto simp: PostgresKeys_def key_formed_def intro!: relates preorder key_calls split: sum.split)

lemma settings_kept:
  "preserves R (repo_GetUploadSettings PostgresSettings)" "preserves R (GetUploadSettings PostgresSettings)"
  "preserves R (UpdateUploadSettings quote PostgresSettings now i update)"
  "preserves R (syncOnce PostgresSettings rules)"
  "is_i64 (def_MaxUploadSizeMB d) \<Longrightarrow> preserves R (SeedUploadSettings PostgresSettings now d)"
  unfolding GetUploadSettings_def UpdateUploadSettings_def syncOnce_def SeedUploadSettings_def Let_def
  by (auto simp: PostgresSettings_def settings_formed_def validate_Inr intro!: relates preorder settings_calls split: sum.split)

lemma documents_kept:
  "preserves R (GetLegalDocument PostgresLegal t)" "preserves R (UpdateLegalDocument PostgresLegal now t body i)"
  "preserves R (repo_GetLegalDocument PostgresLegal t)" "preserves R (SeedLegalDocuments PostgresLegal now)"
  unfolding GetLegalDocument_def UpdateLegalDocument_def SeedLegalDocuments_def
  by (auto simp: PostgresLegal_def document_formed_def default_documents intro!: relates preorder legal_calls)

lemma nodes_kept:
  "preserves R (ListNodeStatus PostgresNodes)"
  "rep_repository r = PostgresNodes \<Longrightarrow> preserves R (Reporter_beat r now)"
  "jan_repository j = PostgresNodes \<Longrightarrow> preserves R (Janitor_sweepOnce j now)"
  unfolding Reporter_beat_def Janitor_sweepOnce_def
  by (auto simp: PostgresNodes_def intro!: relates preorder node_calls)

lemma bootstrap_kept:
  "length uuid = 36 \<Longrightarrow> preserves R (Bootstrap gen PostgresAdmins now uuid cfg)"
  unfolding Bootstrap_def
  by (auto simp: PostgresAdmins_def admin_formed_def bootstrap_admin_def intro!: relates preorder admin_calls split: sum.split)

lemma start_kept:
  assumes "\<And>c. is_script (host_script h c)" and "\<And>c w w'. host_script h c w = Inr ((), w') \<Longrightarrow> table_data w' = table_data w"
    and "length (host_uuid h) = 36"
  shows "preserves R (start h)"
proof -
  have "preserves R (Migrate (host_script h) (host_ReadDir h) (host_ReadFile h))"
    using Migrate_data [of "host_script h", OF assms(1,2)] data by (auto simp: preserves_def same_def)
  then show ?thesis unfolding start_def
    by (auto intro!: relates preorder bootstrap_kept settings_kept documents_kept assms(3)
        simp: Load_i64 split: sum.split)
qed

end

text \<open>The first instance that starts on a database leaves it with one account, the configured one.\<close>

lemma start_bootstraps:
  assumes "run_state (start h) w = (Serving i, w')" and "admins w = []"
    and "\<And>c. is_script (host_script h c)" and "\<And>c w w'. host_script h c w = Inr ((), w') \<Longrightarrow> table_data w' = table_data w"
  obtains hashed where "host_bcrypt h (AdminBootstrapPassword (inst_config i)) = Inr hashed"
    and "admins w' = [bootstrap_admin (host_uuid h) (AdminBootstrapUsername (inst_config i)) hashed (host_now h)]"
    and "AdminBootstrapUsername (inst_config i) \<noteq> []" and "AdminBootstrapPassword (inst_config i) \<noteq> []"
  using assms(1)
proof (rule start_stages)
  fix cfg u w1 w2 s
  assume m: "run_state (Migrate (host_script h) (host_ReadDir h) (host_ReadFile h)) w = (Inr u, w1)"
    and b: "run_state (Bootstrap (host_bcrypt h) PostgresAdmins (host_now h) (host_uuid h)
      \<lparr>boot_Username = AdminBootstrapUsername cfg, boot_Password = AdminBootstrapPassword cfg\<rparr>) w1 = (Inr (), w2)"
    and i: "build h cfg s = Serving i" and as: "admins w' = admins w2"
  have "admins (table_data w1) = admins (table_data w)"
    using preservesD [OF Migrate_data [of "host_script h", OF assms(3,4)] m] by (simp add: same_def)
  then have none: "admins w1 = []" using assms(2) by (simp add: table_data_def)
  have cfg: "inst_config i = cfg" using build_Serving [OF i] by simp
  from b show thesis
  proof (cases rule: pgadmins.Bootstrap_cases)
    case (added hashed)
    then have "AdminBootstrapPassword cfg \<noteq> []" by (auto simp: minPasswordLength_def)
    then show thesis using added that [of hashed] as cfg by simp
  qed (use none in simp)
qed

end
