(* ===== verification/Formed.thy ===== *)
theory Formed
  imports Repository_Calls
begin

text \<open>
  The rows of every table have the form the code gives them, and the constraints of the schema hold: every
  service of the program keeps both, whatever fails.
\<close>

definition rows_formed :: "duration \<Rightarrow> string \<Rightarrow> 'a pg_scheme \<Rightarrow> bool" where
  "rows_formed ttl url w \<longleftrightarrow> list_all (file_formed ttl url) (files w) \<and> list_all admin_formed (admins w) \<and>
     list_all session_formed (admin_sessions w) \<and> list_all key_formed (api_keys w) \<and>
     list_all document_formed (legal_documents w) \<and> list_all node_formed (node_status w) \<and>
     pred_option settings_formed (upload_settings w)"

definition database_formed :: "duration \<Rightarrow> string \<Rightarrow> 'a pg_scheme \<Rightarrow> bool" where
  "database_formed ttl url w \<longleftrightarrow> schema_ok w \<and> rows_formed ttl url w"

text \<open>Keeping a property is a relation like any other.\<close>

lemma keeps_preserves: "keeps P m = preserves (\<lambda>w w'. P w \<longrightarrow> P w') m"
  by (simp add: keeps_def preserves_def)

lemma keeps_preorder [simp]: "reflp (\<lambda>w w'. P w \<longrightarrow> P w')" "transp (\<lambda>w w'. P w \<longrightarrow> P w')"
  by (auto intro: reflpI transpI)

lemma keeps_conj: "keeps P m \<Longrightarrow> keeps Q m \<Longrightarrow> keeps (\<lambda>w. P w \<and> Q w) m"
  by (simp add: keeps_def)

lemma rows_formed_faults [simp]: "rows_formed ttl url (w\<lparr>db_faults := fs\<rparr>) = rows_formed ttl url w"
  "rows_formed ttl url (w\<lparr>file_locks := l\<rparr>) = rows_formed ttl url w"
  by (simp_all add: rows_formed_def)

section \<open>The methods of the repository\<close>

lemma touched [simp]:
  "admin_formed (if c then a\<lparr>LastLoginAt := t\<rparr> else a) = admin_formed a"
  "session_formed (if c then s\<lparr>session_LastUsedAt := now\<rparr> else s) = session_formed s"
  "key_formed (if c then k\<lparr>key_LastUsedAt := t\<rparr> else k) = key_formed k"
  "key_formed (if c then k\<lparr>RevokedAt := t\<rparr> else k) = key_formed k"
  by (simp_all add: admin_formed_def session_formed_def key_formed_def)

lemma touched_rows [simp]:
  "list_all admin_formed (touch_login i now as) = list_all admin_formed as"
  "list_all session_formed (touch_session h now ss) = list_all session_formed ss"
  "list_all key_formed (touch_key i now ks) = list_all key_formed ks"
  "list_all key_formed (revoke_key i now ks) = list_all key_formed ks"
  by (simp_all add: touch_login_def touch_session_def touch_key_def revoke_key_def list.pred_map comp_def)

lemma list_all_filter: "list_all p xs \<Longrightarrow> list_all p (filter q xs)"
  by (simp add: list_all_iff)

lemma set_documents_formed:
  "list_all document_formed ds \<Longrightarrow> TrimSpace body \<noteq> [] \<Longrightarrow> list_all document_formed (set_document t body i now ds)"
  unfolding set_document_def list.pred_map by (erule list.pred_mono_strong) (simp add: document_formed_def)

lemma nodes_formed:
  "list_all node_formed ns \<Longrightarrow> list_all node_formed (upsert_node i h st now ns)"
  "list_all node_formed ns \<Longrightarrow> list_all node_formed (mark_stale cutoff now ns)"
  by (auto simp: list_all_iff upsert_node_def heartbeat_row_def mark_stale_def node_formed_def NodeStatusOnline_def NodeStatusOffline_def)

lemma formed_files:
  "file_formed ttl url r \<Longrightarrow> keeps (rows_formed ttl url) (pg_Insert r)" "keeps (rows_formed ttl url) (pg_FindActiveByChecksum c now)"
  "keeps (rows_formed ttl url) (pg_FindByID i)" "keeps (rows_formed ttl url) (pg_DeleteByID i)"
  "keeps (rows_formed ttl url) (pg_FindExpired now n)" "keeps (rows_formed ttl url) (pg_Stats now)"
  unfolding pg_Insert_def pg_FindActiveByChecksum_def pg_FindByID_def pgScanFileRecord_def pg_DeleteByID_def
    pg_FindExpired_def find_expired_tx_def pg_Stats_def
  by (intro keep keeps_modify; auto simp: statements delete_rows_def rows_formed_def list_all_filter split: if_splits)+

lemma formed_admins:
  "admin_formed a \<Longrightarrow> keeps (rows_formed ttl url) (pg_InsertAdmin a)" "keeps (rows_formed ttl url) (pg_FindAdminByUsername u)"
  "keeps (rows_formed ttl url) (pg_FindAdminByID i)" "keeps (rows_formed ttl url) pg_CountAdmins"
  "keeps (rows_formed ttl url) (pg_TouchAdminLastLogin i now)"
  "session_formed s \<Longrightarrow> keeps (rows_formed ttl url) (pg_InsertAdminSession s)"
  "keeps (rows_formed ttl url) (pg_FindAdminSessionByTokenHash h)" "keeps (rows_formed ttl url) (pg_TouchAdminSession h now)"
  "keeps (rows_formed ttl url) (pg_DeleteAdminSession h)" "keeps (rows_formed ttl url) (pg_DeleteExpiredAdminSessions now)"
  unfolding pg_InsertAdmin_def pg_FindAdminByUsername_def pg_FindAdminByID_def pg_CountAdmins_def
    pg_TouchAdminLastLogin_def pg_InsertAdminSession_def pg_FindAdminSessionByTokenHash_def pg_TouchAdminSession_def
    pg_DeleteAdminSession_def pg_DeleteExpiredAdminSessions_def
  by (intro keep; auto simp: statements rows_formed_def list_all_filter split: if_splits)+

lemma formed_keys:
  "key_formed k \<Longrightarrow> keeps (rows_formed ttl url) (pg_InsertAPIKey k)" "keeps (rows_formed ttl url) (pg_FindAPIKeyByTokenHash h)"
  "keeps (rows_formed ttl url) pg_ListAPIKeys" "keeps (rows_formed ttl url) (pg_TouchAPIKey i now)"
  "keeps (rows_formed ttl url) (pg_RevokeAPIKey i now)"
  unfolding pg_InsertAPIKey_def pg_FindAPIKeyByTokenHash_def pg_ListAPIKeys_def pg_TouchAPIKey_def pg_RevokeAPIKey_def
  by (intro keep; auto simp: statements rows_formed_def split: if_splits)+

lemma formed_settings:
  "keeps (rows_formed ttl url) pg_GetUploadSettings"
  "settings_formed s \<Longrightarrow> keeps (rows_formed ttl url) (pg_SeedUploadSettingsIfMissing s)"
  "settings_formed s \<Longrightarrow> keeps (rows_formed ttl url) (pg_UpdateUploadSettings s i now)"
  unfolding pg_GetUploadSettings_def pg_SeedUploadSettingsIfMissing_def pg_UpdateUploadSettings_def
  by (intro keep; auto simp: statements rows_formed_def settings_formed_def split: if_splits option.splits)+

lemma formed_legal:
  "keeps (rows_formed ttl url) (pg_GetLegalDocument t)"
  "document_formed d \<Longrightarrow> keeps (rows_formed ttl url) (pg_SeedLegalDocumentIfMissing d)"
  "TrimSpace b \<noteq> [] \<Longrightarrow> keeps (rows_formed ttl url) (pg_UpdateLegalDocument t b i now)"
  unfolding pg_GetLegalDocument_def pg_SeedLegalDocumentIfMissing_def pg_UpdateLegalDocument_def
  by (intro keep; auto simp: statements rows_formed_def set_documents_formed document_formed_def split: if_splits list.splits)+

lemma formed_nodes:
  "keeps (rows_formed ttl url) (pg_Heartbeat i h st now)" "keeps (rows_formed ttl url) (pg_MarkStaleOffline cutoff now)"
  "keeps (rows_formed ttl url) pg_ListNodeStatus"
  unfolding pg_Heartbeat_def pg_MarkStaleOffline_def pg_ListNodeStatus_def
  by (intro keep; auto simp: rows_formed_def nodes_formed)+

lemmas rows_kept = formed_files formed_admins formed_keys formed_settings formed_legal formed_nodes

section \<open>The database as a whole\<close>

abbreviation keeps_db :: "duration \<Rightarrow> string \<Rightarrow> ('a pg_scheme, 'r) state \<Rightarrow> bool" where
  "keeps_db ttl url \<equiv> preserves (\<lambda>w w'. database_formed ttl url w \<longrightarrow> database_formed ttl url w')"

lemma database_keeps: "keeps schema_ok m \<Longrightarrow> keeps (rows_formed ttl url) m \<Longrightarrow> keeps_db ttl url m"
  by (auto simp: database_formed_def keeps_def preserves_def)

lemma db_files:
  "file_formed ttl url r \<Longrightarrow> keeps_db ttl url (pg_Insert r)" "keeps_db ttl url (pg_FindActiveByChecksum c now)"
  "keeps_db ttl url (pg_FindByID i)" "keeps_db ttl url (pg_DeleteByID i)"
  "keeps_db ttl url (pg_FindExpired now n)" "keeps_db ttl url (pg_Stats now)"
  by (intro database_keeps schema_kept rows_kept; assumption)+

lemma db_admins:
  "admin_formed a \<Longrightarrow> keeps_db ttl url (pg_InsertAdmin a)" "keeps_db ttl url (pg_FindAdminByUsername u)"
  "keeps_db ttl url (pg_FindAdminByID i)" "keeps_db ttl url pg_CountAdmins" "keeps_db ttl url (pg_TouchAdminLastLogin i now)"
  "session_formed s \<Longrightarrow> keeps_db ttl url (pg_InsertAdminSession s)" "keeps_db ttl url (pg_FindAdminSessionByTokenHash h)"
  "keeps_db ttl url (pg_TouchAdminSession h now)" "keeps_db ttl url (pg_DeleteAdminSession h)"
  "keeps_db ttl url (pg_DeleteExpiredAdminSessions now)"
  by (intro database_keeps schema_kept rows_kept; assumption)+

lemma db_keys:
  "key_formed k \<Longrightarrow> keeps_db ttl url (pg_InsertAPIKey k)" "keeps_db ttl url (pg_FindAPIKeyByTokenHash h)"
  "keeps_db ttl url pg_ListAPIKeys" "keeps_db ttl url (pg_TouchAPIKey i now)" "keeps_db ttl url (pg_RevokeAPIKey i now)"
  by (intro database_keeps schema_kept rows_kept; assumption)+

lemma db_settings:
  "keeps_db ttl url pg_GetUploadSettings"
  "settings_formed s \<Longrightarrow> keeps_db ttl url (pg_SeedUploadSettingsIfMissing s)"
  "settings_formed s \<Longrightarrow> keeps_db ttl url (pg_UpdateUploadSettings s i now)"
  by (intro database_keeps schema_kept rows_kept; assumption)+

lemma db_legal:
  "keeps_db ttl url (pg_GetLegalDocument t)" "document_formed d \<Longrightarrow> keeps_db ttl url (pg_SeedLegalDocumentIfMissing d)"
  "TrimSpace b \<noteq> [] \<Longrightarrow> keeps_db ttl url (pg_UpdateLegalDocument t b i now)"
  by (intro database_keeps schema_kept rows_kept; assumption)+

lemma db_nodes:
  "keeps_db ttl url (pg_Heartbeat i h st now)" "keeps_db ttl url (pg_MarkStaleOffline cutoff now)" "keeps_db ttl url pg_ListNodeStatus"
  by (intro database_keeps schema_kept rows_kept; assumption)+

text \<open>The form of the database is a matter of its tables alone.\<close>

lemma database_formed_cong:
  assumes "files w' = files w" "admins w' = admins w" "admin_sessions w' = admin_sessions w" "api_keys w' = api_keys w"
    "upload_settings w' = upload_settings w" "legal_documents w' = legal_documents w" "node_status w' = node_status w"
  shows "database_formed ttl url w' = database_formed ttl url w"
  using assms by (simp add: database_formed_def constraint_defs rows_formed_def)

lemma table_data_formed:
  assumes "table_data w' = table_data w"
  shows "database_formed ttl url w' = database_formed ttl url w"
  using assms [THEN arg_cong, of files] assms [THEN arg_cong, of admins] assms [THEN arg_cong, of admin_sessions]
    assms [THEN arg_cong, of api_keys] assms [THEN arg_cong, of upload_settings]
    assms [THEN arg_cong, of legal_documents] assms [THEN arg_cong, of node_status]
  by (intro database_formed_cong) (simp_all add: table_data_def)

lemma table_data_keeps: "table_data w' = table_data w \<Longrightarrow> database_formed ttl url w \<longrightarrow> database_formed ttl url w'"
  using table_data_formed by blast

text \<open>So it is one of the relations the services keep.\<close>

interpretation db: repository_calls "\<lambda>w w'. database_formed ttl url w \<longrightarrow> database_formed ttl url w'" for ttl url
  by unfold_locales ((rule keeps_preorder | (rule db_files db_admins db_keys db_settings db_legal db_nodes; assumption) | erule table_data_keeps)+)

lemma truncate_kept:
  assumes "preserves (same pg.truncate) m"
  shows "keeps_db ttl url m"
proof (rule preservesI, rule impI)
  fix w r w'
  assume run: "run_state m w = (r, w')" and w: "database_formed ttl url w"
  have "pg.truncate w' = pg.truncate w" using sameD [OF preservesD [OF assms run]] .
  then have "database_formed ttl url w' = database_formed ttl url w"
    by (intro database_formed_cong) (simp_all add: pg.truncate_def pg.defs)
  then show "database_formed ttl url w'" using w by simp
qed

lemma new_record_formed:
  assumes "upload_prepare uni env input = Inr (ct, body, chk)" and "is_i64 (maxSizeBytes (size_rules env))"
    and "length (env_uuid env) = 36" and "is_digest (in_UploaderIPHash input)"
  shows "file_formed ttl url (new_record (main_upload r2 ttl url) env input ct body chk token)"
proof -
  have "0 < int (length body)" "is_i64 (int (length body))" "chk = sha256_hex (content (in_Content input))"
    using upload_prepare_ok [OF assms(1)] assms(2) by (auto simp: is_i64_def)
  then show ?thesis using assms(3,4) by (simp add: file_formed_def new_record_def upload_NewService_def Let_def)
qed

context outside_services
begin

lemma storage_kept:
  "keeps_db ttl url (PutObject (R2Storage r2) put)" "keeps_db ttl url (DeleteObject (R2Storage r2) key)"
  by (auto simp: R2Storage_def R2_PutObject_def R2_DeleteObject_def intro!: truncate_kept frame s3_keeps)

lemma purge_kept: "keeps_db ttl url (purge_if_on on (map_option CloudflarePurger cf) urls)"
  by (auto simp: purge_if_on_def CloudflarePurger_def intro!: truncate_kept frame same_cf cf_keeps split: option.split)

lemma delete_kept: "keeps_db ttl url (DeleteBeforeTTL (main_files r2 cf on) now fid token)"
  unfolding DeleteBeforeTTL_def
  by (auto intro!: relates keeps_preorder db_files storage_kept purge_kept split: sum.split)

lemma sweep_loop_kept: "keeps_db ttl url (sweep_loop (main_sweeper r2 cf on) records urls n)"
  by (induction records arbitrary: urls n)
    (auto intro!: relates keeps_preorder db_files storage_kept split: sum.split)

lemma sweeps_kept: "keeps_db ttl url (sweepOnce (main_sweeper r2 cf on) now)"
  unfolding sweepOnce_def
  by (auto intro!: relates keeps_preorder db_files sweep_loop_kept purge_kept split: sum.split prod.split)

lemma uploads_kept:
  assumes "is_i64 (maxSizeBytes (size_rules env))" and "length (env_uuid env) = 36" and "is_digest (in_UploaderIPHash input)"
  shows "keeps_db ttl url (Upload uni (main_upload r2 ttl url) env input)"
proof (cases "upload_prepare uni env input")
  case (Inr p)
  obtain ct body chk where p: "p = (ct, body, chk)" by (cases p)
  note formed = new_record_formed [OF Inr [unfolded p] assms]
  have "keeps_db ttl url (upload_new (main_upload r2 ttl url) env input ct body chk)"
    unfolding upload_new_def Let_def
    by (auto intro!: relates keeps_preorder db_files storage_kept formed split: option.split sum.split)
  then show ?thesis
    unfolding Upload_def Inr p by (auto intro!: relates keeps_preorder db_files split: sum.split)
qed (auto simp: Upload_def intro!: relates keeps_preorder)

end

end
