(* ===== verification/Requests.thy ===== *)
theory Requests
  imports Router
begin

text \<open>
  What the HTTP layer does to the state it works on: nothing of its own but a line in the log. It relates
  the state before and after a request by whatever relation the services it calls keep, if that is
  reflexive and transitive and blind to the log. The interface is the locale \<open>server_calls\<close>: the operations
  the handlers call, each of which keeps the relation, for an upload, an id or a deletion under a condition.
\<close>

definition over :: "('w \<Rightarrow> 'w \<Rightarrow> bool) \<Rightarrow> 'w server \<Rightarrow> 'w server \<Rightarrow> bool" where
  "over R s s' \<longleftrightarrow> R (outside_world s) (outside_world s')"

lemma over_preorder [simp]: "reflp R \<Longrightarrow> reflp (over R)" "transp R \<Longrightarrow> transp (over R)"
  by (auto intro!: reflpI transpI simp: over_def dest: reflpD transpD)

lemma over_shared [relates]: "preserves R m \<Longrightarrow> preserves (over R) (shared m)"
  by (auto simp: preserves_def over_def split: prod.splits)

text \<open>A handler keeps the relation when it serves a request that meets the condition.\<close>

definition moves :: "('w server \<Rightarrow> 'w server \<Rightarrow> bool) \<Rightarrow> (request \<Rightarrow> 'w \<Rightarrow> bool) \<Rightarrow> 'w handler \<Rightarrow> bool" where
  "moves S fit h \<longleftrightarrow> (\<forall>r rec s rec' out s'. fit r (outside_world s) \<longrightarrow> h r rec s = (rec', out, s') \<longrightarrow> S s s')"

lemma movesI:
  "(\<And>r rec s rec' out s'. fit r (outside_world s) \<Longrightarrow> h r rec s = (rec', out, s') \<Longrightarrow> S s s') \<Longrightarrow> moves S fit h"
  unfolding moves_def by blast

lemma movesD: "moves S fit h \<Longrightarrow> fit r (outside_world s) \<Longrightarrow> h r rec s = (rec', out, s') \<Longrightarrow> S s s'"
  unfolding moves_def by blast

lemma moves_weaken: "moves S fit' h \<Longrightarrow> (\<And>r w. fit r w \<Longrightarrow> fit' r w) \<Longrightarrow> moves S fit h"
  unfolding moves_def by blast

named_theorems moves

lemma moves_answering [moves]:
  "(\<And>r w. fit r w \<Longrightarrow> preserves S (k r)) \<Longrightarrow> moves S fit (answering k)"
  by (rule movesI) (auto simp: answering_def split: prod.splits dest: preservesD)

lemma moves_still: "reflp S \<Longrightarrow> (\<And>r rec s. snd (snd (h r rec s)) = s) \<Longrightarrow> moves S fit h"
  by (rule movesI) (metis reflpD snd_conv)

lemma moves_noop [moves]: "reflp S \<Longrightarrow> moves S fit noopHandler"
  by (rule moves_still) (simp_all add: noopHandler_def)

lemma moves_health [moves]: "reflp S \<Longrightarrow> moves S fit handleHealthCheck" "reflp S \<Longrightarrow> moves S fit handleHealthCheckHead"
  by (rule moves_still; simp add: handleHealthCheck_def handleHealthCheckHead_def)+

lemma moves_CORS [moves]: "reflp S \<Longrightarrow> moves S fit next \<Longrightarrow> moves S fit (CORS origin methods next)"
proof (rule movesI)
  fix r rec s rec' out s'
  assume S: "reflp S" and m: "moves S fit next" and fit: "fit r (outside_world s)"
    and run: "CORS origin methods next r rec s = (rec', out, s')"
  show "S s s'"
  proof (cases "Method r = ''OPTIONS''")
    case True
    then show ?thesis using run S by (auto simp: CORS_def Let_def dest: reflpD)
  next
    case False
    then have "\<exists>rec0. next r rec0 s = (rec', out, s')" using run by (auto simp: CORS_def Let_def)
    then show ?thesis using movesD [OF m fit] by blast
  qed
qed

lemma moves_preflight [moves]:
  assumes "reflp S" and "moves S fit next"
  shows "moves S fit (filePreflightCORS (CORS o1 m1) (CORS o2 m2) next)"
proof (rule movesI)
  fix r rec s rec' out s'
  assume fit: "fit r (outside_world s)" and run: "filePreflightCORS (CORS o1 m1) (CORS o2 m2) next r rec s = (rec', out, s')"
  have cors: "moves S fit (CORS origin methods next)" for origin methods using moves_CORS [OF assms] .
  show "S s s'"
    using run movesD [OF cors fit, of o1 m1 rec rec' out s'] movesD [OF cors fit, of o2 m2 rec rec' out s']
    by (simp add: filePreflightCORS_def split: if_splits)
qed

lemma moves_RequireAdminSession [moves]:
  assumes "transp S" and "\<And>now token. preserves S (shared (VerifySession (admin_accounts svc) now token))"
    and "moves S (\<lambda>r _. fit r) next" and "\<And>r x. fit (r\<lparr>session_context := x\<rparr>) = fit r"
  shows "moves S (\<lambda>r _. fit r) (RequireAdminSession svc next)"
proof (rule movesI)
  fix r rec s rec' out s'
  assume fit: "fit r" and run: "RequireAdminSession svc next r rec s = (rec', out, s')"
  obtain v s1 where v: "run_state (shared (VerifySession (admin_accounts svc) (auth_now r) (extractBearerToken (http r)))) s = (v, s1)"
    by force
  have 1: "S s s1" using preservesD [OF assms(2) v] .
  show "S s s'"
  proof (cases v)
    case (Inl e)
    then have "s' = s1" using run v by (simp add: RequireAdminSession_def del: run_shared)
    then show ?thesis using 1 by simp
  next
    case (Inr x)
    then have "next (r\<lparr>session_context := Some x\<rparr>) rec s1 = (rec', out, s')"
      using run v by (simp add: RequireAdminSession_def del: run_shared)
    from movesD [OF assms(3) _ this] have "S s1 s'" using fit assms(4) by simp
    then show ?thesis using 1 assms(1) by (auto dest: transpD)
  qed
qed

lemma moves_metricsAuth [moves]:
  assumes "transp S" and "\<And>now token. preserves S (shared (VerifyAPIKeyOrAdminSession svc now token))"
    and "moves S (\<lambda>r _. fit r) next"
  shows "moves S (\<lambda>r _. fit r) (metricsAuth (Some svc) next)"
proof (rule movesI)
  fix r rec s rec' out s'
  assume fit: "fit r" and run: "metricsAuth (Some svc) next r rec s = (rec', out, s')"
  obtain v s1 where v: "run_state (shared (VerifyAPIKeyOrAdminSession svc (auth_now r) (extractBearerOrHeaderToken (http r)))) s = (v, s1)"
    by force
  have 1: "S s s1" using preservesD [OF assms(2) v] .
  show "S s s'"
  proof (cases v)
    case False
    then have "s' = s1" using run v by (simp add: metricsAuth_def del: run_shared)
    then show ?thesis using 1 by simp
  next
    case True
    then have "next r rec s1 = (rec', out, s')" using run v by (simp add: metricsAuth_def del: run_shared)
    from movesD [OF assms(3) _ this] have "S s1 s'" using fit by simp
    then show ?thesis using 1 assms(1) by (auto dest: transpD)
  qed
qed

section \<open>The interface\<close>

lemma shared_return: "shared (State_Monad.return x) = State_Monad.return x"
  by (rule state.expand) (auto simp: shared_def State_Monad.return_def)

lemma shared_bind: "shared (State_Monad.bind m k) = State_Monad.bind (shared m) (\<lambda>x. shared (k x))"
  by (rule state.expand) (auto simp: shared_def State_Monad.bind_def split: prod.splits)

lemmas shared_simps = shared_return shared_bind

locale server_calls =
  fixes S :: "'w server \<Rightarrow> 'w server \<Rightarrow> bool"
    and d :: "'w RouterDependencies"
    and fit_upload :: "upload_env \<Rightarrow> 'w \<Rightarrow> bool"
    and fit_id :: "string \<Rightarrow> bool"
    and fit_delete :: "time \<Rightarrow> string \<Rightarrow> string \<Rightarrow> bool"
  assumes preorder: "reflp S" "transp S"
    and log: "S s s' \<Longrightarrow> S s (s'\<lparr>access_log := l\<rparr>)"
    and login: "preserves S (shared (Login (dep_bcrypt d) (admin_accounts (dep_AdminService d)) now rand user password))"
    and session: "preserves S (shared (VerifySession (admin_accounts (dep_AdminService d)) now token))"
    and logout: "preserves S (shared (Logout (admin_accounts (dep_AdminService d)) token))"
    and create_key: "fit_id uuid \<Longrightarrow> preserves S (shared (CreateAPIKey (admin_keys (dep_AdminService d)) now uuid rand name))"
    and list_keys: "preserves S (shared (ListAPIKeys (admin_keys (dep_AdminService d))))"
    and revoke_key: "preserves S (shared (RevokeAPIKey (admin_keys (dep_AdminService d)) now i))"
    and verify_key: "preserves S (shared (VerifyAPIKey (admin_keys (dep_AdminService d)) now key))"
    and get_settings: "preserves S (shared (GetUploadSettings (admin_settings (dep_AdminService d))))"
    and update_settings: "preserves S (shared (UpdateUploadSettings (dep_quote d) (admin_settings (dep_AdminService d)) now i update))"
    and new_settings: "dep_onSettings d = Some f \<Longrightarrow> preserves S (modify (\<lambda>s. s\<lparr>rules := f st (rules s)\<rparr>))"
    and get_document: "preserves S (shared (GetLegalDocument (admin_legal (dep_AdminService d)) t))"
    and update_document: "preserves S (shared (UpdateLegalDocument (admin_legal (dep_AdminService d)) now t body i))"
    and read_document: "preserves S (shared (repo_GetLegalDocument (dep_LegalRepository d) t))"
    and list_nodes: "preserves S (shared (ListNodeStatus (dep_NodeRepository d)))"
    and file_stats: "preserves S (shared (repo_Stats (dep_StatsRepository d) now))"
    and file_info: "preserves S (shared (GetInfo (dep_FileService d) now fid))"
    and file_delete: "fit_delete now fid token \<Longrightarrow> preserves S (shared (DeleteBeforeTTL (dep_FileService d) now fid token))"
    and file_upload: "moves S (\<lambda>r w. fit_upload (upload_context r) w) (serve_upload d)"
    and metrics: "moves S (\<lambda>_ _. True) (dep_promhttp d)"
begin

definition fit :: "request \<Rightarrow> bool" where
  "fit r \<longleftrightarrow> fit_id (fresh_id r) \<and> fit_delete (serve_now r) (urlParam r ''id'') (extractDeleteToken (http r))"

lemma fit_context [simp]: "fit (r\<lparr>session_context := x\<rparr>) = fit r"
  by (simp add: fit_def extractDeleteToken_def)

lemma fit_parts: "fit r \<Longrightarrow> fit_id (fresh_id r)"
  "fit r \<Longrightarrow> fit_delete (serve_now r) (urlParam (http r) ''id'') (extractDeleteToken (http r))"
  by (simp_all add: fit_def)

lemma credential: "preserves S (shared (VerifyAPIKeyOrAdminSession (dep_AdminService d) now c))"
  unfolding VerifyAPIKeyOrAdminSession_def
  by (auto simp: shared_simps intro!: relates preorder session verify_key split: sum.split)

lemma admin_handlers:
  "preserves S (shared (Handler_Login (dep_bcrypt d) (dep_AdminService d) now rand request))"
  "preserves S (shared (Handler_Logout (dep_AdminService d) r))"
  "fit_id uuid \<Longrightarrow> preserves S (shared (Handler_CreateAPIKey (dep_AdminService d) now uuid rand name))"
  "preserves S (shared (Handler_ListAPIKeys (dep_AdminService d) zone))"
  "preserves S (shared (Handler_RevokeAPIKey (dep_AdminService d) now r))"
  "preserves S (shared (Handler_GetUploadSettings (dep_AdminService d) zone))"
  "preserves S (shared (GetTerms (dep_AdminService d) zone))" "preserves S (shared (GetPrivacy (dep_AdminService d) zone))"
  "preserves S (shared (UpdateTerms (dep_AdminService d) zone now body context))"
  "preserves S (shared (UpdatePrivacy (dep_AdminService d) zone now body context))"
  unfolding Handler_Login_def Handler_Logout_def Handler_CreateAPIKey_def Handler_ListAPIKeys_def Handler_RevokeAPIKey_def
    Handler_GetUploadSettings_def GetTerms_def GetPrivacy_def UpdateTerms_def UpdatePrivacy_def getLegalDocument_def
    updateLegalDocument_def
  by (auto simp: shared_simps intro!: relates preorder login logout create_key list_keys revoke_key get_settings get_document
      update_document split: option.split)

lemma settings_handler:
  "preserves S (Handler_UpdateUploadSettings (dep_quote d) (dep_AdminService d) (dep_onSettings d) now request context)"
  unfolding Handler_UpdateUploadSettings_def
  by (auto intro!: relates preorder update_settings new_settings split: option.split sum.split)

lemma public_handlers:
  "preserves S (shared (legal_Terms (dep_LegalRepository d) zone))" "preserves S (shared (legal_Privacy (dep_LegalRepository d) zone))"
  "preserves S (shared (Nodes_ServeHTTP (dep_NodeRepository d) now))"
  "preserves S (shared (Handler_GetInfo (dep_FileService d) zone now r))"
  "fit_delete now (urlParam r ''id'') (extractDeleteToken r) \<Longrightarrow> preserves S (shared (Handler_Delete (dep_FileService d) now r))"
  unfolding legal_Terms_def legal_Privacy_def legal_serve_def Nodes_ServeHTTP_def Handler_GetInfo_def Handler_Delete_def
  by (auto simp: shared_simps intro!: relates preorder read_document list_nodes file_info file_delete)

lemma stats_handler: "preserves S (Stats_ServeHTTP (dep_StatsRepository d) write now generated)"
  unfolding Stats_ServeHTTP_def by (auto intro!: relates preorder file_stats)

lemma admin_moves: "all_routes (\<lambda>_. moves S (\<lambda>r _. fit r)) (admin_routes d)"
  unfolding admin_routes_def
proof (rule all_routes_routes)
  fix m p h mw
  assume "(m, p, h, mw) \<in> set (admin_table d)"
  then show "moves S (\<lambda>r _. fit r) (chain_middleware mw h)"
    by (auto simp: admin_table_def Let_def chain_middleware_def intro!: moves admin_handlers settings_handler
        preorder session relates fit_parts)
qed (auto intro!: moves preorder)

abbreviation served :: "'w handler \<Rightarrow> bool" where
  "served \<equiv> moves S (\<lambda>r w. fit r \<and> fit_upload (upload_context r) w)"

lemma served_fit: "moves S (\<lambda>r _. fit r) h \<Longrightarrow> served h"
  by (erule moves_weaken) simp

lemma admin_served: "all_routes (\<lambda>_. served) (admin_routes d)"
  using admin_moves by (auto simp: all_routes_def intro: served_fit)

lemma file_served: "all_routes (\<lambda>_. served) router \<Longrightarrow> all_routes (\<lambda>_. served) (file_routes d router)"
  unfolding file_routes_def Let_def
  by (intro all_routes_Method served_fit moves public_handlers preorder fit_parts)

lemma public_served: "all_routes (\<lambda>_. served) (snd rt) \<Longrightarrow>
    all_routes (\<lambda>_. served) (snd (routes origin (public_table d) rt))"
  by (rule all_routes_routes)
    (auto simp: public_table_def chain_middleware_def intro!: moves public_handlers stats_handler relates preorder)

lemma upload_served: "served (serve_upload d)"
  by (rule moves_weaken [OF file_upload]) simp

lemma api_served: "all_routes (\<lambda>_. served) (api_routes d)"
proof -
  let ?r = "route (dep_AllowedOrigin d) ''POST'' ''/upload'' (serve_upload d) [] (newRouteRegistry, Map.empty)"
  have "all_routes (\<lambda>_. served) (snd ?r)"
    by (auto simp: route_snd entry_handler_def chain_middleware_def all_routes_def intro!: moves upload_served preorder)
  then have "all_routes (\<lambda>_. served) (snd (routes (dep_AllowedOrigin d) (public_table d) (fst ?r, file_routes d (snd ?r))))"
    by (intro public_served) (simp add: file_served)
  then show ?thesis
    unfolding api_routes_def Let_def split_def by (intro all_routes_Route admin_served)
qed

lemma root_served: "all_routes (\<lambda>_. served) (root_routes d)"
proof -
  have prom: "moves S (\<lambda>r _. fit r) (dep_promhttp d)" using metrics by (rule moves_weaken) simp
  show ?thesis unfolding root_routes_def Let_def chain_middleware_def
    by (auto intro!: all_routes_Route api_served all_routes_Method all_routes_Handle served_fit moves preorder credential prom)
qed

text \<open>Whatever is requested, and whatever becomes of it.\<close>

lemma request_related:
  assumes "moves S (\<lambda>_ _. True) chi_default" and "fit r" and "fit_upload (upload_context r) (outside_world s)"
    and run: "NewRouter d chi_default r rec s = (rec', out, s')"
  shows "S s s'"
proof -
  let ?h = "\<lambda>r. case root_routes d (Method r, Pattern r) of Some h \<Rightarrow> h r | None \<Rightarrow> chi_default r"
  obtain rec1 out1 s1 where h: "?h r rec s = (rec1, out1, s1)" by (metis prod_cases3)
  have "S s s1"
  proof (cases "root_routes d (Method r, Pattern r)")
    case None
    then show ?thesis using movesD [OF assms(1)] h by simp
  next
    case (Some g)
    then have "served g" by (rule all_routesD [OF root_served])
    then show ?thesis using movesD [of S _ g r s rec rec1 out1 s1] h Some assms(2,3) by simp
  qed
  moreover have "s' = s1 \<or> (\<exists>l. s' = s1\<lparr>access_log := l\<rparr>)"
    using run h unfolding NewRouter_def Recovery_def RequestLogging_def
    by (cases out1) (auto split: option.splits if_splits outcome.splits)
  ultimately show ?thesis using log by auto
qed

end

section \<open>Two kinds of relation\<close>

text \<open>A relation between the shared worlds, which for an upload it is enough to know of the service.\<close>

lemma moves_upload_over:
  assumes "reflp R" and "\<And>env w input res w'. fit_upload env w \<Longrightarrow> is_digest (in_UploaderIPHash input) \<Longrightarrow>
      run_state (Upload (dep_unicode d) (dep_UploadService d) env input) w = (res, w') \<Longrightarrow> R w w'"
  shows "moves (over R) (\<lambda>r w. fit_upload (upload_context r) w) (serve_upload d)"
proof (rule movesI)
  fix r rec s rec' out s'
  assume fit: "fit_upload (upload_context r) (outside_world s)" and run: "serve_upload d r rec s = (rec', out, s')"
  let ?ip = "hashIP (extractClientIP (http r)) (dep_ipHashSalt d)"
  have hash: "is_digest ?ip" by (simp add: hashIP_eq)
  have adm: "R (outside_world s) w'"
    if "serve_admitted (dep_unicode d) (dep_UploadService d) (rules s) (upload_context r) (dep_zone d) ?ip (upload_form r) h (outside_world s)
      = (resp, h', w')" for h resp h' w'
  proof (cases "upload_form r (i64 (maxSizeBytes (rules s) + 2 ^ 20))")
    case (FormFile name size body)
    let ?input = "\<lparr>in_OriginalName = name, in_SizeBytes = size, in_Content = body, in_UploaderIPHash = ?ip\<rparr>"
    obtain res w1 where u: "run_state (Upload (dep_unicode d) (dep_UploadService d) (upload_context r) ?input) (outside_world s) = (res, w1)"
      by force
    have "w' = w1" using that FormFile u by (cases res) (simp_all add: serve_admitted_def)
    then show ?thesis using assms(2) [OF fit _ u] hash by simp
  qed (use that reflpD [OF assms(1)] in \<open>auto simp: serve_admitted_def\<close>)
  show "over R s s'"
    by (rule Upload_ServeHTTP_cases [of "uploads s" "dep_unicode d" "dep_UploadService d" "rules s" "upload_context r" "dep_zone d"
        "dep_ipHashSalt d" "upload_form r" "http r" "outside_world s"])
      (use run adm reflpD [OF assms(1)] in \<open>auto simp: serve_upload_def over_def\<close>)
qed

lemma over_log: "over R s s' \<Longrightarrow> over R s (s'\<lparr>access_log := l\<rparr>)"
  by (simp add: over_def)

lemma over_rules: "reflp R \<Longrightarrow> preserves (over R) (modify (\<lambda>s. s\<lparr>rules := f (rules s)\<rparr>))"
  by (auto simp: preserves_def over_def dest: reflpD)

text \<open>An instance's own memory: the limit on the size stays an \<^verbatim>\<open>int64\<close>, and a request gives its slot back.\<close>

definition memory_kept :: "'w server \<Rightarrow> 'w server \<Rightarrow> bool" where
  "memory_kept s s' \<longleftrightarrow> (is_i64 (maxSizeBytes (rules s)) \<longrightarrow> is_i64 (maxSizeBytes (rules s'))) \<and>
     concurrencyLimiter (uploads s') = concurrencyLimiter (uploads s)"

lemma memory_preorder [simp]: "reflp memory_kept" "transp memory_kept"
  by (auto intro!: reflpI transpI simp: memory_kept_def)

lemma memory_shared: "preserves memory_kept (shared m)"
  by (auto simp: preserves_def memory_kept_def split: prod.splits)

lemma memory_upload: "moves memory_kept (\<lambda>r w. fit_upload (upload_context r) w) (serve_upload d)"
proof (rule movesI)
  fix r rec s rec' out s'
  assume run: "serve_upload d r rec s = (rec', out, s')"
  show "memory_kept s s'"
    by (rule Upload_ServeHTTP_cases [of "uploads s" "dep_unicode d" "dep_UploadService d" "rules s" "upload_context r" "dep_zone d"
        "dep_ipHashSalt d" "upload_form r" "http r" "outside_world s"])
      (use run in \<open>auto simp: serve_upload_def memory_kept_def\<close>)
qed

end
