(* ===== verification/Cluster.thy ===== *)
theory Cluster
  imports Formed Requests
begin

text \<open>
  The program put together: the dependencies \<^verbatim>\<open>cmd/server/main.go\<close> gives the router, and several running
  instances of one configuration on one database and one bucket. \<open>cluster_step\<close> starts and stops instances,
  lets one serve a request through the whole of its router, or lets one of its background loops do its
  work. Each step is one request or one tick: what can happen while they overlap is in \<open>Interleaving\<close>.
  The libraries behind the handlers come from outside.
\<close>

record 'w web =
  web_unicode :: "string \<Rightarrow> string"
  web_quote :: "string \<Rightarrow> string"
  web_CompareHash :: "string \<Rightarrow> string \<Rightarrow> error option"
  web_zone :: int
  web_CounterWrite :: "int \<Rightarrow> error + int option"
  web_promhttp :: "'w handler"
  web_default :: "'w handler"
  web_observe :: "string \<Rightarrow> string \<Rightarrow> bool"

definition main_admin :: "('a pg_scheme) admin_Service" where
  "main_admin = admin_NewService PostgresAdmins PostgresKeys PostgresSettings PostgresLegal"

definition main_dependencies ::
  "('a pg_scheme) web \<Rightarrow> ('a pg_scheme) instance \<Rightarrow> ('a pg_scheme) RouterDependencies" where
  "main_dependencies web i = \<lparr>dep_unicode = web_unicode web, dep_quote = web_quote web, dep_bcrypt = web_CompareHash web,
     dep_zone = web_zone web, dep_CounterWrite = web_CounterWrite web, dep_promhttp = web_promhttp web,
     dep_UploadService = inst_uploads i, dep_ipHashSalt = IPHashSalt (inst_config i), dep_FileService = inst_files i,
     dep_fileTTLHours = FileTTLHours (inst_config i), dep_StatsRepository = PostgresFiles, dep_NodeRepository = PostgresNodes,
     dep_LegalRepository = PostgresLegal, dep_AdminService = main_admin, dep_onSettings = Some apply_settings,
     dep_AllowedOrigin = AllowedOrigin (inst_config i), dep_RequestLatency = Some (web_observe web)\<rparr>"

definition instance_server :: "'w instance \<Rightarrow> 'w \<Rightarrow> 'w server" where
  "instance_server i w = \<lparr>outside_world = w, rules = inst_rules i, uploads = inst_handler i, access_log = []\<rparr>"

definition serve ::
  "('a pg_scheme) web \<Rightarrow> ('a pg_scheme) instance \<Rightarrow> request \<Rightarrow> ('a pg_scheme) server
    \<Rightarrow> responseRecorder \<times> outcome \<times> ('a pg_scheme) server" where
  "serve web i r s = NewRouter (main_dependencies web i) (web_default web) r fresh_recorder s"

text \<open>A request comes without a session, and the validator answers with the rules the instance has.\<close>

definition arriving :: "'w server \<Rightarrow> request \<Rightarrow> request" where
  "arriving s r = r\<lparr>session_context := None,
     upload_context := (upload_context r)\<lparr>size_rules := rules s, extension_rules := rules s, type_rules := rules s\<rparr>\<rparr>"

text \<open>What UUIDs promise: 36 characters, and none the database has; and the clock shows four digits.\<close>

definition fresh_request :: "request \<Rightarrow> 'a pg_scheme \<Rightarrow> bool" where
  "fresh_request r w \<longleftrightarrow> length (fresh_id r) = 36 \<and> length (env_uuid (upload_context r)) = 36 \<and>
     env_uuid (upload_context r) \<notin> file_ID ` set (files w) \<and>
     0 \<le> Year (env_now (upload_context r)) \<and> Year (env_now (upload_context r)) \<le> 9999"

section \<open>Several instances\<close>

record 'w cluster =
  common_world :: 'w
  members :: "('w instance \<times> 'w server) list"

datatype activity =
    Starts time string "error + string" "error + bytes"
  | Stops nat
  | Serves nat request
  | Sweeps nat time
  | Syncs nat
  | Beats nat time
  | Marks nat time
  | Cleans nat time

text \<open>What an instance works on is the common world, with its own rules, counters and log.\<close>

definition in_world :: "'w \<Rightarrow> 'w server \<Rightarrow> 'w server" where
  "in_world w s = s\<lparr>outside_world := w\<rparr>"

definition after :: "'w cluster \<Rightarrow> nat \<Rightarrow> 'w server \<Rightarrow> 'w cluster" where
  "after c j s = c\<lparr>common_world := outside_world s, members := (members c)[j := (fst (members c ! j), s)]\<rparr>"

text \<open>One turn of a background loop.\<close>

fun tick :: "activity \<Rightarrow> ('a pg_scheme) instance \<Rightarrow> (('a pg_scheme) server, unit) state" where
  "tick (Sweeps _ now) i = do { _ \<leftarrow> shared (sweepOnce (inst_sweeper i) now); State_Monad.return () }"
| "tick (Syncs _) i = do {
     current \<leftarrow> gets rules;
     (new_rules, changed) \<leftarrow> shared (syncOnce PostgresSettings current);
     modify (\<lambda>s. s\<lparr>rules := new_rules\<rparr>)
   }"
| "tick (Beats _ now) i = shared (Reporter_beat (inst_reporter i) now)"
| "tick (Marks _ now) i = do { _ \<leftarrow> shared (Janitor_sweepOnce (inst_janitor i) now); State_Monad.return () }"
| "tick (Cleans _ now) i = shared (SessionJanitor_Run (NewSessionJanitor PostgresAdmins) [now])"
| "tick _ i = State_Monad.return ()"

fun turn_of :: "activity \<Rightarrow> nat option" where
  "turn_of (Sweeps j _) = Some j"
| "turn_of (Syncs j) = Some j"
| "turn_of (Beats j _) = Some j"
| "turn_of (Marks j _) = Some j"
| "turn_of (Cleans j _) = Some j"
| "turn_of _ = None"

abbreviation starting :: "('pool, 'cfg, 'w) host \<Rightarrow> time \<Rightarrow> string \<Rightarrow> error + string \<Rightarrow> error + bytes \<Rightarrow> ('pool, 'cfg, 'w) host" where
  "starting h now uuid hostname rand \<equiv> h\<lparr>host_now := now, host_uuid := uuid, host_Hostname := hostname, host_rand := rand\<rparr>"

inductive cluster_step ::
  "('pool, 'cfg, 'a pg_scheme) host \<Rightarrow> ('a pg_scheme) web \<Rightarrow> activity \<Rightarrow> ('a pg_scheme) cluster \<Rightarrow> ('a pg_scheme) cluster \<Rightarrow> bool"
  for h web where
  starts: "run_state (start (starting h now uuid hostname rand)) (common_world c) = (b, w') \<Longrightarrow>
    length uuid = 36 \<Longrightarrow>
    cluster_step h web (Starts now uuid hostname rand) c
      (c\<lparr>common_world := w', members := members c @ (case b of Serving i \<Rightarrow> [(i, instance_server i w')] | _ \<Rightarrow> [])\<rparr>)"
| stops: "j < length (members c) \<Longrightarrow>
    cluster_step h web (Stops j) c (c\<lparr>members := take j (members c) @ drop (Suc j) (members c)\<rparr>)"
| serves: "j < length (members c) \<Longrightarrow> members c ! j = (i, s) \<Longrightarrow> fresh_request r (common_world c) \<Longrightarrow>
    serve web i (arriving s r) (in_world (common_world c) s) = (rec, out, s') \<Longrightarrow>
    cluster_step h web (Serves j r) c (after c j s')"
| ticks: "turn_of a = Some j \<Longrightarrow> j < length (members c) \<Longrightarrow> members c ! j = (i, s) \<Longrightarrow>
    run_state (tick a i) (in_world (common_world c) s) = (u, s') \<Longrightarrow>
    cluster_step h web a c (after c j s')"

inductive_cases cluster_stepE: "cluster_step h web a c c'"

inductive cluster_run ::
  "('pool, 'cfg, 'a pg_scheme) host \<Rightarrow> ('a pg_scheme) web \<Rightarrow> activity list \<Rightarrow> ('a pg_scheme) cluster \<Rightarrow> ('a pg_scheme) cluster \<Rightarrow> bool"
  for h web where
  stop: "cluster_run h web [] c c"
| go: "cluster_step h web a c c' \<Longrightarrow> cluster_run h web as c' c'' \<Longrightarrow> cluster_run h web (a # as) c c''"

section \<open>What the outside has to promise\<close>

definition r2_config :: "Config \<Rightarrow> R2ClientConfig" where
  "r2_config cfg = \<lparr>AccessKeyID = cfg_R2AccessKeyID cfg, SecretAccessKey = cfg_R2SecretAccessKey cfg,
     BucketName = cfg_R2BucketName cfg, Endpoint = cfg_R2Endpoint cfg\<rparr>"

text \<open>The parts of an instance of the configuration \<open>cfg\<close>.\<close>

abbreviation cfg_ttl :: "Config \<Rightarrow> duration" where
  "cfg_ttl cfg \<equiv> interval (FileTTLHours cfg) Hour"

definition own_parts :: "('a pg_scheme) R2Client \<Rightarrow> ('a pg_scheme) cf_Client option \<Rightarrow> Config \<Rightarrow> ('a pg_scheme) instance \<Rightarrow> bool" where
  "own_parts r2 cf cfg i \<longleftrightarrow> inst_config i = cfg \<and> inst_uploads i = main_upload r2 (cfg_ttl cfg) (R2PublicBaseURL cfg) \<and>
     inst_files i = main_files r2 cf (CloudflareCacheEnabled cfg) \<and>
     inst_sweeper i = main_sweeper r2 cf (CloudflareCacheEnabled cfg) \<and>
     rep_repository (inst_reporter i) = PostgresNodes \<and> jan_repository (inst_janitor i) = PostgresNodes"

locale hosting =
  outside_services r2 bkt s3_up cf
  for r2 :: "('x pg_scheme) R2Client" and bkt :: "'x \<Rightarrow> string \<Rightarrow> bucket" and s3_up and cf +
  fixes h :: "('pool, 'cfg, 'x pg_scheme) host"
    and web :: "('x pg_scheme) web"
    and cfg :: Config
  assumes loads: "Load (host_num h) (host_env h) = Inr cfg"
    and client: "NewR2Client (host_sdk h) (r2_config cfg) = Inr r2"
    and purger: "cf = start_purger h cfg"
    and script: "is_script (host_script h f)"
    and script_data: "host_script h f w = Inr ((), w') \<Longrightarrow> table_data w' = table_data w"
    and promhttp: "web_promhttp web r rec s = (rec', out, s') \<Longrightarrow> s' = s"
    and unmatched: "web_default web r rec s = (rec', out, s') \<Longrightarrow> s' = s"
begin

lemma build_parts:
  assumes "build (starting h now uuid hostname rand) cfg st = Serving i"
  shows "own_parts r2 cf cfg i"
  using assms client
  by (auto simp: build_def own_parts_def r2_config_def purger start_purger_def NewReporter_def NewJanitor_def
      split: sum.splits option.splits if_splits)

lemma started:
  assumes "run_state (start (starting h now uuid hostname rand)) w = (Serving i, w')"
  shows "own_parts r2 cf cfg i \<and> is_i64 (maxSizeBytes (inst_rules i)) \<and>
    concurrencyLimiter (inst_handler i) = \<lparr>capacity = nat (RateLimitMaxConcurrentUploads cfg), in_use = 0\<rparr>"
proof -
  from assms obtain cfg' st where b: "Load (host_num h) (host_env h) = Inr cfg'"
    "build (starting h now uuid hostname rand) cfg' st = Serving i"
    by (rule start_built) simp
  then have cfg': "cfg' = cfg" using loads by simp
  show ?thesis using build_Serving [OF b(2)] build_parts [OF b(2) [unfolded cfg']] cfg'
    by (simp add: stored_rules_def NewValidator_def)
qed

lemma own_start_kept:
  "length uuid = 36 \<Longrightarrow>
    keeps_db ttl url (start (starting h now uuid hostname rand))"
  by (rule db.start_kept) (use script script_data in auto)

end

section \<open>One instance\<close>

locale running = hosting r2 bkt s3_up cf h web cfg
  for r2 :: "('x pg_scheme) R2Client" and bkt :: "'x \<Rightarrow> string \<Rightarrow> bucket" and s3_up and cf
    and h :: "('pool, 'cfg, 'x pg_scheme) host" and web and cfg +
  fixes i :: "('x pg_scheme) instance"
  assumes parts: "own_parts r2 cf cfg i"
begin

lemma dependencies [simp]:
  "dep_unicode (main_dependencies web i) = web_unicode web"
  "dep_UploadService (main_dependencies web i) = main_upload r2 (cfg_ttl cfg) (R2PublicBaseURL cfg)"
  "dep_FileService (main_dependencies web i) = main_files r2 cf (CloudflareCacheEnabled cfg)"
  "dep_AdminService (main_dependencies web i) = main_admin" "dep_promhttp (main_dependencies web i) = web_promhttp web"
  "dep_LegalRepository (main_dependencies web i) = PostgresLegal" "dep_NodeRepository (main_dependencies web i) = PostgresNodes"
  "dep_StatsRepository (main_dependencies web i) = PostgresFiles"
  "dep_onSettings (main_dependencies web i) = Some apply_settings"
  using parts by (simp_all add: main_dependencies_def own_parts_def)

lemma repositories [simp]:
  "admin_accounts main_admin = PostgresAdmins" "admin_keys main_admin = PostgresKeys"
  "admin_settings main_admin = PostgresSettings" "admin_legal main_admin = PostgresLegal"
  by (simp_all add: main_admin_def admin_NewService_def)

lemma moves_outside: "reflp S \<Longrightarrow> moves S fit (web_promhttp web)" "reflp S \<Longrightarrow> moves S fit (web_default web)"
  by (rule movesI; drule promhttp unmatched; simp add: reflpD)+

text \<open>A relation of databases that the calls of the repository, uploads and deletions keep, is one of the instance.\<close>

lemma over_calls:
  assumes R: "repository_calls R"
    and up: "\<And>env w input res w'. fit_upload env w \<Longrightarrow> is_digest (in_UploaderIPHash input) \<Longrightarrow>
      run_state (Upload (web_unicode web) (main_upload r2 (cfg_ttl cfg) (R2PublicBaseURL cfg)) env input) w = (res, w') \<Longrightarrow> R w w'"
    and del: "\<And>now fid token. fit_delete now fid token \<Longrightarrow>
      preserves R (DeleteBeforeTTL (main_files r2 cf (CloudflareCacheEnabled cfg)) now fid token)"
  shows "server_calls (over R) (main_dependencies web i) fit_upload (\<lambda>uuid. length uuid = 36) fit_delete"
proof -
  note pre = repository_calls.preorder [OF R]
  have "moves (over R) (\<lambda>r w. fit_upload (upload_context r) w) (serve_upload (main_dependencies web i))"
    by (rule moves_upload_over) (use pre up in auto)
  then show ?thesis
    by unfold_locales (auto simp: over_log file_NewService_sel intro!: over_rules over_shared moves_outside over_preorder pre
      repository_calls.accounts_kept [OF R] repository_calls.keys_kept [OF R] repository_calls.settings_kept [OF R] repository_calls.documents_kept [OF R] repository_calls.nodes_kept [OF R] repository_calls.file_reads [OF R] repository_calls.file_calls [OF R] del)
qed

end

text \<open>The database stays well formed.\<close>

definition fit_env :: "upload_env \<Rightarrow> 'w \<Rightarrow> bool" where
  "fit_env env w \<longleftrightarrow> is_i64 (maxSizeBytes (size_rules env)) \<and> length (env_uuid env) = 36"

sublocale running \<subseteq> formed: server_calls
  "over (\<lambda>w w'. database_formed (cfg_ttl cfg) (R2PublicBaseURL cfg) w \<longrightarrow> database_formed (cfg_ttl cfg) (R2PublicBaseURL cfg) w')"
  "main_dependencies web i" fit_env "\<lambda>uuid. length uuid = 36" "\<lambda>_ _ _. True"
  by (rule over_calls [OF db.repository_calls_axioms])
    (auto simp: fit_env_def intro: delete_kept dest: preservesD [OF uploads_kept, rotated 3])

text \<open>Its own memory, too.\<close>

lemma memory_settings: "preserves memory_kept (modify (\<lambda>s. s\<lparr>rules := apply_settings st (rules s)\<rparr>))"
  by (simp add: preserves_def memory_kept_def apply_settings_def Validator_Update_def NewValidator_def)

sublocale running \<subseteq> memory: server_calls memory_kept "main_dependencies web i" fit_env "\<lambda>uuid. length uuid = 36" "\<lambda>_ _ _. True"
  by unfold_locales (auto simp: memory_kept_def intro: memory_shared memory_upload moves_outside memory_settings)

section \<open>All of them\<close>

definition member_formed :: "Config \<Rightarrow> 'w server \<Rightarrow> bool" where
  "member_formed cfg s \<longleftrightarrow> is_i64 (maxSizeBytes (rules s)) \<and>
     concurrencyLimiter (uploads s) = \<lparr>capacity = nat (RateLimitMaxConcurrentUploads cfg), in_use = 0\<rparr>"

definition cluster_formed ::
  "('a pg_scheme) R2Client \<Rightarrow> ('a pg_scheme) cf_Client option \<Rightarrow> Config \<Rightarrow> ('a pg_scheme) cluster \<Rightarrow> bool" where
  "cluster_formed r2 cf cfg c \<longleftrightarrow> database_formed (cfg_ttl cfg) (R2PublicBaseURL cfg) (common_world c) \<and>
     (\<forall>(i, s) \<in> set (members c). own_parts r2 cf cfg i \<and> member_formed cfg s)"

lemma member_kept: "memory_kept s s' \<Longrightarrow> member_formed cfg s \<Longrightarrow> member_formed cfg s'"
  by (simp add: memory_kept_def member_formed_def)

lemma member_in_world [simp]: "member_formed cfg (in_world w s) = member_formed cfg s"
  by (simp add: member_formed_def in_world_def)

lemma cluster_database: "cluster_formed r2 cf cfg c \<Longrightarrow> database_formed (cfg_ttl cfg) (R2PublicBaseURL cfg) (common_world c)"
  by (simp add: cluster_formed_def)

lemma cluster_after:
  assumes "cluster_formed r2 cf cfg c" and "j < length (members c)" and "members c ! j = (i, s)"
    and "database_formed (cfg_ttl cfg) (R2PublicBaseURL cfg) (outside_world s')" and "member_formed cfg s'"
  shows "cluster_formed r2 cf cfg (after c j s')"
  using assms set_update_subset_insert [of "members c" j "(i, s')"] nth_mem [OF assms(2)]
  by (auto simp: cluster_formed_def after_def)

context running
begin

lemma tick_database:
  "preserves (over (\<lambda>w w'. database_formed (cfg_ttl cfg) (R2PublicBaseURL cfg) w \<longrightarrow> database_formed (cfg_ttl cfg) (R2PublicBaseURL cfg) w')) (tick a i)"
  using parts unfolding own_parts_def
  by (cases a)
    (auto simp del: SessionJanitor_Run.simps
      intro!: relates over_shared over_rules over_preorder keeps_preorder sweeps_kept db.settings_kept db.nodes_kept db.accounts_kept
      split: prod.split)

lemma tick_memory: "preserves memory_kept (tick a i)"
proof (cases a)
  case (Syncs j)
  show ?thesis
  proof (rule preservesI)
    fix s u s'
    assume run: "run_state (tick a i) s = (u, s')"
    obtain rules' changed w' where sync: "run_state (syncOnce PostgresSettings (rules s)) (outside_world s) = ((rules', changed), w')"
      by (metis prod.exhaust)
    then have "s' = s\<lparr>outside_world := w', rules := rules'\<rparr>" using run Syncs by simp
    moreover have "rules' = rules s \<or> (\<exists>st. rules' = apply_settings st (rules s))"
      using pgsettings.syncOnce_result [OF sync] by auto
    ultimately show "memory_kept s s'"
      by (auto simp: memory_kept_def apply_settings_def Validator_Update_def NewValidator_def)
  qed
qed (auto intro!: relates memory_shared)

lemma fit_arriving:
  assumes "fresh_request r w" and "member_formed cfg s"
  shows "formed.fit (arriving s r)" "memory.fit (arriving s r)" "fit_env (upload_context (arriving s r)) (outside_world (in_world w s))"
  using assms by (simp_all add: formed.fit_def memory.fit_def fit_env_def arriving_def fresh_request_def member_formed_def)

lemma serve_kept:
  assumes "fresh_request r w" and mem: "member_formed cfg s" and db: "database_formed (cfg_ttl cfg) (R2PublicBaseURL cfg) w"
    and run: "serve web i (arriving s r) (in_world w s) = (rec, out, s')"
  shows "database_formed (cfg_ttl cfg) (R2PublicBaseURL cfg) (outside_world s') \<and> member_formed cfg s'"
proof
  note fit = fit_arriving [OF assms(1) mem]
  note run = run [unfolded serve_def]
  have "memory_kept (in_world w s) s'" by (rule memory.request_related [OF _ fit(2,3) run]) (simp add: moves_outside)
  then show "member_formed cfg s'" by (rule member_kept) (simp add: mem)
  have "over (\<lambda>w w'. database_formed (cfg_ttl cfg) (R2PublicBaseURL cfg) w \<longrightarrow> database_formed (cfg_ttl cfg) (R2PublicBaseURL cfg) w') (in_world w s) s'"
    by (rule formed.request_related [OF _ fit(1,3) run]) (simp add: moves_outside)
  then show "database_formed (cfg_ttl cfg) (R2PublicBaseURL cfg) (outside_world s')" using db by (simp add: over_def in_world_def)
qed

lemma tick_kept:
  assumes mem: "member_formed cfg s" and db: "database_formed (cfg_ttl cfg) (R2PublicBaseURL cfg) w"
    and run: "run_state (tick a i) (in_world w s) = (u, s')"
  shows "database_formed (cfg_ttl cfg) (R2PublicBaseURL cfg) (outside_world s') \<and> member_formed cfg s'"
proof
  show "member_formed cfg s'" by (rule member_kept [OF preservesD [OF tick_memory run]]) (simp add: mem)
  show "database_formed (cfg_ttl cfg) (R2PublicBaseURL cfg) (outside_world s')"
    using preservesD [OF tick_database run] db by (simp add: over_def in_world_def)
qed

end

context hosting
begin

lemma cluster_step_formed:
  assumes "cluster_step h web a c c'" and "cluster_formed r2 cf cfg c"
  shows "cluster_formed r2 cf cfg c'"
  using assms(1)
proof cases
  case (starts _ _ _ _ b w')
  have "database_formed (cfg_ttl cfg) (R2PublicBaseURL cfg) w'"
    using preservesD [OF own_start_kept [OF starts(4)] starts(3)] assms(2) by (simp add: cluster_formed_def)
  moreover have "own_parts r2 cf cfg i \<and> member_formed cfg (instance_server i w')" if "b = Serving i" for i
    using started [OF starts(3) [unfolded that]] by (simp add: member_formed_def instance_server_def)
  ultimately show ?thesis
    using assms(2) starts(2) by (cases b) (auto simp: cluster_formed_def)
next
  case (stops j)
  then show ?thesis using assms(2) by (auto simp: cluster_formed_def dest: in_set_takeD in_set_dropD)
next
  case (serves j i s r rec out s')
  have m: "own_parts r2 cf cfg i" "member_formed cfg s" using assms(2) nth_mem [OF serves(3)] serves(4) by (auto simp: cluster_formed_def)
  have run: "running r2 bkt s3_up cf h web cfg i" by (intro running.intro hosting_axioms running_axioms.intro m)
  show ?thesis
    using running.serve_kept [OF run serves(5) m(2) cluster_database [OF assms(2)] serves(6)] cluster_after [OF assms(2) serves(3,4)] serves(2)
    by simp
next
  case (ticks j i s u s')
  have m: "own_parts r2 cf cfg i" "member_formed cfg s" using assms(2) nth_mem [OF ticks(3)] ticks(4) by (auto simp: cluster_formed_def)
  have run: "running r2 bkt s3_up cf h web cfg i" by (intro running.intro hosting_axioms running_axioms.intro m)
  show ?thesis
    using running.tick_kept [OF run m(2) cluster_database [OF assms(2)] ticks(5)] cluster_after [OF assms(2) ticks(3,4)] ticks(1)
    by simp
qed

lemma cluster_run_formed: "cluster_run h web as c c' \<Longrightarrow> cluster_formed r2 cf cfg c \<Longrightarrow> cluster_formed r2 cf cfg c'"
  by (induction rule: cluster_run.induct) (auto dest: cluster_step_formed)

end

end
