(* ===== verification/Cluster_Files.thy ===== *)
theory Cluster_Files
  imports Cluster System
begin

text \<open>
  The files a cluster stores. Everything an instance does on the database and the bucket, a request or a
  tick of a loop, amounts to a sequence of steps of the specification in \<open>System\<close>, of which the deletions
  and sweeps are those that the request or the tick asks for.
\<close>

section \<open>Steps of the specification\<close>

lemma store_run_append: "store_run ttl es m m' \<Longrightarrow> store_run ttl es' m' m'' \<Longrightarrow> store_run ttl (es @ es') m m''"
  by (induction rule: store_run.induct) (auto intro: store_run.go)

lemma store_run_one: "store_step ttl e m m' \<Longrightarrow> store_run ttl [e] m m'"
  by (auto intro: store_run.intros)

lemma store_run_keeps:
  assumes "store_run ttl es m m'" and "m fid = Some (r, obj)" and "file_ID r = fid" and "\<forall>e \<in> set es. \<not> may_remove e r"
  shows "m' fid = Some (r, obj)"
  using assms by (induction rule: store_run.induct) (simp_all add: store_step_keeps)

definition refines ::
  "('x pg_scheme) R2Client \<Rightarrow> ('x \<Rightarrow> string \<Rightarrow> bucket) \<Rightarrow> duration \<Rightarrow> (event \<Rightarrow> bool) \<Rightarrow> 'x pg_scheme \<Rightarrow> 'x pg_scheme \<Rightarrow> bool" where
  "refines r2 bkt ttl A w w' \<longleftrightarrow> (integrity (files w) (R2Objects r2 bkt w) \<longrightarrow> integrity (files w') (R2Objects r2 bkt w') \<and>
     (\<exists>es. list_all A es \<and> store_run ttl es (own_store r2 bkt w) (own_store r2 bkt w')))"

lemma refines_idle:
  assumes "files w' = files w" and "R2Objects r2 bkt w' = R2Objects r2 bkt w"
  shows "refines r2 bkt ttl A w w'"
  unfolding refines_def using assms by (auto intro!: exI [of _ "[]"] store_run.stop)

lemma refines_trans:
  assumes "refines r2 bkt ttl A w w'" and "refines r2 bkt ttl A w' w''"
  shows "refines r2 bkt ttl A w w''"
  unfolding refines_def
proof (intro impI conjI)
  assume "integrity (files w) (R2Objects r2 bkt w)"
  with assms obtain es es' where "integrity (files w'') (R2Objects r2 bkt w'')"
    "list_all A es" "store_run ttl es (own_store r2 bkt w) (own_store r2 bkt w')"
    "list_all A es'" "store_run ttl es' (own_store r2 bkt w') (own_store r2 bkt w'')"
    unfolding refines_def by auto
  then show "integrity (files w'') (R2Objects r2 bkt w'')"
    and "\<exists>es. list_all A es \<and> store_run ttl es (own_store r2 bkt w) (own_store r2 bkt w'')"
    by (auto intro!: exI [of _ "es @ es'"] intro: store_run_append)
qed

lemma refines_preorder [simp]: "reflp (refines r2 bkt ttl A)" "transp (refines r2 bkt ttl A)"
  by (simp_all add: reflpI refines_idle transpI [OF refines_trans])

lemma refines_mono: "refines r2 bkt ttl A w w' \<Longrightarrow> (\<And>e. A e \<Longrightarrow> B e) \<Longrightarrow> refines r2 bkt ttl B w w'"
  unfolding refines_def by (meson list.pred_mono_strong)

lemma refines_step:
  assumes "outside_services r2 bkt s3_up cf" and "system_step r2 bkt cf on uni ttl url e w w'" and "A e"
  shows "refines r2 bkt ttl A w w'"
  unfolding refines_def
proof (rule impI)
  assume "integrity (files w) (R2Objects r2 bkt w)"
  from step_refines [OF assms(1) this assms(2)]
  show "integrity (files w') (R2Objects r2 bkt w') \<and>
     (\<exists>es. list_all A es \<and> store_run ttl es (own_store r2 bkt w) (own_store r2 bkt w'))"
    using assms(3) by (auto intro!: exI [of _ "[e]"] intro: store_run_one)
qed

section \<open>Calls that leave the files alone\<close>

definition stored_files :: "'a pg_scheme \<Rightarrow> FileRecord list \<times> 'a" where
  "stored_files w = (files w, pg.more w)"

lemma stored_files_faults [simp]: "stored_files (w\<lparr>db_faults := fs\<rparr>) = stored_files w"
  by (simp add: stored_files_def)

lemma data_stored: "table_data w' = table_data w \<Longrightarrow> same stored_files w w'"
  by (drule arg_cong [of _ _ stored_files]) (simp add: table_data_def same_def stored_files_def)

lemma stored_calls:
  "preserves (same stored_files) (pg_FindByID i)" "preserves (same stored_files) (pg_Stats now)"
  "preserves (same stored_files) (pg_InsertAdmin a)" "preserves (same stored_files) (pg_FindAdminByUsername u)"
  "preserves (same stored_files) (pg_FindAdminByID i)" "preserves (same stored_files) pg_CountAdmins"
  "preserves (same stored_files) (pg_TouchAdminLastLogin i now)" "preserves (same stored_files) (pg_InsertAdminSession s)"
  "preserves (same stored_files) (pg_FindAdminSessionByTokenHash h)" "preserves (same stored_files) (pg_TouchAdminSession h now)"
  "preserves (same stored_files) (pg_DeleteAdminSession h)" "preserves (same stored_files) (pg_DeleteExpiredAdminSessions now)"
  "preserves (same stored_files) (pg_InsertAPIKey k)" "preserves (same stored_files) (pg_FindAPIKeyByTokenHash h)"
  "preserves (same stored_files) pg_ListAPIKeys" "preserves (same stored_files) (pg_TouchAPIKey i now)"
  "preserves (same stored_files) (pg_RevokeAPIKey i now)" "preserves (same stored_files) pg_GetUploadSettings"
  "preserves (same stored_files) (pg_SeedUploadSettingsIfMissing st)"
  "preserves (same stored_files) (pg_UpdateUploadSettings st i now)" "preserves (same stored_files) (pg_GetLegalDocument t)"
  "preserves (same stored_files) (pg_SeedLegalDocumentIfMissing d)"
  "preserves (same stored_files) (pg_UpdateLegalDocument t b i now)" "preserves (same stored_files) (pg_Heartbeat i h started now)"
  "preserves (same stored_files) (pg_MarkStaleOffline cutoff now)" "preserves (same stored_files) pg_ListNodeStatus"
  unfolding pg_FindByID_def pgScanFileRecord_def pg_Stats_def pg_InsertAdmin_def pg_FindAdminByUsername_def pg_FindAdminByID_def
    pg_CountAdmins_def pg_TouchAdminLastLogin_def pg_InsertAdminSession_def pg_FindAdminSessionByTokenHash_def
    pg_TouchAdminSession_def pg_DeleteAdminSession_def pg_DeleteExpiredAdminSessions_def
    pg_InsertAPIKey_def pg_FindAPIKeyByTokenHash_def pg_ListAPIKeys_def pg_TouchAPIKey_def pg_RevokeAPIKey_def
    pg_GetUploadSettings_def pg_SeedUploadSettingsIfMissing_def pg_UpdateUploadSettings_def
    pg_GetLegalDocument_def pg_SeedLegalDocumentIfMissing_def pg_UpdateLegalDocument_def
    pg_Heartbeat_def pg_MarkStaleOffline_def pg_ListNodeStatus_def
  by (intro frame; auto simp: statements stored_files_def split: if_splits option.splits list.splits)+

interpretation stored: repository_calls "same stored_files"
  by unfold_locales (rule same_preorder | rule stored_calls | erule data_stored)+

lemma repository_calls_weaken:
  assumes "repository_calls R" and "\<And>w w'. R w w' \<Longrightarrow> S w w'" and "reflp S" and "transp S"
  shows "repository_calls S"
proof -
  have weaken: "preserves S m" if "preserves R m" for m :: "('a pg_scheme, 'r) state"
    using that assms(2) by (auto simp: preserves_def)
  note R = assms(1)
  show ?thesis
    by unfold_locales (rule assms(3,4) | (rule assms(2), erule repository_calls.data [OF R]) |
      (rule weaken, (rule repository_calls.file_calls [OF R] repository_calls.admin_calls [OF R] repository_calls.key_calls [OF R]
        repository_calls.settings_calls [OF R] repository_calls.legal_calls [OF R] repository_calls.node_calls [OF R]; assumption)))+
qed


lemma refines_calls: "repository_calls (refines r2 bkt ttl A)"
  by (rule repository_calls_weaken [OF stored.repository_calls_axioms])
    (auto simp: same_def stored_files_def intro: refines_idle)

section \<open>What a request or a tick can ask for\<close>

fun causes :: "activity \<Rightarrow> event \<Rightarrow> bool" where
  "causes (Serves _ r) (Uploaded env _) \<longleftrightarrow> env_uuid env = env_uuid (upload_context r) \<and> env_now env = env_now (upload_context r)"
| "causes (Serves _ r) (Deleted now fid token) \<longleftrightarrow> now = serve_now r \<and> fid = urlParam (http r) ''id'' \<and> token = extractDeleteToken (http r)"
| "causes (Sweeps _ now) (Swept now') \<longleftrightarrow> now' = now"
| "causes _ _ \<longleftrightarrow> False"

lemma causes_removal:
  assumes "causes a e" and "may_remove e r"
  shows "(\<exists>j q. a = Serves j q \<and> urlParam q ''id'' = file_ID r \<and> serve_now q \<le> file_ExpiresAt r \<and>
      extractDeleteToken (http q) \<noteq> [] \<and> sha256_hex (extractDeleteToken (http q)) = DeleteTokenHash r) \<or>
    (\<exists>j now. a = Sweeps j now \<and> file_ExpiresAt r \<le> now)"
  using assms by (cases a; cases e) (simp_all add: may_remove_def)

definition fresh_env :: "(event \<Rightarrow> bool) \<Rightarrow> upload_env \<Rightarrow> 'a pg_scheme \<Rightarrow> bool" where
  "fresh_env A env w \<longleftrightarrow> (\<forall>input. A (Uploaded env input)) \<and> env_uuid env \<notin> file_ID ` set (files w) \<and>
     length (env_uuid env) = 36 \<and> 0 \<le> Year (env_now env) \<and> Year (env_now env) \<le> 9999"

context running
begin

lemma refining: "server_calls (over (refines r2 bkt (cfg_ttl cfg) A)) (main_dependencies web i) (fresh_env A) (\<lambda>uuid. length uuid = 36)
    (\<lambda>now fid token. A (Deleted now fid token))"
proof (rule over_calls [OF refines_calls])
  note out = outside_services_axioms
  show "refines r2 bkt (cfg_ttl cfg) A w w'"
    if "fresh_env A env w"
      "run_state (Upload (web_unicode web) (main_upload r2 (cfg_ttl cfg) (R2PublicBaseURL cfg)) env input) w = (res, w')"
    for env w input res w'
    using refines_step [OF out system_step.upload [OF that(2)]] that(1) by (simp add: fresh_env_def)
  show "preserves (refines r2 bkt (cfg_ttl cfg) A) (DeleteBeforeTTL (main_files r2 cf (CloudflareCacheEnabled cfg)) now fid token)"
    if "A (Deleted now fid token)" for now fid token
    using refines_step [OF out system_step.delete] that by (blast intro: preservesI)
qed

lemma serve_refines:
  assumes "fresh_request r w" and "serve web i (arriving s r) (in_world w s) = (rec, out, s')"
  shows "refines r2 bkt (cfg_ttl cfg) (causes (Serves j r)) w (outside_world s')"
proof -
  note calls = refining [of "causes (Serves j r)"]
  have "server_calls.fit (\<lambda>uuid. length uuid = 36) (\<lambda>now fid token. causes (Serves j r) (Deleted now fid token)) (arriving s r)"
    "fresh_env (causes (Serves j r)) (upload_context (arriving s r)) (outside_world (in_world w s))"
    unfolding server_calls.fit_def [OF calls]
    using assms(1) by (simp_all add: fresh_env_def arriving_def in_world_def fresh_request_def extractDeleteToken_def)
  from server_calls.request_related [OF calls _ this assms(2) [unfolded serve_def]]
  show ?thesis by (simp add: moves_outside over_def in_world_def)
qed

lemma tick_refines:
  assumes "run_state (tick a i) (in_world w s) = (u, s')"
  shows "refines r2 bkt (cfg_ttl cfg) (causes a) w (outside_world s')"
proof -
  note R = refines_calls [of r2 bkt "cfg_ttl cfg" "causes a"]
  have "preserves (refines r2 bkt (cfg_ttl cfg) (causes (Sweeps j now))) (sweepOnce (inst_sweeper i) now)" for j now
    using refines_step [OF outside_services_axioms system_step.sweep] parts
    by (auto simp: own_parts_def intro!: preservesI)
  then have "preserves (over (refines r2 bkt (cfg_ttl cfg) (causes a))) (tick a i)"
    using parts R unfolding own_parts_def
    by (cases a)
      (auto simp del: SessionJanitor_Run.simps
        intro!: relates over_shared over_rules over_preorder repository_calls.preorder repository_calls.settings_kept
          repository_calls.nodes_kept repository_calls.accounts_kept
        split: prod.split)
  from preservesD [OF this assms] show ?thesis by (simp add: over_def in_world_def)
qed

end

section \<open>The cluster\<close>

context hosting
begin

lemma cluster_step_refines:
  assumes "cluster_step h web a c c'" and "cluster_formed r2 cf cfg c"
  shows "refines r2 bkt (cfg_ttl cfg) (causes a) (common_world c) (common_world c')"
  using assms(1)
proof cases
  case starts
  show ?thesis
    using preservesD [OF repository_calls.start_kept [OF refines_calls] starts(3)] starts(2,4) script script_data by simp
next
  case (stops j)
  then show ?thesis by (simp add: refines_idle)
next
  case (serves j i s r rec out s')
  have "own_parts r2 cf cfg i" using assms(2) nth_mem [OF serves(3)] serves(4) by (auto simp: cluster_formed_def)
  then have run: "running r2 bkt s3_up cf h web cfg i" by (intro running.intro hosting_axioms running_axioms.intro)
  show ?thesis using running.serve_refines [OF run serves(5,6), of j] serves(1,2) by (simp add: after_def)
next
  case (ticks j i s u s')
  have "own_parts r2 cf cfg i" using assms(2) nth_mem [OF ticks(3)] ticks(4) by (auto simp: cluster_formed_def)
  then have run: "running r2 bkt s3_up cf h web cfg i" by (intro running.intro hosting_axioms running_axioms.intro)
  show ?thesis using running.tick_refines [OF run ticks(5)] ticks(1) by (simp add: after_def)
qed

lemma cluster_run_refines:
  "cluster_run h web as c c' \<Longrightarrow> cluster_formed r2 cf cfg c \<Longrightarrow>
    refines r2 bkt (cfg_ttl cfg) (\<lambda>e. \<exists>a \<in> set as. causes a e) (common_world c) (common_world c')"
proof (induction rule: cluster_run.induct)
  case (stop c)
  then show ?case by (simp add: refines_idle)
next
  case (go a c c' as c'')
  note step = cluster_step_refines [OF go.hyps(1) go.prems]
  show ?case
    by (rule refines_trans [OF refines_mono [OF step] refines_mono [OF go.IH]])
      (use cluster_step_formed [OF go.hyps(1) go.prems] in auto)
qed

end

end
