(* ===== verification/Cluster_Properties.thy ===== *)
theory Cluster_Properties
  imports Cluster_Files Admin_Properties Server_Properties Startup_Properties
begin

text \<open>
  The properties of the whole program: several instances of one configuration, from their start on, that
  answer any requests and run their loops on one database and one bucket, whatever fails.
\<close>

section \<open>Example\<close>

definition example_config :: Config where
  "example_config = projr (Load no_num example_environment)"

definition example_r2 :: "world R2Client" where
  "example_r2 = ref_r2\<lparr>bucketName := cfg_R2BucketName example_config\<rparr>"

definition example_web :: "world web" where
  "example_web = \<lparr>web_unicode = (\<lambda>s. s), web_quote = (\<lambda>s. s), web_CompareHash = example_bcrypt, web_zone = 0,
     web_CounterWrite = (\<lambda>c. Inr (Some c)), web_promhttp = handleHealthCheck, web_default = noopHandler,
     web_observe = (\<lambda>_ _. True)\<rparr>"

lemma example_config_sel:
  "Load no_num example_environment = Inr example_config" "CloudflareCacheEnabled example_config = False"
  "cfg_R2AccessKeyID example_config \<noteq> []" "cfg_R2SecretAccessKey example_config \<noteq> []" "FileTTLHours example_config = 24"
  "AdminBootstrapUsername example_config = ''root''" "AdminBootstrapPassword example_config = ''correct horse''"
  using example_Load by (auto simp: example_config_def)

lemma example_client: "NewR2Client (host_sdk example_host) (r2_config example_config) = Inr example_r2"
  by (simp add: example_r2_def r2_config_def NewR2Client_def example_host_def ref_r2_def)

interpretation host: hosting example_r2 s3_buckets "\<lambda>s. s3_faults s = []" None example_host example_web example_config
proof (unfold_locales, goal_cases)
  case (5 w b k body t)
  then show ?case by (simp add: example_r2_def ref_r2_def s3_call_up)
next
  case (6 w b k)
  then show ?case by (simp add: example_r2_def ref_r2_def s3_call_up)
qed (use example_config_sel in \<open>auto simp: example_client example_r2_def ref_r2_def start_purger_def example_web_def
    handleHealthCheck_def noopHandler_def is_script_def elim!: s3_call_cases\<close>)

abbreviation example_uuid :: string where
  "example_uuid \<equiv> ''323e4567-e89b-42d3-a456-426614174000''"

abbreviation example_start_activity :: activity where
  "example_start_activity \<equiv> Starts 0 example_uuid (Inr ''host'') (Inr [CHR 0x2A])"

text \<open>An instance of the example host, as it starts on the empty database.\<close>

lemma empty_formed: "database_formed ttl url empty_world"
  by (simp add: database_formed_def rows_formed_def constraint_defs empty_world_def)

lemma example_member:
  obtains i w where "run_state (start (starting example_host 0 example_uuid (Inr ''host'') (Inr [CHR 0x2A]))) empty_world = (Serving i, w)"
    and "own_parts example_r2 None example_config i" and "member_formed example_config (instance_server i w)"
    and "db_up w" and "admin_sessions w = []" and "schema_ok w"
proof -
  obtain i w where run: "run_state (start (starting example_host 0 example_uuid (Inr ''host'') (Inr [CHR 0x2A]))) empty_world = (Serving i, w)"
      "db_up w" "admin_sessions w = []"
    using example_start_at by blast
  have "database_formed ttl url w" for ttl url
    using preservesD [OF host.own_start_kept run(1)] empty_formed by simp
  then show thesis using that [OF run(1)] run(2,3) host.started [OF run(1)]
    by (simp add: member_formed_def instance_server_def database_formed_def)
qed

definition example_instance :: "world instance" where
  "example_instance = (case run_state (start (starting example_host 0 example_uuid (Inr ''host'') (Inr [CHR 0x2A]))) empty_world of
     (Serving i, _) \<Rightarrow> i)"

interpretation one: running example_r2 s3_buckets "\<lambda>s. s3_faults s = []" None example_host example_web example_config example_instance
proof unfold_locales
  obtain i w where "run_state (start (starting example_host 0 example_uuid (Inr ''host'') (Inr [CHR 0x2A]))) empty_world = (Serving i, w)"
      "own_parts example_r2 None example_config i"
    by (rule example_member)
  then show "own_parts example_r2 None example_config example_instance" by (simp add: example_instance_def)
qed

text \<open>A database and a bucket with one file, as an instance of this configuration stores it.\<close>

definition stored_record :: FileRecord where
  "stored_record = new_record (main_upload example_r2 (cfg_ttl example_config) (R2PublicBaseURL example_config)) example_env example_input
     ''image/png'' example_png (sha256_hex example_png) example_token"

lemma example_stored:
  obtains w :: world where "database_formed (cfg_ttl example_config) (R2PublicBaseURL example_config) w"
    and "integrity (files w) (R2Objects example_r2 s3_buckets w)" and "files w = [stored_record]"
    and "R2Objects example_r2 s3_buckets w (ObjectKey stored_record) = Some (example_png, ''image/png'')"
proof -
  let ?s = "main_upload example_r2 (cfg_ttl example_config) (R2PublicBaseURL example_config)"
  obtain w where run: "run_state (Upload (\<lambda>s. s) ?s example_env example_input) empty_world =
      (Inr \<lparr>Record = stored_record, Duplicate = False, DeleteToken = example_token\<rparr>, w)"
    using host.own.Upload_live [OF _ _ example_prepare, of ?s "replicate 32 (CHR 0x2A)" empty_world]
    by (auto simp: active_with_checksum_def stored_record_def example_token_def)
  have "is_i64 (maxSizeBytes (size_rules example_env))" "length (env_uuid example_env) = 36"
    "is_digest (in_UploaderIPHash example_input)"
    by (simp_all add: example_max is_i64_def example_input_def is_digest_def)
  from preservesD [OF host.uploads_kept [OF this] run]
  have db: "database_formed (cfg_ttl example_config) (R2PublicBaseURL example_config) w" using empty_formed by blast
  have w: "files w = [stored_record]" "R2Objects example_r2 s3_buckets w =
      [env_key example_env example_input \<mapsto> (example_png, ''image/png'')]"
    using run by (auto elim!: host.own.Upload_cases [of _ ?s] simp: example_prepare stored_record_def)
  have "integrity (files w) (R2Objects example_r2 s3_buckets w)"
    by (rule host.own.Upload_integrity [OF run]) (simp_all add: example_year)
  then show thesis using that [OF db] w by (simp add: stored_record_def)
qed

text \<open>A request without the delete token, a sweep at the time of the upload, and a stop.\<close>

definition example_delete :: request where
  "example_delete = (a_request ''DELETE'' ''/api/v1/files/{id}'')\<lparr>fresh_id := example_uuid, urlParam := (\<lambda>_. file_ID stored_record),
     upload_context := example_env\<lparr>env_uuid := example_uuid\<rparr>\<rparr>"

abbreviation example_activities :: "activity list" where
  "example_activities \<equiv> [Serves 0 example_delete, Sweeps 0 example_now, Stops 0]"

lemma example_cluster:
  obtains c c' where "cluster_formed example_r2 None example_config c"
    and "cluster_run example_host example_web example_activities c c'"
    and "integrity (files (common_world c)) (R2Objects example_r2 s3_buckets (common_world c))"
    and "files (common_world c) = [stored_record]"
    and "R2Objects example_r2 s3_buckets (common_world c) (ObjectKey stored_record) = Some (example_png, ''image/png'')"
proof -
  obtain w :: world where w: "database_formed (cfg_ttl example_config) (R2PublicBaseURL example_config) w"
      "integrity (files w) (R2Objects example_r2 s3_buckets w)" "files w = [stored_record]"
      "R2Objects example_r2 s3_buckets w (ObjectKey stored_record) = Some (example_png, ''image/png'')"
    by (rule example_stored)
  obtain i w0 where i: "own_parts example_r2 None example_config i" "member_formed example_config (instance_server i w0)"
    by (rule example_member)
  let ?c = "\<lparr>common_world = w, members = [(i, instance_server i w0)]\<rparr>"
  have fresh: "fresh_request example_delete (common_world ?c)"
    by (simp add: fresh_request_def example_delete_def w(3) stored_record_def example_year)
  obtain rec out s1 where serve: "serve example_web i (arriving (instance_server i w0) example_delete) (in_world w (instance_server i w0)) = (rec, out, s1)"
    by (metis prod_cases3)
  let ?c1 = "after ?c 0 s1"
  have 1: "cluster_step example_host example_web (Serves 0 example_delete) ?c ?c1"
    by (rule cluster_step.serves [OF _ _ fresh]) (use serve in simp_all)
  obtain u s2 where tick: "run_state (tick (Sweeps 0 example_now) i) (in_world (common_world ?c1) s1) = (u, s2)"
    by (metis prod.exhaust)
  have 2: "cluster_step example_host example_web (Sweeps 0 example_now) ?c1 (after ?c1 0 s2)"
    by (rule cluster_step.ticks [OF _ _ _ tick]) (simp_all add: after_def)
  have 3: "\<exists>c'. cluster_step example_host example_web (Stops 0) (after ?c1 0 s2) c'"
    by (rule exI, rule cluster_step.stops) (simp add: after_def)
  then obtain c' where "cluster_step example_host example_web (Stops 0) (after ?c1 0 s2) c'" by (elim exE)
  then have "cluster_run example_host example_web example_activities ?c c'"
    using 1 2 cluster_run.go cluster_run.stop by metis
  then show thesis using that [of ?c c'] w i by (simp add: cluster_formed_def)
qed

section \<open>The form of the data\<close>

text \<open>C6. In every state that instances of one configuration reach together, from their starts on, through any
  requests and turns of their loops and whatever fails, the rows of all tables have the form the code gives
  them and the constraints of the schema hold; and between two requests every instance has a size limit
  that is an \<^verbatim>\<open>int64\<close> and all its upload slots free.\<close>

theorem cluster_well_formed:
  assumes "hosting r2 bkt s3_up cf h web cfg" and "database_formed (cfg_ttl cfg) (R2PublicBaseURL cfg) w"
    and "cluster_run h web as \<lparr>common_world = w, members = []\<rparr> c"
  shows "database_formed (cfg_ttl cfg) (R2PublicBaseURL cfg) (common_world c) \<and>
    list_all (\<lambda>(i, s). inst_config i = cfg \<and> is_i64 (maxSizeBytes (rules s)) \<and>
      concurrencyLimiter (uploads s) = \<lparr>capacity = nat (RateLimitMaxConcurrentUploads cfg), in_use = 0\<rparr>) (members c)"
proof -
  have "cluster_formed r2 cf cfg \<lparr>common_world = w, members = []\<rparr>" using assms(2) by (simp add: cluster_formed_def)
  then have "cluster_formed r2 cf cfg c" by (rule hosting.cluster_run_formed [OF assms(1,3)])
  then show ?thesis by (auto simp: cluster_formed_def member_formed_def own_parts_def list_all_iff)
qed

theorem cluster_well_formed_witness:
  "\<exists>c. cluster_run example_host example_web [example_start_activity, Beats 0 7] \<lparr>common_world = empty_world, members = []\<rparr> c \<and>
    length (members c) = 1 \<and> database_formed (cfg_ttl example_config) (R2PublicBaseURL example_config) (common_world c)"
proof -
  let ?c = "\<lparr>common_world = empty_world, members = []\<rparr>"
  obtain i w where start: "run_state (start (starting example_host 0 example_uuid (Inr ''host'') (Inr [CHR 0x2A]))) empty_world = (Serving i, w)"
    by (rule example_member)
  let ?s = "instance_server i w"
  obtain u s' where tick: "run_state (tick (Beats 0 7) i) (in_world w ?s) = (u, s')" by (metis prod.exhaust)
  have "cluster_step example_host example_web example_start_activity ?c \<lparr>common_world = w, members = [(i, ?s)]\<rparr>"
    using cluster_step.starts [where c = ?c and web = example_web and h = example_host] start by fastforce
  moreover have "cluster_step example_host example_web (Beats 0 7) \<lparr>common_world = w, members = [(i, ?s)]\<rparr>
      (after \<lparr>common_world = w, members = [(i, ?s)]\<rparr> 0 s')"
    by (rule cluster_step.ticks) (use tick in simp_all)
  ultimately have run: "cluster_run example_host example_web [example_start_activity, Beats 0 7] ?c
      (after \<lparr>common_world = w, members = [(i, ?s)]\<rparr> 0 s')"
    by (rule cluster_run.go [OF _ cluster_run.go [OF _ cluster_run.stop]])
  show ?thesis
    using cluster_well_formed [OF host.hosting_axioms empty_formed run] run by (auto simp: after_def)
qed

section \<open>The files\<close>

lemma cluster_run_refined:
  assumes "hosting r2 bkt s3_up cf h web cfg" and "cluster_formed r2 cf cfg c" and "cluster_run h web as c c'"
    and "integrity (files (common_world c)) (R2Objects r2 bkt (common_world c))"
  shows "integrity (files (common_world c')) (R2Objects r2 bkt (common_world c')) \<and>
    (\<exists>es. store_run (cfg_ttl cfg) es (own_store r2 bkt (common_world c)) (own_store r2 bkt (common_world c')) \<and>
      list_all (\<lambda>e. \<exists>a \<in> set as. causes a e) es)"
  using hosting.cluster_run_refines [OF assms(1,3,2)] assms(4) by (auto simp: refines_def)

text \<open>C5. Through the whole of the program, its routes and its loops, the database and the bucket refine one
  table of files: whatever instances are asked and whatever fails, all that happens to the table is the
  addition of the files uploaded, the removal of those whose id and delete token a request carried, and
  the expiry of others in a sweep.\<close>

theorem cluster_refines:
  assumes "hosting r2 bkt s3_up cf h web cfg" and "cluster_formed r2 cf cfg c" and "cluster_run h web as c c'"
    and "integrity (files (common_world c)) (R2Objects r2 bkt (common_world c))"
  shows "integrity (files (common_world c')) (R2Objects r2 bkt (common_world c')) \<and>
    (\<exists>es. store_run (cfg_ttl cfg) es (own_store r2 bkt (common_world c)) (own_store r2 bkt (common_world c')) \<and>
      list_all (\<lambda>e. \<exists>a \<in> set as. causes a e) es)"
  using cluster_run_refined [OF assms] .

theorem cluster_refines_witness:
  "\<exists>c c'. cluster_run example_host example_web example_activities c c' \<and> files (common_world c) \<noteq> [] \<and>
    (\<exists>es. store_run (cfg_ttl example_config) es (own_store example_r2 s3_buckets (common_world c))
      (own_store example_r2 s3_buckets (common_world c')))"
proof -
  obtain c c' where c: "cluster_formed example_r2 None example_config c" "cluster_run example_host example_web example_activities c c'"
      "integrity (files (common_world c)) (R2Objects example_r2 s3_buckets (common_world c))" "files (common_world c) = [stored_record]"
    by (rule example_cluster)
  obtain es where "store_run (cfg_ttl example_config) es (own_store example_r2 s3_buckets (common_world c))
      (own_store example_r2 s3_buckets (common_world c'))"
    using cluster_refines [OF host.hosting_axioms c(1-3)] by (elim conjE exE)
  then show ?thesis using c(2,4) by (intro exI conjI) (assumption | simp)+
qed

text \<open>C4. A stored file keeps its record and its content through every request to every instance and through
  the loops, starts and stops of all, whatever fails, until a request carries its id and its delete token
  before its expiry, or a sweep comes after it.\<close>

theorem cluster_keeps_file:
  assumes "hosting r2 bkt s3_up cf h web cfg" and "cluster_formed r2 cf cfg c" and "cluster_run h web as c c'"
    and "integrity (files (common_world c)) (R2Objects r2 bkt (common_world c))"
    and "r \<in> set (files (common_world c))" and "R2Objects r2 bkt (common_world c) (ObjectKey r) = obj"
    and "\<And>j q. Serves j q \<in> set as \<Longrightarrow> urlParam q ''id'' = file_ID r \<Longrightarrow> serve_now q \<le> file_ExpiresAt r \<Longrightarrow>
      extractDeleteToken (http q) \<noteq> [] \<Longrightarrow> sha256_hex (extractDeleteToken (http q)) \<noteq> DeleteTokenHash r"
    and "\<And>j now. Sweeps j now \<in> set as \<Longrightarrow> now < file_ExpiresAt r"
  shows "r \<in> set (files (common_world c')) \<and> R2Objects r2 bkt (common_world c') (ObjectKey r) = obj"
proof -
  have stored: "own_store r2 bkt (common_world c) (file_ID r) = Some (r, obj)"
    unfolding store_of_Some [OF integrity_distinct [OF assms(4)]] using assms(5,6) by simp
  obtain es where run: "store_run (cfg_ttl cfg) es (own_store r2 bkt (common_world c)) (own_store r2 bkt (common_world c'))"
    and es: "list_all (\<lambda>e. \<exists>a \<in> set as. causes a e) es"
    and int: "integrity (files (common_world c')) (R2Objects r2 bkt (common_world c'))"
    using cluster_run_refined [OF assms(1-4)] by blast
  have "\<not> may_remove e r" if a: "a \<in> set as" "causes a e" for a e
  proof
    assume "may_remove e r"
    from causes_removal [OF a(2) this] show False
    proof (elim disjE exE conjE)
      fix j q
      assume "a = Serves j q" "urlParam q ''id'' = file_ID r" "serve_now q \<le> file_ExpiresAt r"
        "extractDeleteToken (http q) \<noteq> []" "sha256_hex (extractDeleteToken (http q)) = DeleteTokenHash r"
      then show False using assms(7) [of j q] a(1) by simp
    next
      fix j now
      assume "a = Sweeps j now" "file_ExpiresAt r \<le> now"
      then show False using assms(8) [of j now] a(1) by simp
    qed
  qed
  then have "\<forall>e \<in> set es. \<not> may_remove e r" using es unfolding list_all_iff by blast
  then have "own_store r2 bkt (common_world c') (file_ID r) = Some (r, obj)"
    by (rule store_run_keeps [OF run stored refl])
  then show ?thesis unfolding store_of_Some [OF integrity_distinct [OF int]] by simp
qed

theorem cluster_keeps_file_witness:
  "\<exists>c c'. cluster_run example_host example_web example_activities c c' \<and> stored_record \<in> set (files (common_world c')) \<and>
    R2Objects example_r2 s3_buckets (common_world c') (ObjectKey stored_record) = Some (example_png, ''image/png'')"
proof -
  obtain c c' where c: "cluster_formed example_r2 None example_config c" "cluster_run example_host example_web example_activities c c'"
      "integrity (files (common_world c)) (R2Objects example_r2 s3_buckets (common_world c))" "files (common_world c) = [stored_record]"
      "R2Objects example_r2 s3_buckets (common_world c) (ObjectKey stored_record) = Some (example_png, ''image/png'')"
    by (rule example_cluster)
  have "stored_record \<in> set (files (common_world c'))
    \<and> R2Objects example_r2 s3_buckets (common_world c') (ObjectKey stored_record) = Some (example_png, ''image/png'')"
  proof (rule cluster_keeps_file [OF host.hosting_axioms c(1-3) _ c(5)])
    have "extractDeleteToken (http example_delete) = []"
      by (simp add: extractDeleteToken_def example_delete_def a_request_def)
    then show "sha256_hex (extractDeleteToken (http q)) \<noteq> DeleteTokenHash stored_record"
      if "Serves j q \<in> set example_activities" "extractDeleteToken (http q) \<noteq> []" for j q using that by simp
    show "now < file_ExpiresAt stored_record" if "Sweeps j now \<in> set example_activities" for j now
      using that by (simp add: stored_record_def example_config_sel interval_def i64_def Hour_def Minute_def Second_def)
  qed (simp add: c(4))
  then show ?thesis using c(2) by (intro exI conjI) auto
qed

end
