(* ===== verification/Http_Properties.thy ===== *)
theory Http_Properties
  imports Cluster_Properties Handler_Properties
begin

text \<open>
  What a client meets who talks HTTP to an instance while everything answers: from the first start to the
  first login, and from the upload of a file through its record to its deletion.
\<close>

section \<open>Requests that reach their handler\<close>

lemma file_routes_at:
  "root_routes d (''POST'', ''/api/v1/upload'') = Some (CORS (dep_AllowedOrigin d) ''POST, OPTIONS'' (serve_upload d))"
  "root_routes d (''GET'', ''/api/v1/files/{id}'') = Some (CORS ''*'' ''GET, OPTIONS''
     (answering (\<lambda>r. shared (Handler_GetInfo (dep_FileService d) (dep_zone d) (serve_now r) (http r)))))"
  "root_routes d (''DELETE'', ''/api/v1/files/{id}'') = Some (CORS (dep_AllowedOrigin d) ''DELETE, OPTIONS''
     (answering (\<lambda>r. shared (Handler_Delete (dep_FileService d) (serve_now r) (http r)))))"
  using root_lookup_api [of d "''POST''" "''/upload''"] root_lookup_api [of d "''GET''" "''/files/{id}''"]
    root_lookup_api [of d "''DELETE''" "''/files/{id}''"]
  by (simp_all add: api_routes_def file_routes_def public_table_def route_snd Let_def split_def entry_handler_def
      chain_middleware_def chi_Route_def chi_Method_def map_add_def HasPrefix_def)

lemma admin_login_route:
  "root_routes d (''POST'', ''/api/v1/admin/login'') = Some (CORS (dep_AllowedOrigin d) ''POST, OPTIONS''
     (answering (\<lambda>r. shared (Handler_Login (dep_bcrypt d) (dep_AdminService d) (serve_now r) (fresh_bytes r) (login_body r)))))"
  "root_routes d (''GET'', ''/api/v1/admin/me'') = Some (CORS (dep_AllowedOrigin d) ''GET, OPTIONS''
     (RequireAdminSession (dep_AdminService d) (answering (\<lambda>r. State_Monad.return (Me (session_context r))))))"
  using root_lookup_admin [of "''/login''" d "''POST''"] root_lookup_admin [of "''/me''" d "''GET''"]
  by (simp_all add: admin_routes_def admin_table_def route_snd Let_def entry_handler_def chain_middleware_def)

abbreviation cors_recorder :: "string \<Rightarrow> string \<Rightarrow> responseRecorder" where
  "cors_recorder origin methods \<equiv> fresh_recorder\<lparr>header_map := cors_headers origin methods Map.empty\<rparr>"

lemma serve_routed:
  assumes route: "root_routes (main_dependencies web i) (Method r, Pattern r) = Some (CORS origin methods h)"
    and run: "h r (cors_recorder origin methods) s = (send resp (cors_recorder origin methods), Returned, s')"
    and "Method r \<noteq> ''OPTIONS''"
  obtains rec' l where "serve web i r s = (rec', Returned, s'\<lparr>access_log := l\<rparr>)" and "statusCode rec' = code resp"
    and "written rec' = (case resp_json resp of None \<Rightarrow> [] | Some b \<Rightarrow> [b])"
proof -
  let ?rec = "cors_recorder origin methods"
  have rec: "\<not> wroteHeader ?rec" "written ?rec = []" "header_map fresh_recorder = Map.empty" by (simp_all add: fresh_recorder_def)
  have "CORS origin methods h r fresh_recorder s = (send resp ?rec, Returned, s')"
    using run assms(3) by (simp add: CORS_fresh Let_def rec(3))
  from NewRouter_route [OF route this] send_code [OF rec(1)]
  have "serve web i r s = (send resp ?rec, Returned, s'\<lparr>access_log := access_log s' @ [(Method r, Path r, code resp)]\<rparr>)"
    by (simp add: serve_def)
  then show thesis using that send_code [OF rec(1), of resp] rec(2) by (simp add: send_written)
qed

section \<open>The first login\<close>

text \<open>C28. Whoever starts the first instance on an empty database can log in over HTTP with the configured name
  and password, provided \<^verbatim>\<open>bcrypt\<close> accepts what it hashed and the name has no surrounding space: while the
  database answers, the login returns a token, and the token is accepted as that account for 24 hours.\<close>

theorem first_login:
  assumes start: "run_state (start h) w = (Serving i, w')" and "admins w = []"
    and script: "\<And>c. is_script (host_script h c)" "\<And>c w w'. host_script h c w = Inr ((), w') \<Longrightarrow> table_data w' = table_data w"
    and up: "db_up w'" "schema_ok w'"
    and bcrypt: "\<And>p hashed. host_bcrypt h p = Inr hashed \<Longrightarrow> web_CompareHash web hashed p = None"
    and user: "user = AdminBootstrapUsername (inst_config i)" "TrimSpace user = user"
    and r: "Method r = ''POST''" "Pattern r = ''/api/v1/admin/login''" "fresh_bytes r = Inr buf" "buf \<noteq> []"
      "login_body r = Some \<lparr>body_Username = user, body_Password = AdminBootstrapPassword (inst_config i)\<rparr>"
    and new: "sha256_hex (EncodeToString buf) \<notin> session_TokenHash ` set (admin_sessions w')"
    and q: "Method q = ''GET''" "Pattern q = ''/api/v1/admin/me''" "header q ''Authorization'' = ''Bearer '' @ EncodeToString buf"
      "auth_now q \<le> serve_now r + 24 * Hour"
  shows "\<exists>rec s1 rec' s2. serve web i r (instance_server i w') = (rec, Returned, s1) \<and> statusCode rec = 200 \<and>
    written rec = [JObject [(''token'', JString (EncodeToString buf)), (''username'', JString user),
      (''expires_at'', JString (Format 0 (serve_now r + 24 * Hour)))]] \<and>
    serve web i q s1 = (rec', Returned, s2) \<and> statusCode rec' = 200 \<and> written rec' = [JObject [(''username'', JString user)]]"
proof -
  let ?d = "main_dependencies web i" and ?s = "instance_server i w'" and ?token = "EncodeToString buf"
  let ?login = "\<lambda>r. shared (Handler_Login (dep_bcrypt ?d) (dep_AdminService ?d) (serve_now r) (fresh_bytes r) (login_body r))"
    and ?me = "RequireAdminSession (dep_AdminService ?d) (answering (\<lambda>r. State_Monad.return (Me (session_context r))))"
  have route: "root_routes ?d (Method r, Pattern r) = Some (CORS (dep_AllowedOrigin ?d) ''POST, OPTIONS'' (answering ?login))"
    "root_routes ?d (Method q, Pattern q) = Some (CORS (dep_AllowedOrigin ?d) ''GET, OPTIONS'' ?me)"
    unfolding r(1,2) q(1,2) by (rule admin_login_route)+
  have d: "dep_bcrypt ?d = web_CompareHash web" "admin_accounts (dep_AdminService ?d) = PostgresAdmins"
    by (simp_all add: main_dependencies_def main_admin_def admin_NewService_def)
  obtain hashed where a: "host_bcrypt h (AdminBootstrapPassword (inst_config i)) = Inr hashed"
      "admins w' = [bootstrap_admin (host_uuid h) user hashed (host_now h)]"
      "user \<noteq> []" "AdminBootstrapPassword (inst_config i) \<noteq> []"
    by (rule start_bootstraps [OF start assms(2) script(1)]) (use script(2) user(1) in auto)
  let ?a = "bootstrap_admin (host_uuid h) user hashed (host_now h)"
  have acc: "?a \<in> set (admins w')" "Username ?a = TrimSpace user" "TrimSpace user \<noteq> []"
      "web_CompareHash web (PasswordHash ?a) (AdminBootstrapPassword (inst_config i)) = None"
    using a(2,3) user(2) bcrypt [OF a(1)] by (simp_all add: bootstrap_admin_def)
  obtain w1 where l: "run_state (Login (web_CompareHash web) PostgresAdmins (serve_now r) (Inr buf) user (AdminBootstrapPassword (inst_config i))) w' =
        (Inr \<lparr>login_Token = ?token, login_Admin = ?a, login_Session = new_session ?token (admin_ID ?a) (serve_now r)\<rparr>, w1)"
    and v: "\<forall>t \<le> serve_now r + 24 * Hour. \<exists>a' w2. run_state (VerifySession PostgresAdmins t ?token) w1 =
        (Inr \<lparr>sess_Admin = a', sess_Session = new_session ?token (admin_ID ?a) (serve_now r)\<rparr>, w2) \<and>
        admin_ID a' = admin_ID ?a \<and> Username a' = Username ?a"
    by (rule login_session [of w' ?a user _ "web_CompareHash web" buf "serve_now r", OF up acc(1-3) a(4) acc(4) r(4) new])
  obtain a' w2 where v: "run_state (VerifySession PostgresAdmins (auth_now q) ?token) w1 =
        (Inr \<lparr>sess_Admin = a', sess_Session = new_session ?token (admin_ID ?a) (serve_now r)\<rparr>, w2)" "Username a' = user"
    using v q(4) by (auto simp: bootstrap_admin_def)
  have "answering ?login r (cors_recorder (dep_AllowedOrigin ?d) ''POST, OPTIONS'') ?s = (send (response_JSON 200 (Some (JObject [(''token'', JString ?token),
      (''username'', JString user), (''expires_at'', JString (Format 0 (serve_now r + 24 * Hour)))]))) (cors_recorder (dep_AllowedOrigin ?d) ''POST, OPTIONS''),
      Returned, ?s\<lparr>outside_world := w1\<rparr>)"
    using l r(3,5) d by (simp add: answering_def Handler_Login_def instance_server_def sessionTTL_def new_session_def bootstrap_admin_def)
  from serve_routed [OF route(1) this] obtain rec1 lg1 where s1: "serve web i r ?s = (rec1, Returned, ?s\<lparr>outside_world := w1, access_log := lg1\<rparr>)"
      "statusCode rec1 = 200" "written rec1 = [JObject [(''token'', JString ?token), (''username'', JString user),
        (''expires_at'', JString (Format 0 (serve_now r + 24 * Hour)))]]"
    using r(1) by (auto simp: response_JSON_def)
  let ?s1 = "?s\<lparr>outside_world := w1, access_log := lg1\<rparr>"
  have "extractBearerToken (http q) = ?token" using q(3) r(4) by (simp add: extractBearerToken_def)
  then have "?me q (cors_recorder (dep_AllowedOrigin ?d) ''GET, OPTIONS'') ?s1 = (send (response_JSON 200 (Some (JObject [(''username'', JString user)])))
      (cors_recorder (dep_AllowedOrigin ?d) ''GET, OPTIONS''), Returned, ?s1\<lparr>outside_world := w2\<rparr>)"
    using v d by (simp add: RequireAdminSession_def answering_def Me_def)
  from serve_routed [OF route(2) this] obtain rec2 lg2 where "serve web i q ?s1 = (rec2, Returned, ?s1\<lparr>outside_world := w2, access_log := lg2\<rparr>)"
      "statusCode rec2 = 200" "written rec2 = [JObject [(''username'', JString user)]]"
    using q(1) by (auto simp: response_JSON_def)
  with s1 show ?thesis by blast
qed

abbreviation example_login :: request where
  "example_login \<equiv> (a_request ''POST'' ''/api/v1/admin/login'')\<lparr>fresh_bytes := Inr [CHR 0x2A],
     login_body := Some \<lparr>body_Username = ''root'', body_Password = ''correct horse''\<rparr>\<rparr>"

abbreviation example_me :: request where
  "example_me \<equiv> (a_request ''GET'' ''/api/v1/admin/me'')\<lparr>header := (\<lambda>_. ''Bearer '' @ EncodeToString [CHR 0x2A])\<rparr>"

theorem first_login_witness:
  "\<exists>i w rec s1 rec' s2. run_state (start (starting example_host 0 example_uuid (Inr ''host'') (Inr [CHR 0x2A]))) empty_world = (Serving i, w) \<and>
    serve example_web i example_login (instance_server i w) = (rec, Returned, s1) \<and> statusCode rec = 200 \<and>
    serve example_web i example_me s1 = (rec', Returned, s2) \<and> statusCode rec' = 200"
proof -
  obtain i w where w: "run_state (start (starting example_host 0 example_uuid (Inr ''host'') (Inr [CHR 0x2A]))) empty_world = (Serving i, w)"
      "own_parts example_r2 None example_config i" "db_up w" "admin_sessions w = []" "schema_ok w"
    by (rule example_member)
  then have cfg: "inst_config i = example_config" by (simp add: own_parts_def)
  have "\<exists>rec s1 rec' s2. serve example_web i example_login (instance_server i w) = (rec, Returned, s1) \<and> statusCode rec = 200 \<and>
    written rec = [JObject [(''token'', JString (EncodeToString [CHR 0x2A])), (''username'', JString ''root''),
      (''expires_at'', JString (Format 0 (serve_now example_login + 24 * Hour)))]] \<and>
    serve example_web i example_me s1 = (rec', Returned, s2) \<and> statusCode rec' = 200 \<and> written rec' = [JObject [(''username'', JString ''root'')]]"
    by (rule first_login [OF w(1) _ _ _ w(3,5)])
      (simp_all add: cfg example_config_sel w(4) is_script_def example_web_def example_bcrypt_def a_request_def,
        simp_all add: empty_world_def Hour_def Minute_def Second_def)
  then show ?thesis using w(1) by blast
qed

section \<open>The life of a file\<close>

lemma info_found:
  assumes "db_faults w = []" and "x \<in> set (files w)" and "distinct (map file_ID (files w))" and "now \<le> file_ExpiresAt x"
    and "urlParam r ''id'' = file_ID x"
  shows "run_state (Handler_GetInfo (main_files r2 cf on) zone now r) w =
    (response_JSON 200 (Some (infoResponseBody zone \<lparr>info_Record = x, info_Expired = False\<rparr>)), w)"
proof -
  have "filter (\<lambda>y. file_ID y = file_ID x) (files w) = [x]" using filter_key_single [OF assms(3,2)] .
  then show ?thesis
    using assms(1,4,5) by (simp add: Handler_GetInfo_def GetInfo_def pg_FindByID_def run_pgScan_up file_IsExpired_def)
qed

context running
begin

lemma dependency_settings [simp]: "dep_zone (main_dependencies web i) = web_zone web"
  "dep_ipHashSalt (main_dependencies web i) = IPHashSalt (inst_config i)"
  by (simp_all add: main_dependencies_def)

lemma post_upload:
  assumes "Method p = ''POST''" and "Pattern p = ''/api/v1/upload''"
    and "in_use (concurrencyLimiter (uploads s)) < capacity (concurrencyLimiter (uploads s))"
    and form: "upload_form p (i64 (maxSizeBytes (rules s) + 2 ^ 20)) = FormFile name n body"
    and run: "run_state (Upload (web_unicode web) (main_upload r2 (cfg_ttl cfg) (R2PublicBaseURL cfg)) (upload_context p)
      \<lparr>in_OriginalName = name, in_SizeBytes = n, in_Content = body,
        in_UploaderIPHash = hashIP (extractClientIP (http p)) (IPHashSalt (inst_config i))\<rparr>) (outside_world s) = (Inr res, w')"
  obtains rec h' l where "serve web i p s = (rec, Returned, s\<lparr>uploads := h', outside_world := w', access_log := l\<rparr>)"
    and "statusCode rec = 200" and "written rec = [toUploadResponseBody (web_zone web) res]"
proof -
  let ?d = "main_dependencies web i" and ?body = "toUploadResponseBody (web_zone web) res"
  note route = file_routes_at(1) [of ?d, folded assms(1,2)]
  obtain h' where "Upload_ServeHTTP (dep_unicode ?d) (dep_UploadService ?d) (rules s) (upload_context p) (dep_zone ?d) (dep_ipHashSalt ?d)
      (upload_form p) (http p) (uploads s) (outside_world s) = Some (response_JSON 200 (Some ?body), h', w')"
  proof (rule Upload_ServeHTTP_cases [of "uploads s" "dep_unicode ?d" "dep_UploadService ?d" "rules s" "upload_context p" "dep_zone ?d"
      "dep_ipHashSalt ?d" "upload_form p" "http p" "outside_world s"])
    fix l resp h1 w1
    assume "serve_admitted (dep_unicode ?d) (dep_UploadService ?d) (rules s) (upload_context p) (dep_zone ?d)
        (hashIP (extractClientIP (http p)) (dep_ipHashSalt ?d)) (upload_form p) ((uploads s)\<lparr>concurrencyLimiter := l\<rparr>) (outside_world s) =
        (resp, h1, w1)"
      and eq: "Upload_ServeHTTP (dep_unicode ?d) (dep_UploadService ?d) (rules s) (upload_context p) (dep_zone ?d) (dep_ipHashSalt ?d)
        (upload_form p) (http p) (uploads s) (outside_world s) = Some (resp, h1\<lparr>concurrencyLimiter := concurrencyLimiter (uploads s)\<rparr>, w1)"
    then have "resp = response_JSON 200 (Some ?body) \<and> w1 = w'"
      using run form by (auto simp: serve_admitted_def)
    then show thesis using that eq by simp
  qed (use assms(3) in simp)
  then have "serve_upload ?d p (cors_recorder (dep_AllowedOrigin ?d) ''POST, OPTIONS'') s =
      (send (response_JSON 200 (Some ?body)) (cors_recorder (dep_AllowedOrigin ?d) ''POST, OPTIONS''), Returned,
        s\<lparr>uploads := h', outside_world := w'\<rparr>)"
    by (simp add: serve_upload_def)
  then show thesis
    by (rule serve_routed [OF route]) (use assms(1) that in \<open>auto simp: response_JSON_def\<close>)
qed

lemma get_info:
  assumes "Method g = ''GET''" and "Pattern g = ''/api/v1/files/{id}''" and "urlParam g ''id'' = file_ID x"
    and "db_faults (outside_world s) = []" and "x \<in> set (files (outside_world s))"
    and "distinct (map file_ID (files (outside_world s)))" and "serve_now g \<le> file_ExpiresAt x"
  obtains rec l where "serve web i g s = (rec, Returned, s\<lparr>access_log := l\<rparr>)" and "statusCode rec = 200"
    and "written rec = [infoResponseBody (web_zone web) \<lparr>info_Record = x, info_Expired = False\<rparr>]"
proof -
  let ?d = "main_dependencies web i" and ?info = "infoResponseBody (web_zone web) \<lparr>info_Record = x, info_Expired = False\<rparr>"
  note route = file_routes_at(2) [of ?d, folded assms(1,2)]
  have "run_state (Handler_GetInfo (main_files r2 cf (CloudflareCacheEnabled cfg)) (web_zone web) (serve_now g) (http g)) (outside_world s) =
      (response_JSON 200 (Some ?info), outside_world s)"
    by (rule info_found) (use assms in simp_all)
  then have "answering (\<lambda>r. shared (Handler_GetInfo (dep_FileService ?d) (dep_zone ?d) (serve_now r) (http r))) g (cors_recorder ''*'' ''GET, OPTIONS'') s =
      (send (response_JSON 200 (Some ?info)) (cors_recorder ''*'' ''GET, OPTIONS''), Returned, s)"
    by (simp add: answering_def)
  then show thesis
    by (rule serve_routed [OF route]) (use assms(1) that in \<open>auto simp: response_JSON_def\<close>)
qed

lemma send_delete:
  assumes "Method d = ''DELETE''" and "Pattern d = ''/api/v1/files/{id}''"
    and run: "run_state (DeleteBeforeTTL (main_files r2 cf (CloudflareCacheEnabled cfg)) (serve_now d) (urlParam d ''id'')
      (extractDeleteToken (http d))) (outside_world s) = (Inr (), w')"
  obtains rec l where "serve web i d s = (rec, Returned, s\<lparr>outside_world := w', access_log := l\<rparr>)" and "statusCode rec = 200"
proof -
  let ?d = "main_dependencies web i" and ?resp = "response_JSON 200 (Some (JObject [(''deleted'', JBool True)]))"
  note route = file_routes_at(3) [of ?d, folded assms(1,2)]
  have "answering (\<lambda>r. shared (Handler_Delete (dep_FileService ?d) (serve_now r) (http r))) d
      (cors_recorder (dep_AllowedOrigin ?d) ''DELETE, OPTIONS'') s =
      (send ?resp (cors_recorder (dep_AllowedOrigin ?d) ''DELETE, OPTIONS''), Returned, s\<lparr>outside_world := w'\<rparr>)"
    using run by (simp add: answering_def Handler_Delete_def)
  then show thesis
    by (rule serve_routed [OF route]) (use assms(1) that in \<open>auto simp: response_JSON_def\<close>)
qed

end

text \<open>C20. A file's life over HTTP, while everything answers and a slot is free: the upload of a new file that
  meets the rules is answered with its record and a delete token; until its expiry its id is answered with
  that record, and the content is in the bucket; and the token, sent as a header, deletes it, after which
  records and objects are as before.\<close>

theorem http_file_life:
  assumes run: "running r2 bkt s3_up cf h web cfg i"
    and up: "pg_up (outside_world s)" "s3_up (pg.more (outside_world s))" "distinct (map file_ID (files (outside_world s)))"
    and slot: "in_use (concurrencyLimiter (uploads s)) < capacity (concurrencyLimiter (uploads s))"
    and post: "Method p = ''POST''" "Pattern p = ''/api/v1/upload''"
      "upload_form p (i64 (maxSizeBytes (rules s) + 2 ^ 20)) = FormFile name n body"
    and input: "input = \<lparr>in_OriginalName = name, in_SizeBytes = n, in_Content = body,
      in_UploaderIPHash = hashIP (extractClientIP (http p)) (IPHashSalt (inst_config i))\<rparr>"
    and prep: "upload_prepare (web_unicode web) (upload_context p) input = Inr (ct, content (in_Content input), chk)"
    and env: "temp_seek (upload_context p) = None" "env_rand (upload_context p) = Inr buf" "buf \<noteq> []"
    and new: "active_with_checksum chk (env_now (upload_context p)) (files (outside_world s)) = []"
      "env_uuid (upload_context p) \<notin> file_ID ` set (files (outside_world s))"
    and get: "Method g = ''GET''" "Pattern g = ''/api/v1/files/{id}''" "urlParam g ''id'' = env_uuid (upload_context p)"
      "serve_now g \<le> env_now (upload_context p) + cfg_ttl cfg"
    and del: "Method d = ''DELETE''" "Pattern d = ''/api/v1/files/{id}''" "urlParam d ''id'' = env_uuid (upload_context p)"
      "header d ''X-Delete-Token'' = EncodeToString buf" "serve_now d \<le> env_now (upload_context p) + cfg_ttl cfg"
    and r: "r = new_record (main_upload r2 (cfg_ttl cfg) (R2PublicBaseURL cfg)) (upload_context p) input ct
      (content (in_Content input)) chk (EncodeToString buf)"
  shows "\<exists>rec1 s1 rec2 s2 rec3 s3.
    serve web i p s = (rec1, Returned, s1) \<and> statusCode rec1 = 200 \<and>
    written rec1 = [toUploadResponseBody (web_zone web) \<lparr>Record = r, Duplicate = False, DeleteToken = EncodeToString buf\<rparr>] \<and>
    serve web i g s1 = (rec2, Returned, s2) \<and> statusCode rec2 = 200 \<and>
    written rec2 = [infoResponseBody (web_zone web) \<lparr>info_Record = r, info_Expired = False\<rparr>] \<and>
    R2Objects r2 bkt (outside_world s2) (ObjectKey r) = Some (content (in_Content input), ct) \<and>
    serve web i d s2 = (rec3, Returned, s3) \<and> statusCode rec3 = 200 \<and>
    files (outside_world s3) = files (outside_world s) \<and>
    R2Objects r2 bkt (outside_world s3) = (R2Objects r2 bkt (outside_world s))(ObjectKey r := None)"
proof -
  let ?w = "outside_world s" and ?s = "main_upload r2 (cfg_ttl cfg) (R2PublicBaseURL cfg)" and ?tok = "EncodeToString buf"
  have out: "outside_services r2 bkt s3_up cf" by (rule hosting.axioms(1) [OF running.axioms(1) [OF run]])
  note backend = outside_services.backend [OF out]
  obtain w1 where u: "run_state (Upload (web_unicode web) ?s (upload_context p) input) ?w =
      (Inr \<lparr>Record = r, Duplicate = False, DeleteToken = ?tok\<rparr>, w1)" "pg_up w1" "s3_up (pg.more w1)"
    using file_backend.Upload_live [OF backend upload_NewService_sel(1,2) prep env(1,2) new up(1,2)] r by auto
  have rec: "file_ID r = env_uuid (upload_context p)" "file_ExpiresAt r = env_now (upload_context p) + cfg_ttl cfg"
      "DeleteTokenHash r = sha256_hex ?tok"
    using r by simp_all
  have w1: "files w1 = files ?w @ [r] \<and>
      R2Objects r2 bkt w1 = (R2Objects r2 bkt ?w)(ObjectKey r \<mapsto> (content (in_Content input), ct))"
    using out u(1) upload_NewService_sel(1,2)
  proof (cases rule: upload_cases)
    case (stored ct' body' chk' buf' r')
    then show ?thesis using prep by simp
  qed simp_all
  have ids: "distinct (map file_ID (files w1))" using up(3) new(2) w1 rec(1) by simp
  obtain rec1 h1 l1 where 1: "serve web i p s = (rec1, Returned, s\<lparr>uploads := h1, outside_world := w1, access_log := l1\<rparr>)"
      "statusCode rec1 = 200" "written rec1 = [toUploadResponseBody (web_zone web) \<lparr>Record = r, Duplicate = False, DeleteToken = ?tok\<rparr>]"
    by (rule running.post_upload [OF run post(1,2) slot post(3) u(1) [unfolded input]])
  let ?s1 = "s\<lparr>uploads := h1, outside_world := w1, access_log := l1\<rparr>"
  obtain rec2 l2 where 2: "serve web i g ?s1 = (rec2, Returned, ?s1\<lparr>access_log := l2\<rparr>)" "statusCode rec2 = 200"
      "written rec2 = [infoResponseBody (web_zone web) \<lparr>info_Record = r, info_Expired = False\<rparr>]"
    by (rule running.get_info [OF run get(1,2), of r ?s1]) (use get u(2) w1 ids rec in \<open>simp_all add: pg_up_def\<close>)
  obtain w2 where w2: "run_state (DeleteBeforeTTL (main_files r2 cf (CloudflareCacheEnabled cfg)) (serve_now d) (file_ID r) ?tok) w1 = (Inr (), w2)"
      "files w2 = delete_rows (file_ID r) (files w1)" "R2Objects r2 bkt w2 = (R2Objects r2 bkt w1)(ObjectKey r := None)"
    using file_backend.DeleteBeforeTTL_up [OF backend file_NewService_sel(1-3) u(2,3), of r ?tok "serve_now d" "CloudflareCacheEnabled cfg"]
      w1 ids rec(2,3) del(5) env(3) by (auto simp: token_matches_iff file_IsExpired_def)
  have "extractDeleteToken (http d) = ?tok" using del(4) env(3) by (simp add: extractDeleteToken_def)
  then obtain rec3 l3 where 3: "serve web i d (?s1\<lparr>access_log := l2\<rparr>) = (rec3, Returned, (?s1\<lparr>access_log := l2\<rparr>)\<lparr>outside_world := w2, access_log := l3\<rparr>)"
      "statusCode rec3 = 200"
    using running.send_delete [OF run del(1,2), of "?s1\<lparr>access_log := l2\<rparr>" w2] w2(1) del(3) rec(1) by auto
  have "files w2 = files ?w" using w2(2) w1 delete_rows_id [of "file_ID r" "files ?w"] new(2) rec(1) by (simp add: delete_rows_def)
  moreover have "R2Objects r2 bkt w2 = (R2Objects r2 bkt ?w)(ObjectKey r := None)" using w2(3) w1 by simp
  ultimately show ?thesis using 1 2 3 w1 by (intro exI conjI) (assumption | simp)+
qed

lemma upload_prepare_hash: "upload_prepare uni env (input\<lparr>in_UploaderIPHash := h\<rparr>) = upload_prepare uni env input"
  by (simp add: upload_prepare_def upload_spool_def cong: option.case_cong sum.case_cong prod.case_cong if_cong)

abbreviation example_post :: request where
  "example_post \<equiv> (a_request ''POST'' ''/api/v1/upload'')\<lparr>upload_form := (\<lambda>_. FormFile (in_OriginalName example_input)
     (in_SizeBytes example_input) (in_Content example_input))\<rparr>"

abbreviation example_get :: request where
  "example_get \<equiv> (a_request ''GET'' ''/api/v1/files/{id}'')\<lparr>urlParam := (\<lambda>_. env_uuid example_env), serve_now := example_now\<rparr>"

abbreviation example_remove :: request where
  "example_remove \<equiv> (a_request ''DELETE'' ''/api/v1/files/{id}'')\<lparr>urlParam := (\<lambda>_. env_uuid example_env), serve_now := example_now,
     header := (\<lambda>_. example_token)\<rparr>"

theorem http_file_life_witness:
  "\<exists>rec1 s1 rec2 s2 rec3 s3. serve example_web example_instance example_post a_server = (rec1, Returned, s1) \<and> statusCode rec1 = 200 \<and>
    serve example_web example_instance example_get s1 = (rec2, Returned, s2) \<and> statusCode rec2 = 200 \<and>
    serve example_web example_instance example_remove s2 = (rec3, Returned, s3) \<and> statusCode rec3 = 200 \<and> files (outside_world s3) = []"
proof -
  let ?input = "example_input\<lparr>in_UploaderIPHash := hashIP (extractClientIP (http example_post)) (IPHashSalt (inst_config example_instance))\<rparr>"
  have ttl: "0 \<le> cfg_ttl example_config"
    by (simp add: example_config_sel interval_def i64_def Hour_def Minute_def Second_def)
  have "upload_prepare (web_unicode example_web) (upload_context example_post) ?input =
      Inr (''image/png'', content (in_Content ?input), sha256_hex example_png)"
    unfolding upload_prepare_hash using example_prepare by (simp add: example_web_def a_request_def)
  note life = http_file_life [OF one.running_axioms _ _ _ _ _ _ _ _ this, where s = a_server and g = example_get and d = example_remove
      and buf = "replicate 32 (CHR 0x2A)" and name = "in_OriginalName example_input" and n = "in_SizeBytes example_input"
      and body = "in_Content example_input"]
  show ?thesis
    using life ttl by (auto simp: a_server_def a_request_def active_with_checksum_def example_token_def)
qed

end
