(* ===== verification/Spec2Isabelle.thy ===== *)
theory Spec2Isabelle
  imports Handler_Properties Admin_Properties Service_Properties Server_Properties Startup_Properties Concurrency_Properties Http_Properties
begin

text \<open>
  tempcdn is a file host for temporary files: anyone uploads a file, gets a URL and a delete token, and
  the file is gone after a fixed time. The program under \<^verbatim>\<open>src/\<close> is one Go server, of which several
  instances may share a Postgres database and an R2 bucket. This development models it from the
  statements of the database up to the routes and the start of the process.

  \<^bold>\<open>The parts and how they interact.\<close> An upload (\<^verbatim>\<open>internal/upload\<close>) is validated against rules that admins
  can change, spooled to a temporary file while it is hashed, put into the bucket under a fresh key, and
  recorded in the table \<^verbatim>\<open>files\<close>. A deletion (\<^verbatim>\<open>internal/file\<close>) presents the delete token. The sweeper
  (\<^verbatim>\<open>internal/sweeper\<close>) removes expired objects and then their records, and Cloudflare's cache is purged
  of their URLs. Admins (\<^verbatim>\<open>internal/admin\<close>) log in, manage API keys, the upload settings and the legal
  documents; a synchronizer brings changed settings to the other instances. Every instance reports its
  heartbeat (\<^verbatim>\<open>internal/nodestatus\<close>). \<^verbatim>\<open>internal/httpserver\<close> puts the handlers behind recovery, logging,
  CORS and authorisation, and \<^verbatim>\<open>cmd/server/main.go\<close> starts it all.

  \<^bold>\<open>State.\<close> The database is the record \<open>pg\<close> of tables as lists of rows (\<open>Postgres\<close>); its extension is the
  rest of the world, of which \<open>outside_services\<close> says how the bucket is read. An instance's own memory is
  the record \<open>server\<close> (\<open>Server_State\<close>): the validator's rules, the limiter and the counters of the upload
  handler, the access log. Code that works on state is a \<open>State_Monad\<close> value \<open>('w, 'r) state\<close>; code that
  may fail returns \<open>error + 'r\<close>. Clocks, UUIDs and random bytes are arguments. The list \<open>db_faults\<close> in the
  database says, statement by statement, whether the connection fails before or after the server
  carried the statement out, so that a theorem about every state is one about every pattern of
  failures; the assumptions on the bucket leave its failures open in the same way.

  \<^bold>\<open>The theories.\<close>
  \<^item> \<open>Prelude\<close>, \<open>Go_Strings\<close>, \<open>Go_Crypto\<close>, \<open>Go_Sniff\<close>, \<open>Go_Time\<close>, \<open>Go_IO\<close>, \<open>Errors\<close>: state and frame rules,
    and what the code uses of Go's standard library: strings and \<^verbatim>\<open>strconv\<close>, SHA-256 and hex, the content
    sniffing of \<^verbatim>\<open>net/http\<close>, dates, readers, wrapped errors.
  \<^item> \<open>Model\<close>, \<open>Repository\<close>: the records and interfaces of \<^verbatim>\<open>internal/metadata\<close>. \<open>Postgres\<close>, \<open>Repo_Files\<close>,
    \<open>Repo_Admin\<close>, \<open>Repo_APIKeys\<close>, \<open>Repo_Settings\<close>, \<open>Legal\<close>, \<open>Nodes\<close>: the Postgres repository, one statement
    after the other; \<open>Migrate\<close>: its construction and the migrations; \<open>Schema\<close>: its constraints.
  \<^item> \<open>Storage\<close>, \<open>Cloudflare\<close>: the clients of R2 and of Cloudflare. \<open>Idgen\<close>, \<open>Ratelimit\<close>.
  \<^item> \<open>Validator\<close>, \<open>Checksum\<close>, \<open>Upload_Service\<close>, \<open>Upload_Handler\<close>, \<open>Settings\<close>: \<^verbatim>\<open>internal/upload\<close>.
    \<open>File_Service\<close>, \<open>File_Handler\<close>: \<^verbatim>\<open>internal/file\<close>. \<open>Sweeper\<close>.
  \<^item> \<open>Admin_Auth\<close>, \<open>Admin_Keys\<close>, \<open>Settings\<close>, \<open>Legal\<close>, \<open>Bootstrap\<close>, \<open>Admin_Handler\<close>: \<^verbatim>\<open>internal/admin\<close>
    and \<^verbatim>\<open>internal/legal\<close>. \<open>Nodes\<close>, \<open>Status_Handlers\<close>: \<^verbatim>\<open>internal/nodestatus\<close> and \<^verbatim>\<open>internal/stats\<close>.
  \<^item> \<open>Response\<close>, \<open>Http_Middleware\<close>, \<open>Router\<close>: \<^verbatim>\<open>internal/response\<close> and \<^verbatim>\<open>internal/httpserver\<close>. \<open>Config\<close>,
    \<open>Logger\<close>: \<^verbatim>\<open>internal/config\<close> and \<^verbatim>\<open>internal/logger\<close>. \<open>Metrics\<close>: the counters. \<open>Startup\<close> and \<open>Lifecycle\<close>:
    \<^verbatim>\<open>cmd/server/main.go\<close>, first the start as one function, then the running process as a step relation.
  \<^item> \<open>Services\<close>, \<open>Wiring\<close>: reference services that satisfy the assumptions on the outside, the components
    as \<^verbatim>\<open>main\<close> puts them together, and the example the witnesses run.
  \<^item> \<open>System\<close>: uploads, deletions and sweeps of all instances as one transition system, its abstract
    specification and the simulation. \<open>Threads\<close>, \<open>Interleaving\<close>, \<open>Interleaving_Safety\<close>,
    \<open>Interleaving_Threads\<close>: the same operations
    as threads that are interrupted between any two calls of the database or the bucket.
  \<^item> \<open>Requests\<close>, \<open>Repository_Calls\<close>, \<open>Formed\<close>: what a request does to the state as a whole, what the
    services do to the database as a whole, and the form of its rows. \<open>Cluster\<close>, \<open>Cluster_Files\<close>: several
    instances from their starts on, each serving requests through its router and running its loops.

  \<^bold>\<open>Interfaces.\<close> A component that is given an interface in Go is verified against a locale that states its
  contract: \<open>file_repository\<close> and \<open>object_storage\<close>, joined in \<open>file_backend\<close> (\<open>Backend\<close>); \<open>s3_service\<close> and
  \<open>outside_services\<close> for what the program needs of the services outside; \<open>admin_repository\<close>,
  \<open>api_key_repository\<close>, \<open>settings_repository\<close>, \<open>legal_repository\<close>, \<open>node_repository\<close>. The Postgres
  repository and the R2 client are shown to meet the contracts by interpretations and a sublocale, and
  the properties are stated about them. Between the layers, \<open>repository_calls\<close> is what the services need of
  a relation between databases to keep it, and \<open>server_calls\<close> what the HTTP layer needs of the services;
  each is interpreted for the relations of interest (the form of the rows, the stored files, an instance's
  memory). \<open>hosting\<close> and \<open>running\<close> collect what a configuration and a host promise, and \<open>rely_guarantee\<close>
  is the contract of threads that interfere.

  \<^bold>\<open>What the lemmas show.\<close> In the locales, the possible outcomes of each operation are a case rule
  (\<open>Upload_cases\<close>, \<open>DeleteBeforeTTL_cases\<close>, \<open>Login_cases\<close>, \<open>VerifySession_cases\<close>, \<open>Bootstrap_cases\<close>), every error
  path included, and what happens while everything answers a lemma of its own (\<open>_up\<close>, \<open>_live\<close>). The
  properties are numbered in the theories \<open>File_Properties\<close> and \<open>Handler_Properties\<close> (uploads, deletions,
  sweeps, their handlers), \<open>Admin_Properties\<close> (accounts, sessions, keys, documents), \<open>Service_Properties\<close>
  (settings, limiter, nodes, statistics, migrations, log), \<open>Server_Properties\<close> (routes),
  \<open>Startup_Properties\<close> (configuration, start and shutdown), \<open>Concurrency_Properties\<close> (operations that overlap),
  \<open>Cluster_Properties\<close> (the program as a whole) and \<open>Http_Properties\<close> (what a client meets from the start on).
  Each that has hypotheses has a witness, named after it, that applies it to a run of the program. The
  sections below state two facts on their own that those build on or contain: the refinement by whole
  operations, and the constraints of the schema under any calls of the repository.

  \<^bold>\<open>Loops and termination.\<close> Loops over lists are structural recursion. Tickers run over a list of ticks or
  a number of them, so that a statement holds for every prefix of an endless run. The code has no other
  loop; no fuel is used. What blocks for ever or panics is a value: receiving from the limiter's empty
  channel, making a channel of negative size, a ticker without a positive interval.

  \<^bold>\<open>Parameters.\<close> Code outside \<^verbatim>\<open>src/\<close> is an argument: the AWS SDK, the HTTP client and JSON decoding of
  Cloudflare's answers, \<^verbatim>\<open>bcrypt\<close>, the parsing of multipart forms and JSON bodies, \<^verbatim>\<open>promhttp\<close> and the
  Prometheus metrics, \<^verbatim>\<open>chi\<close>'s matching of paths, the pool of connections, the scripts of the
  migrations, and the parts of \<^verbatim>\<open>strings.ToLower\<close> and \<^verbatim>\<open>%q\<close> that need the Unicode tables.

  \<^bold>\<open>Not modelled.\<close> Log lines other than the access log and those of the shutdown; deadlines and
  cancellation of contexts, which show as failing calls; the text of JSON. Calls that overlap
  are modelled for uploads, deletions and sweeps, between any two calls of the database and the bucket, for
  the upload slots in \<open>Ratelimit\<close> and for the shutdown in \<open>Lifecycle\<close>; elsewhere, and in \<open>Cluster\<close>, a request
  or a tick is one step. What a request reads (bodies, clocks, UUIDs, random bytes) comes with it, and a
  UUID is taken to be new. The goroutines
  \<^verbatim>\<open>main\<close> starts on its way to serving take no steps before it serves; each is modelled on its own.
  Instants are nanoseconds, as Go's clocks give them, and the tables keep them as they are; the columns are
  \<^verbatim>\<open>TIMESTAMPTZ\<close>, which keeps microseconds. For instants of whole microseconds the two are the same;
  otherwise a comparison with an instant read back (an expiry, a heartbeat) may come out differently less
  than a microsecond around the boundary.
\<close>

section \<open>The system\<close>

text \<open>Instances that upload, delete and sweep in any order on one database and one bucket, while any
  call may fail, refine one table of files: each event adds one new entry, or changes the one whose delete
  token it carried, or changes only entries that have expired, or nothing. On the way, the ids stay
  distinct, no two records share an object, and every object a record refers to has the recorded content.\<close>

theorem system_refines:
  assumes "outside_services r2 bkt s3_up cf" and "system_run r2 bkt cf on uni ttl url es w w'"
    and "integrity (files w) (R2Objects r2 bkt w)"
  shows "store_run ttl es (own_store r2 bkt w) (own_store r2 bkt w') \<and> integrity (files w') (R2Objects r2 bkt w')"
  using run_refines [OF assms] .

lemma example_uploaded:
  "system_run ref_r2 s3_buckets (Some ref_cf) True (\<lambda>s. s) (24 * Hour) example_url [Uploaded example_env example_input]
    empty_world example_world"
proof (rule system_run.go [OF _ system_run.stop], rule system_step.upload)
  show "run_state (Upload (\<lambda>s. s) (main_upload ref_r2 (24 * Hour) example_url) example_env example_input) empty_world =
      (Inr \<lparr>Record = example_record, Duplicate = False, DeleteToken = example_token\<rparr>, example_world)"
    by (rule example_run)
qed (simp_all add: example_year)

theorem system_refines_witness:
  "store_run (24 * Hour) [Uploaded example_env example_input] (own_store ref_r2 s3_buckets empty_world)
    (own_store ref_r2 s3_buckets example_world) \<and> integrity (files example_world) (R2Objects ref_r2 s3_buckets example_world)"
  by (rule system_refines [OF ref.outside_services_axioms example_uploaded]) simp

text \<open>A file that an upload reported as stored keeps its record and its content through everything
  that all instances do afterwards, and whatever fails, until someone presents its delete token or a sweep
  comes after its expiry.\<close>

theorem stored_until_removed:
  assumes "outside_services r2 bkt s3_up cf" and "integrity (files w) (R2Objects r2 bkt w)"
    and "run_state (Upload uni (main_upload r2 ttl url) env input) w = (Inr res, w1)" and "\<not> Duplicate res"
    and "env_uuid env \<notin> file_ID ` set (files w)" and "length (env_uuid env) = 36"
    and "0 \<le> Year (env_now env)" and "Year (env_now env) \<le> 9999"
    and "system_run r2 bkt cf on uni ttl url es w1 w2" and "list_all (\<lambda>e. \<not> may_remove e (Record res)) es"
  shows "Record res \<in> set (files w2) \<and> file_ExpiresAt (Record res) = env_now env + ttl \<and>
    R2Objects r2 bkt w2 (ObjectKey (Record res)) = Some (content (in_Content input), ContentType (Record res))"
proof -
  let ?s = "main_upload r2 ttl url"
  note step = step_refines [OF assms(1,2) system_step.upload [OF assms(3,5-8)]]
  from assms(1,3) upload_NewService_sel(1,2)
  obtain ct chk buf where prep: "upload_prepare uni env input = Inr (ct, content (in_Content input), chk)"
    and rec: "Record res = new_record ?s env input ct (content (in_Content input)) chk (EncodeToString buf)"
    and w1: "files w1 = files w @ [Record res]"
      "R2Objects r2 bkt w1 = (R2Objects r2 bkt w)(env_key env input \<mapsto> (content (in_Content input), ct))"
  proof (cases rule: upload_cases)
    case (stored ct body chk buf r)
    then show ?thesis using that upload_prepare_ok [OF stored(1)] by auto
  qed (use assms(4) in auto)
  let ?r = "Record res" and ?obj = "Some (content (in_Content input), ct)"
  have r: "file_ID ?r = env_uuid env" "ObjectKey ?r = env_key env input" "ContentType ?r = ct"
      "file_ExpiresAt ?r = env_now env + ttl"
    using rec by simp_all
  have int: "integrity (files w1) (R2Objects r2 bkt w1)" using step by simp
  have "own_store r2 bkt w1 (env_uuid env) = Some (?r, ?obj)"
    using store_of_Some [OF integrity_distinct [OF int]] w1 r by simp
  then have "own_store r2 bkt w2 (env_uuid env) = Some (?r, ?obj)"
    using run_keeps [OF assms(1,9) int _ r(1)] assms(10) by (simp add: list_all_iff)
  moreover have "integrity (files w2) (R2Objects r2 bkt w2)" using run_refines [OF assms(1,9) int] by simp
  ultimately show ?thesis using store_of_Some [OF integrity_distinct, of "files w2"] r by simp
qed

theorem stored_until_removed_witness:
  "\<exists>w2. system_run ref_r2 s3_buckets (Some ref_cf) True (\<lambda>s. s) (24 * Hour) example_url [Swept example_now] example_world w2 \<and>
    R2Objects ref_r2 s3_buckets w2 (ObjectKey example_record) = Some (example_png, ''image/png'')"
proof -
  obtain l w2 where "run_state (sweepOnce (main_sweeper ref_r2 (Some ref_cf) True) example_now) example_world = (l, w2)"
    by force
  then have run: "system_run ref_r2 s3_buckets (Some ref_cf) True (\<lambda>s. s) (24 * Hour) example_url [Swept example_now] example_world w2"
    by (intro system_run.go [OF _ system_run.stop] system_step.sweep)
  show ?thesis
    using stored_until_removed [OF ref.outside_services_axioms _ example_run _ _ _ _ _ run] run
    by (auto simp: example_year may_remove_def Hour_def Minute_def Second_def)
qed

section \<open>The database\<close>

text \<open>The constraints of the schema hold in every state that calls of the repository methods reach, by
  whatever instances and with whatever failures: ids, user names, token hashes and document types are
  unique, sessions belong to accounts, and who changed settings or documents is an account.\<close>

theorem schema_invariant:
  assumes "db_call\<^sup>*\<^sup>* w w'" and "schema_ok w"
  shows "schema_ok w'"
  using db_calls_schema [OF assms] .

theorem schema_invariant_witness:
  "\<exists>w'. run_state (pg_InsertAdminSession (new_session ''token'' ''admin-1'' 0)) admin_world = (Inr (), w') \<and> schema_ok w' \<and>
    admin_sessions w' = [new_session ''token'' ''admin-1'' 0]"
proof -
  let ?s = "new_session ''token'' ''admin-1'' 0"
  obtain w' where w': "run_state (pg_InsertAdminSession ?s) admin_world = (Inr (), w')" "admin_sessions w' = [?s]"
    by (simp add: pg_InsertAdminSession_def run_pg_exec_ok insert_session_stmt_def)
  have "db_call\<^sup>*\<^sup>* admin_world w'" by (rule r_into_rtranclp) (rule db_call.intros, rule w'(1))
  from schema_invariant [OF this] show ?thesis using w' by simp
qed

end
